(* ===== verification/Prelude.thy ===== *)
theory Prelude
  imports Main "HOL-Library.Word" "HOL-Library.Sublist" "HOL-Library.Multiset"
begin

text \<open>
  The JavaScript values the frontend computes with, and the lemmas every component shares.

  \<^item> A JavaScript string is a list of UTF-16 code units (\<open>jstr\<close>, a list of 16-bit words);
    \<open>str ''abc''\<close> is the string literal "abc".
  \<^item> A plain object used as a dictionary (\<open>Record<string, T>\<close>) is an association list in
    the order in which the language enumerates own properties: array-index keys ascending,
    then the other keys in the order they were created. \<open>obj_get\<close> reads an own property,
    \<open>obj_set\<close> writes one, \<open>obj_remove\<close> drops one, \<open>obj_in\<close> is the operator \<open>in\<close>,
    which also sees the members inherited from \<open>Object.prototype\<close>. Reads of inherited
    members (keys such as "toString") are not modelled otherwise.
  \<^item> Numbers are integers: sequence numbers, identifiers, counters and pixel positions.
  \<^item> \<open>undefined\<close> and \<open>null\<close> in an optional field are \<open>None\<close>.
  \<^item> A \<open>json\<close> value is what \<open>JSON.parse\<close> returns.
  \<^item> \<open>Array.prototype.sort\<close> is stable, so its result for a consistent comparator is the
    stable insertion sort \<open>js_sort\<close>.
\<close>

named_theorems str_simps "facts that evaluate string operations"
named_theorems obj_simps "facts about objects used as dictionaries"

subsection \<open>Strings\<close>

type_synonym jchar = "16 word"
type_synonym jstr = "16 word list"

definition str :: "string \<Rightarrow> jstr" where
  "str s = map of_char s"

lemma unat_of_char [simp]: "unat (of_char c :: 16 word) = of_char c"
proof -
  have "(of_char c :: nat) mod 256 < 256" by (rule mod_less_divisor) simp
  then have "(of_char c :: nat) < 256" by (simp only: of_char_mod_256)
  then have "(of_char c :: nat) mod 65536 = of_char c" by (intro mod_less) linarith
  then have "unat (of_nat (of_char c) :: 16 word) = of_char c"
    by (simp add: unat_of_nat del: of_nat_of_char)
  then show ?thesis by (simp only: of_nat_of_char)
qed

lemma of_char_word_eq_iff [simp]: "(of_char c :: 16 word) = of_char d \<longleftrightarrow> c = d"
  by (metis of_char_eq_iff unat_of_char)

lemma str_inject [simp]: "str s = str t \<longleftrightarrow> s = t"
  by (simp add: str_def inj_map_eq_map inj_def)

lemma str_Nil_iff [simp]: "str s = [] \<longleftrightarrow> s = []" "[] = str s \<longleftrightarrow> s = []"
  by (auto simp: str_def)

lemma str_append: "str (s @ t) = str s @ str t"
  by (simp add: str_def)

lemma str_append_inject [simp]: "str s @ xs = str s @ ys \<longleftrightarrow> xs = ys"
  by simp

lemma length_str [simp]: "length (str s) = length s"
  by (simp add: str_def)

text \<open>The white space and line terminators that \<open>String.prototype.trim\<close> strips.\<close>

definition is_ws :: "jchar \<Rightarrow> bool" where
  "is_ws u \<longleftrightarrow> List.member [9, 10, 11, 12, 13, 32, 160, 5760, 8192, 8193, 8194, 8195, 8196,
     8197, 8198, 8199, 8200, 8201, 8202, 8232, 8233, 8239, 8287, 12288, 65279] u"

definition trim :: "jstr \<Rightarrow> jstr" where
  "trim s = rev (dropWhile is_ws (rev (dropWhile is_ws s)))"

fun split_lines :: "jstr \<Rightarrow> jstr list" where
  \<comment> \<open>\<open>s.split(/\r?\n/)\<close>\<close>
  "split_lines [] = [[]]"
| "split_lines (c # cs) =
     (if c = 10 then [] # split_lines cs
      else if c = 13 \<and> cs \<noteq> [] \<and> hd cs = 10 then split_lines cs
      else case split_lines cs of [] \<Rightarrow> [[c]] | l # ls \<Rightarrow> (c # l) # ls)"

fun join :: "jstr \<Rightarrow> jstr list \<Rightarrow> jstr" where
  "join sep [] = []"
| "join sep [x] = x"
| "join sep (x # y # ys) = x @ sep @ join sep (y # ys)"

fun indexOf :: "jchar \<Rightarrow> jstr \<Rightarrow> int" where
  \<comment> \<open>position of the first occurrence, -1 when there is none\<close>
  "indexOf c [] = - 1"
| "indexOf c (d # ds) =
     (if c = d then 0 else let i = indexOf c ds in if i < 0 then - 1 else i + 1)"

definition startsWith :: "jstr \<Rightarrow> jstr \<Rightarrow> bool" where
  "startsWith s p \<longleftrightarrow> take (length p) s = p"

definition str_includes :: "jstr \<Rightarrow> jstr \<Rightarrow> bool" where
  "str_includes s p \<longleftrightarrow> list_ex (\<lambda>t. startsWith t p) (suffixes s)"

lemma is_ws_newline [simp]: "is_ws 10" "is_ws 13"
  by (simp_all add: is_ws_def)

lemma not_ws_equals [simp]: "\<not> is_ws 61"
  by (simp add: is_ws_def)

subsubsection \<open>trim\<close>

definition trimmed :: "jstr \<Rightarrow> bool" where
  "trimmed s \<longleftrightarrow> s = [] \<or> (\<not> is_ws (hd s) \<and> \<not> is_ws (last s))"

lemma trim_id: "trimmed s \<Longrightarrow> trim s = s"
proof (cases s rule: rev_cases)
  case (snoc ys y)
  assume "trimmed s"
  with snoc have y: "\<not> is_ws y" and "\<not> is_ws (hd s)" by (auto simp: trimmed_def)
  then have "dropWhile is_ws s = s" using snoc by (simp add: dropWhile_eq_self_iff)
  with y snoc show ?thesis by (simp add: trim_def)
qed (simp add: trim_def)

lemma hd_dropWhile_not: "dropWhile P s \<noteq> [] \<Longrightarrow> \<not> P (hd (dropWhile P s))"
  by (induction s) auto

lemma trimmed_trim [simp]: "trimmed (trim s)"
proof (cases "trim s = []")
  case True
  then show ?thesis by (simp add: trimmed_def)
next
  case False
  let ?d = "dropWhile is_ws s"
  let ?e = "dropWhile is_ws (rev ?d)"
  have e: "?e \<noteq> []" using False unfolding trim_def by auto
  then have d: "?d \<noteq> []" by (metis dropWhile.simps(1) rev.simps(1))
  have last: "\<not> is_ws (last (trim s))"
    using hd_dropWhile_not [OF e] e by (simp add: trim_def last_rev)
  obtain zs where "rev ?d = zs @ ?e"
    by (metis takeWhile_dropWhile_id)
  then have "?d = rev ?e @ rev zs" by (metis rev_append rev_rev_ident)
  then have "hd (rev ?e) = hd ?d" using e by (metis hd_append2 rev_is_Nil_conv)
  then have "\<not> is_ws (hd (trim s))"
    using hd_dropWhile_not [OF d] by (simp add: trim_def)
  with last show ?thesis by (simp add: trimmed_def)
qed

lemma trim_trim [simp]: "trim (trim s) = trim s"
  by (simp add: trim_id)

lemma set_trim: "set (trim s) \<subseteq> set s"
  unfolding trim_def using set_dropWhileD by (metis set_rev subsetI)

subsubsection \<open>Lines\<close>

definition line_ok :: "jstr \<Rightarrow> bool" where
  \<comment> \<open>a line that joining with newlines and splitting again gives back\<close>
  "line_ok l \<longleftrightarrow> 10 \<notin> set l \<and> (l = [] \<or> last l \<noteq> 13)"

lemma split_lines_not_Nil [simp]: "split_lines s \<noteq> []"
  by (induction s) (auto split: list.split)

lemma split_lines_line: "line_ok l \<Longrightarrow> split_lines l = [l]"
proof (induction l)
  case (Cons c l)
  then have "line_ok l" "c \<noteq> 10" by (auto simp: line_ok_def split: if_splits)
  moreover have "l \<noteq> [] \<Longrightarrow> hd l \<noteq> 10"
    using Cons.prems by (cases l) (auto simp: line_ok_def)
  ultimately show ?case using Cons.IH by auto
qed simp

lemma split_lines_append:
  "line_ok l \<Longrightarrow> split_lines (l @ 10 # s) = l # split_lines s"
proof (induction l)
  case Nil
  then show ?case by simp
next
  case (Cons c l)
  then have "line_ok l" "c \<noteq> 10" by (auto simp: line_ok_def split: if_splits)
  moreover have "\<not> (c = 13 \<and> hd (l @ 10 # s) = 10)"
    using Cons.prems by (cases l) (auto simp: line_ok_def)
  ultimately show ?case using Cons.IH by auto
qed

lemma split_lines_join:
  "\<lbrakk>ls \<noteq> []; \<forall>l \<in> set ls. line_ok l\<rbrakk> \<Longrightarrow> split_lines (join [10] ls) = ls"
proof (induction ls rule: induct_list012)
  case (3 x y zs)
  then show ?case by (simp add: split_lines_append)
qed (auto simp: split_lines_line)

lemma split_lines_no_newline: "l \<in> set (split_lines s) \<Longrightarrow> 10 \<notin> set l"
proof (induction s arbitrary: l)
  case (Cons c s)
  then show ?case by (cases "split_lines s") (auto split: if_splits)
qed simp

lemma trimmed_line_ok: "10 \<notin> set l \<Longrightarrow> trimmed l \<Longrightarrow> line_ok l"
  using is_ws_newline by (auto simp: line_ok_def trimmed_def)

subsubsection \<open>Searching\<close>

lemma indexOf_ge [simp]: "- 1 \<le> indexOf c s"
  by (induction s) (auto simp: Let_def)

lemma indexOf_absent: "indexOf c s = - 1 \<longleftrightarrow> c \<notin> set s"
proof (induction s)
  case (Cons d s)
  have "indexOf c s < 0 \<Longrightarrow> indexOf c s = - 1" using indexOf_ge [of c s] by linarith
  with Cons show ?case by (auto simp: Let_def)
qed simp

lemma indexOf_append: "c \<notin> set k \<Longrightarrow> indexOf c (k @ c # v) = int (length k)"
  by (induction k) (auto simp: Let_def)

lemma indexOf_split:
  assumes "0 \<le> indexOf c s"
  shows "s = take (nat (indexOf c s)) s @ c # drop (nat (indexOf c s) + 1) s
    \<and> c \<notin> set (take (nat (indexOf c s)) s)"
  using assms
proof (induction s)
  case (Cons d s)
  show ?case
  proof (cases "c = d")
    case False
    then have i: "0 \<le> indexOf c s" "indexOf c (d # s) = indexOf c s + 1"
      using Cons.prems by (auto simp: Let_def split: if_splits)
    then have "nat (indexOf c s + 1) = Suc (nat (indexOf c s))" by simp
    with Cons.IH [OF i(1)] False i(2) show ?thesis by simp
  qed simp
qed simp

lemma startsWith_append [simp]: "startsWith (p @ s) p"
  by (simp add: startsWith_def)

lemma startsWith_iff: "startsWith s p \<longleftrightarrow> (\<exists>t. s = p @ t)"
  unfolding startsWith_def by (metis append_eq_conv_conj append_take_drop_id)

subsection \<open>Objects used as dictionaries\<close>

type_synonym 'v js_obj = "(jstr \<times> 'v) list"

definition is_digit :: "jchar \<Rightarrow> bool" where
  "is_digit u \<longleftrightarrow> 48 \<le> u \<and> u \<le> 57"

definition dec_value :: "jstr \<Rightarrow> int" where
  "dec_value s = foldl (\<lambda>n u. 10 * n + (uint u - 48)) 0 s"

definition is_index :: "jstr \<Rightarrow> bool" where
  \<comment> \<open>the canonical decimal form of an array index, 0 to 2^32 - 2\<close>
  "is_index k \<longleftrightarrow> k \<noteq> [] \<and> list_all is_digit k \<and> (length k = 1 \<or> hd k \<noteq> 48)
     \<and> dec_value k < 4294967295"

definition key_before :: "jstr \<Rightarrow> jstr \<Rightarrow> bool" where
  "key_before k k' \<longleftrightarrow> is_index k \<and> (is_index k' \<longrightarrow> dec_value k < dec_value k')"

definition obj_keys :: "'v js_obj \<Rightarrow> jstr list" where
  "obj_keys ob = map fst ob"

definition obj_values :: "'v js_obj \<Rightarrow> 'v list" where
  "obj_values ob = map snd ob"

definition obj_get :: "jstr \<Rightarrow> 'v js_obj \<Rightarrow> 'v option" where
  "obj_get k ob = map_of ob k"

fun obj_insert :: "jstr \<Rightarrow> 'v \<Rightarrow> 'v js_obj \<Rightarrow> 'v js_obj" where
  "obj_insert k v [] = [(k, v)]"
| "obj_insert k v ((k', v') # ob) =
     (if key_before k k' then (k, v) # (k', v') # ob else (k', v') # obj_insert k v ob)"

definition obj_set :: "jstr \<Rightarrow> 'v \<Rightarrow> 'v js_obj \<Rightarrow> 'v js_obj" where
  \<comment> \<open>\<open>ob[k] = v\<close>: an existing property keeps its place, a new one takes its place in the
     enumeration order\<close>
  "obj_set k v ob =
     (if List.member (obj_keys ob) k
      then map (\<lambda>(k', v'). if k' = k then (k, v) else (k', v')) ob
      else obj_insert k v ob)"

definition obj_remove :: "jstr \<Rightarrow> 'v js_obj \<Rightarrow> 'v js_obj" where
  "obj_remove k ob = filter (\<lambda>(k', v). k' \<noteq> k) ob"

definition fromEntries :: "(jstr \<times> 'v) list \<Rightarrow> 'v js_obj" where
  "fromEntries es = foldl (\<lambda>ob (k, v). obj_set k v ob) [] es"

definition object_prototype_keys :: "jstr list" where
  "object_prototype_keys = map str [''constructor'', ''__defineGetter__'', ''__defineSetter__'',
     ''hasOwnProperty'', ''__lookupGetter__'', ''__lookupSetter__'', ''isPrototypeOf'',
     ''propertyIsEnumerable'', ''toString'', ''valueOf'', ''__proto__'', ''toLocaleString'']"

definition obj_in :: "jstr \<Rightarrow> 'v js_obj \<Rightarrow> bool" where
  "obj_in k ob \<longleftrightarrow> List.member (obj_keys ob) k \<or> List.member object_prototype_keys k"

definition obj_ok :: "'v js_obj \<Rightarrow> bool" where
  "obj_ok ob \<longleftrightarrow> distinct (obj_keys ob) \<and>
     sorted_wrt (\<lambda>k k'. \<not> key_before k' k) (obj_keys ob)"

lemma obj_get_Nil [obj_simps, simp]: "obj_get k [] = None"
  by (simp add: obj_get_def)

lemma obj_get_insert:
  "k \<notin> set (obj_keys ob) \<Longrightarrow> obj_get k' (obj_insert k v ob) = (if k' = k then Some v else obj_get k' ob)"
proof (induction k v ob rule: obj_insert.induct)
  case (2 k v k'' v'' ob)
  then have "obj_get k ob = None" by (auto simp: obj_get_def obj_keys_def map_of_eq_None_iff)
  with 2 show ?case by (auto simp: obj_get_def obj_keys_def)
qed (auto simp: obj_get_def)

lemma obj_get_set [obj_simps, simp]:
  "obj_get k' (obj_set k v ob) = (if k' = k then Some v else obj_get k' ob)"
proof (cases "k \<in> set (obj_keys ob)")
  case True
  then have "obj_get k' (map (\<lambda>(a, b). if a = k then (k, v) else (a, b)) ob)
      = (if k' = k then Some v else obj_get k' ob)"
  proof (induction ob)
    case (Cons p ob)
    obtain a b where [simp]: "p = (a, b)" by (cases p)
    have none: "k \<notin> set (obj_keys ob) \<Longrightarrow>
        map (\<lambda>(a, b). if a = k then (k, v) else (a, b)) ob = ob"
      by (induction ob) (auto simp: obj_keys_def)
    show ?case
      using Cons none by (cases "k \<in> set (obj_keys ob)") (auto simp: obj_get_def obj_keys_def)
  qed (simp add: obj_keys_def)
  with True show ?thesis by (simp add: obj_set_def)
next
  case False
  then show ?thesis by (simp add: obj_set_def obj_get_insert)
qed

lemma obj_get_remove [obj_simps, simp]:
  "obj_get k' (obj_remove k ob) = (if k' = k then None else obj_get k' ob)"
  by (induction ob) (auto simp: obj_get_def obj_remove_def)

lemma obj_get_None_iff: "obj_get k ob = None \<longleftrightarrow> k \<notin> set (obj_keys ob)"
  by (simp add: obj_get_def obj_keys_def map_of_eq_None_iff)

lemma obj_get_Some_keys: "obj_get k ob = Some v \<Longrightarrow> k \<in> set (obj_keys ob)"
  using obj_get_None_iff [of k ob] by auto

lemma obj_get_Some_values: "obj_get k ob = Some v \<Longrightarrow> v \<in> set (obj_values ob)"
  by (auto simp: obj_get_def obj_values_def dest!: map_of_SomeD intro: image_eqI rev_image_eqI)

lemma set_obj_keys_insert: "set (obj_keys (obj_insert k v ob)) = insert k (set (obj_keys ob))"
  by (induction k v ob rule: obj_insert.induct) (auto simp: obj_keys_def)

lemma obj_keys_set_in: "k \<in> set (obj_keys ob) \<Longrightarrow> obj_keys (obj_set k v ob) = obj_keys ob"
  by (auto simp: obj_set_def obj_keys_def split_def)

lemma set_obj_keys_set [obj_simps, simp]:
  "set (obj_keys (obj_set k v ob)) = insert k (set (obj_keys ob))"
  by (cases "k \<in> set (obj_keys ob)")
     (auto simp: obj_keys_set_in, auto simp: obj_set_def set_obj_keys_insert)

lemma obj_keys_remove [obj_simps]:
  "obj_keys (obj_remove k ob) = filter (\<lambda>k'. k' \<noteq> k) (obj_keys ob)"
  by (induction ob) (auto simp: obj_keys_def obj_remove_def)

lemma key_before_trans: "key_before a b \<Longrightarrow> \<not> key_before c b \<Longrightarrow> \<not> key_before c a"
  by (auto simp: key_before_def)

lemma key_before_asym: "key_before a b \<Longrightarrow> \<not> key_before b a"
  by (auto simp: key_before_def)

lemma obj_insert_ok: "obj_ok ob \<Longrightarrow> k \<notin> set (obj_keys ob) \<Longrightarrow> obj_ok (obj_insert k v ob)"
proof (induction k v ob rule: obj_insert.induct)
  case (2 k v k' v' ob)
  show ?case
  proof (cases "key_before k k'")
    case True
    with 2 show ?thesis
      using key_before_trans [OF True] by (auto simp: obj_ok_def obj_keys_def key_before_asym)
  next
    case False
    with 2 have "obj_ok (obj_insert k v ob)" by (auto simp: obj_ok_def obj_keys_def)
    moreover have "set (obj_keys (obj_insert k v ob)) = insert k (set (obj_keys ob))"
      by (rule set_obj_keys_insert)
    ultimately show ?thesis using 2 False by (auto simp: obj_ok_def obj_keys_def)
  qed
qed (simp add: obj_ok_def obj_keys_def)

lemma obj_set_ok [intro, simp]: "obj_ok ob \<Longrightarrow> obj_ok (obj_set k v ob)"
proof (cases "k \<in> set (obj_keys ob)")
  case True
  moreover assume "obj_ok ob"
  ultimately show ?thesis by (simp add: obj_ok_def obj_keys_set_in)
next
  case False
  moreover assume "obj_ok ob"
  ultimately show ?thesis by (simp add: obj_set_def obj_insert_ok)
qed

lemma obj_remove_ok [intro, simp]: "obj_ok ob \<Longrightarrow> obj_ok (obj_remove k ob)"
  by (simp add: obj_ok_def obj_keys_remove sorted_wrt_filter)

lemma obj_ok_Nil [simp]: "obj_ok []"
  by (simp add: obj_ok_def obj_keys_def)

lemma fromEntries_ok: "obj_ok (fromEntries es)"
proof -
  have "obj_ok ob \<Longrightarrow> obj_ok (foldl (\<lambda>ob (k, v). obj_set k v ob) ob es)" for ob
    by (induction es arbitrary: ob) auto
  then show ?thesis by (simp add: fromEntries_def)
qed

lemma obj_get_fromEntries: "obj_get k (fromEntries es) = map_of (rev es) k"
proof -
  have "obj_get k (foldl (\<lambda>ob (k, v). obj_set k v ob) ob es)
      = (case map_of (rev es) k of None \<Rightarrow> obj_get k ob | Some v \<Rightarrow> Some v)" for ob
    by (induction es arbitrary: ob) (auto simp: map_add_def split: option.split)
  then show ?thesis by (simp add: fromEntries_def split: option.split)
qed

lemma obj_insert_last:
  "\<lbrakk>obj_ok (ob @ [(k, v)])\<rbrakk> \<Longrightarrow> obj_insert k v ob = ob @ [(k, v)]"
proof (induction ob)
  case (Cons p ob)
  obtain a b where [simp]: "p = (a, b)" by (cases p)
  from Cons have "\<not> key_before k a" "obj_ok (ob @ [(k, v)])"
    by (auto simp: obj_ok_def obj_keys_def sorted_wrt_append)
  with Cons.IH show ?case by simp
qed simp

lemma obj_set_last: "obj_ok (ob @ [(k, v)]) \<Longrightarrow> obj_set k v ob = ob @ [(k, v)]"
  by (auto simp: obj_set_def obj_insert_last) (auto simp: obj_ok_def obj_keys_def)

lemma obj_ok_append1: "obj_ok (xs @ ys) \<Longrightarrow> obj_ok xs"
  by (auto simp: obj_ok_def obj_keys_def sorted_wrt_append)

lemma fromEntries_id: "obj_ok ob \<Longrightarrow> fromEntries ob = ob"
proof (induction ob rule: rev_induct)
  case (snoc p ob)
  obtain k v where [simp]: "p = (k, v)" by (cases p)
  from snoc have "fromEntries ob = ob" using obj_ok_append1 by blast
  then show ?case using obj_set_last snoc.prems by (simp add: fromEntries_def)
qed (simp add: fromEntries_def)

subsection \<open>Stable sorting by a comparator\<close>

fun sort_insert :: "('a \<Rightarrow> 'a \<Rightarrow> int) \<Rightarrow> 'a \<Rightarrow> 'a list \<Rightarrow> 'a list" where
  "sort_insert cmp x [] = [x]"
| "sort_insert cmp x (y # ys) = (if cmp x y \<le> 0 then x # y # ys else y # sort_insert cmp x ys)"

definition js_sort :: "('a \<Rightarrow> 'a \<Rightarrow> int) \<Rightarrow> 'a list \<Rightarrow> 'a list" where
  "js_sort cmp xs = foldr (sort_insert cmp) xs []"

lemma mset_sort_insert [simp]: "mset (sort_insert cmp x xs) = add_mset x (mset xs)"
  by (induction xs) auto

lemma mset_js_sort [simp]: "mset (js_sort cmp xs) = mset xs"
  by (induction xs) (auto simp: js_sort_def)

lemma set_js_sort [simp]: "set (js_sort cmp xs) = set xs"
  by (metis mset_js_sort set_mset_mset)

lemma distinct_js_sort [simp]: "distinct (js_sort cmp xs) = distinct xs"
  by (metis mset_js_sort mset_eq_imp_distinct_iff)

lemma distinct_map_js_sort: "distinct (map f (js_sort cmp xs)) = distinct (map f xs)"
  by (metis mset_js_sort mset_map mset_eq_imp_distinct_iff)

text \<open>A comparator is consistent when \<open>cmp x y \<le> 0\<close> is a total preorder.\<close>

definition cmp_ok :: "('a \<Rightarrow> 'a \<Rightarrow> int) \<Rightarrow> bool" where
  "cmp_ok cmp \<longleftrightarrow> (\<forall>x y. cmp x y \<le> 0 \<or> cmp y x \<le> 0)
     \<and> (\<forall>x y z. cmp x y \<le> 0 \<longrightarrow> cmp y z \<le> 0 \<longrightarrow> cmp x z \<le> 0)"

lemma sorted_sort_insert:
  assumes "cmp_ok cmp" and "sorted_wrt (\<lambda>x y. cmp x y \<le> 0) xs"
  shows "sorted_wrt (\<lambda>x y. cmp x y \<le> 0) (sort_insert cmp x xs)"
  using assms(2)
proof (induction xs)
  case (Cons y ys)
  have set: "set (sort_insert cmp x ys) = insert x (set ys)"
    by (metis mset_sort_insert set_mset_add_mset_insert set_mset_mset)
  show ?case
  proof (cases "cmp x y \<le> 0")
    case True
    with assms(1) Cons.prems show ?thesis by (auto simp: cmp_ok_def)
  next
    case False
    with assms(1) have "cmp y x \<le> 0" unfolding cmp_ok_def by blast
    with False Cons set show ?thesis by auto
  qed
qed simp

lemma sorted_js_sort: "cmp_ok cmp \<Longrightarrow> sorted_wrt (\<lambda>x y. cmp x y \<le> 0) (js_sort cmp xs)"
  by (induction xs) (auto simp: js_sort_def sorted_sort_insert)

subsection \<open>JSON values and thrown errors\<close>

datatype json =
    JNull
  | JBool bool
  | JNum int
  | JStr jstr
  | JArr "json list"
  | JObj "(jstr \<times> json) list"

fun json_field :: "jstr \<Rightarrow> json \<Rightarrow> json option" where
  \<comment> \<open>\<open>v.k\<close> on an object; \<open>None\<close> is \<open>undefined\<close>\<close>
  "json_field k (JObj ob) = obj_get k ob"
| "json_field k _ = None"

fun json_str :: "json option \<Rightarrow> jstr option" where
  "json_str (Some (JStr s)) = Some s"
| "json_str _ = None"

fun json_num :: "json option \<Rightarrow> int option" where
  "json_num (Some (JNum n)) = Some n"
| "json_num _ = None"

datatype js_exn = TypeError | URIError

definition orElse :: "'a option \<Rightarrow> 'a \<Rightarrow> 'a" where
  \<comment> \<open>the operator \<open>??\<close>\<close>
  "orElse x d = (case x of None \<Rightarrow> d | Some v \<Rightarrow> v)"

lemma orElse_simps [simp]: "orElse None d = d" "orElse (Some v) d = v"
  by (simp_all add: orElse_def)

definition nonempty :: "jstr \<Rightarrow> jstr option" where
  \<comment> \<open>\<open>s || null\<close>: the empty string is falsy\<close>
  "nonempty s = (if s = [] then None else Some s)"

lemma nonempty_eq_Some [simp]: "nonempty s = Some t \<longleftrightarrow> s = t \<and> t \<noteq> []"
  by (auto simp: nonempty_def)

lemma nonempty_eq_None [simp]: "nonempty s = None \<longleftrightarrow> s = []"
  by (auto simp: nonempty_def)

subsection \<open>Decimal numerals\<close>

fun nat_str :: "nat \<Rightarrow> jstr" where
  "nat_str n = (if n < 10 then [48 + of_nat n] else nat_str (n div 10) @ [48 + of_nat (n mod 10)])"

declare nat_str.simps [simp del]

definition num_str :: "int \<Rightarrow> jstr" where
  \<comment> \<open>a number in a template literal\<close>
  "num_str i = (if i < 0 then 45 # nat_str (nat (- i)) else nat_str (nat i))"

lemma uint_digit: "n < 10 \<Longrightarrow> uint (48 + of_nat n :: 16 word) = 48 + int n"
proof -
  assume "n < 10"
  then have "n \<in> set [0, 1, 2, 3, 4, 5, 6, 7, 8, 9]" by auto
  then show ?thesis by auto
qed

lemma dec_value_snoc: "dec_value (s @ [u]) = 10 * dec_value s + (uint u - 48)"
  by (simp add: dec_value_def)

lemma dec_value_nat_str: "dec_value (nat_str n) = int n"
proof (induction n rule: nat_str.induct)
  case (1 n)
  show ?case
  proof (cases "n < 10")
    case True
    then show ?thesis by (subst nat_str.simps) (simp add: dec_value_def uint_digit)
  next
    case False
    have "uint (48 + of_nat (n mod 10) :: 16 word) = 48 + int (n mod 10)"
      by (rule uint_digit) simp
    with False 1 have "dec_value (nat_str n) = 10 * int (n div 10) + int (n mod 10)"
      by (subst nat_str.simps) (simp add: dec_value_snoc)
    also have "\<dots> = int n" by (metis mult_div_mod_eq of_nat_add of_nat_mult of_nat_numeral)
    finally show ?thesis .
  qed
qed

lemma nat_str_inject [simp]: "nat_str m = nat_str n \<longleftrightarrow> m = n"
  by (metis dec_value_nat_str of_nat_eq_iff)

lemma hd_nat_str_digit: "nat_str n \<noteq> [] \<and> hd (nat_str n) \<noteq> 45"
proof (induction n rule: nat_str.induct)
  case (1 n)
  show ?case
  proof (cases "n < 10")
    case True
    then have "n \<in> set [0, 1, 2, 3, 4, 5, 6, 7, 8, 9]" by auto
    then have "48 + of_nat n \<noteq> (45 :: 16 word)" by auto
    with True show ?thesis by (subst (1 2) nat_str.simps) simp
  next
    case False
    with 1 show ?thesis by (subst (1 2) nat_str.simps) auto
  qed
qed

lemma num_str_inject [simp]: "num_str i = num_str j \<longleftrightarrow> i = j"
proof -
  have "nat_str m \<noteq> 45 # s" for m s using hd_nat_str_digit [of m] by auto
  then show ?thesis by (auto simp: num_str_def dest: sym)
qed

subsection \<open>Lists of integers\<close>

definition max_from :: "int \<Rightarrow> int list \<Rightarrow> int" where
  \<comment> \<open>\<open>xs.reduce((max, x) => Math.max(max, x), z)\<close>\<close>
  "max_from z xs = foldl max z xs"

lemma max_from_simps [simp]: "max_from z [] = z" "max_from z (x # xs) = max_from (max z x) xs"
  by (simp_all add: max_from_def)

lemma max_from_append: "max_from z (xs @ ys) = max_from (max_from z xs) ys"
  by (simp add: max_from_def)

lemma max_from_ge: "z \<le> max_from z xs \<and> (\<forall>x \<in> set xs. x \<le> max_from z xs)"
proof (induction xs arbitrary: z)
  case (Cons x xs)
  from Cons [of "max z x"] show ?case by auto
qed simp

lemma max_from_in: "max_from z xs = z \<or> max_from z xs \<in> set xs"
proof (induction xs arbitrary: z)
  case (Cons x xs)
  from Cons [of "max z x"] show ?case by (auto simp: max_def)
qed simp

lemma max_from_eq_Max: "max_from z xs = Max (insert z (set xs))"
  using max_from_ge [of z xs] max_from_in [of z xs] by (intro Max_eqI [symmetric]) auto

subsection \<open>Ordered logs\<close>

text \<open>A log is a list with strictly increasing keys; a replay from cursor \<open>a\<close> is the part with
  keys above \<open>a\<close>, in order.\<close>

lemma ordered_split:
  fixes key :: "'a \<Rightarrow> int"
  assumes "sorted_wrt (<) (map key xs)"
  shows "filter (\<lambda>x. key x \<le> a) xs @ filter (\<lambda>x. a < key x) xs = xs"
  using assms
proof (induction xs)
  case (Cons x xs)
  show ?case
  proof (cases "key x \<le> a")
    case False
    with Cons.prems have "\<forall>y \<in> set xs. a < key y" by auto
    then have "filter (\<lambda>x. key x \<le> a) xs = []" "filter (\<lambda>x. a < key x) xs = xs"
      by (auto simp: filter_empty_conv filter_id_conv)
    with False show ?thesis by simp
  qed (use Cons in auto)
qed simp

lemma ordered_split_length:
  fixes key :: "'a \<Rightarrow> int"
  assumes "sorted_wrt (<) (map key xs)"
  shows "length (filter (\<lambda>x. key x \<le> a) xs) + length (filter (\<lambda>x. a < key x) xs) = length xs"
  using ordered_split [OF assms, of a] by (metis length_append)

lemma ordered_nth_after:
  fixes key :: "'a \<Rightarrow> int"
  assumes "sorted_wrt (<) (map key xs)" "j < length (filter (\<lambda>x. a < key x) xs)"
  shows "filter (\<lambda>x. a < key x) xs ! j = xs ! (length (filter (\<lambda>x. key x \<le> a) xs) + j)
     \<and> length (filter (\<lambda>x. key x \<le> a) xs) + j < length xs"
proof -
  have "filter (\<lambda>x. a < key x) xs ! j = xs ! (length (filter (\<lambda>x. key x \<le> a) xs) + j)"
    using ordered_split [OF assms(1), of a] by (metis nth_append_length_plus)
  with ordered_split_length [OF assms(1), of a] assms(2) show ?thesis by linarith
qed

lemma ordered_max_prefix:
  \<comment> \<open>the greatest key of a prefix counts the prefix\<close>
  fixes key :: "'a \<Rightarrow> int"
  assumes "sorted_wrt (<) (map key xs)" "\<forall>x \<in> set xs. z < key x"
  shows "length (filter (\<lambda>x. key x \<le> max_from z (map key (take k xs))) xs) = min k (length xs)"
proof -
  let ?a = "max_from z (map key (take k xs))"
  have ge: "\<forall>x \<in> set (take k xs). key x \<le> ?a" using max_from_ge [of z "map key (take k xs)"] by auto
  have lt: "\<forall>x \<in> set (drop k xs). ?a < key x"
  proof
    fix x assume x: "x \<in> set (drop k xs)"
    then have "z < key x" using assms(2) by (auto dest: in_set_dropD)
    moreover have "sorted_wrt (<) (map key (take k xs) @ map key (drop k xs))"
      using assms(1) by (simp flip: map_append)
    then have "\<forall>y \<in> set (take k xs). key y < key x" using x by (auto simp: sorted_wrt_append)
    ultimately show "?a < key x" using max_from_in [of z "map key (take k xs)"] by auto
  qed
  have "filter (\<lambda>x. key x \<le> ?a) (take k xs @ drop k xs) = take k xs"
    using ge lt by (auto simp: filter_empty_conv filter_id_conv simp del: append_take_drop_id)
  then show ?thesis by (metis append_take_drop_id length_take min.commute)
qed

lemma ordered_filter:
  fixes key :: "'a \<Rightarrow> int"
  shows "sorted_wrt (<) (map key xs) \<Longrightarrow> sorted_wrt (<) (map key (filter P xs))"
  by (induction xs) auto

lemma num_str_digits: "0 \<le> i \<Longrightarrow> num_str i \<noteq> [] \<and> list_all is_digit (num_str i) \<and> dec_value (num_str i) = i"
proof -
  have "list_all is_digit (nat_str n)" for n
  proof (induction n rule: nat_str.induct)
    case (1 n)
    have d: "is_digit (48 + of_nat m)" if "m < 10" for m
    proof -
      from that have "m \<in> set [0, 1, 2, 3, 4, 5, 6, 7, 8, 9]" by auto
      then show ?thesis by (auto simp: is_digit_def)
    qed
    show ?case
    proof (cases "n < 10")
      case True
      then show ?thesis using d by (subst nat_str.simps) simp
    next
      case False
      with 1 show ?thesis using d [of "n mod 10"] by (subst nat_str.simps) (simp add: of_nat_mod)
    qed
  qed
  then show "0 \<le> i \<Longrightarrow> ?thesis" using hd_nat_str_digit by (simp add: num_str_def dec_value_nat_str)
qed

end
