(* ===== verification/Sessions.thy ===== *)
theory Sessions
  imports Prelude
begin

text \<open>
  The session transcript of \<open>frontend/src/features/sessions\<close>: the data of \<open>types.ts\<close> and the
  pure view-state reducer of \<open>reducer.ts\<close>. A view state holds the persisted messages, the
  live token buffers by step, the thinking flags and the connection status. The lemmas show
  the invariant every reducer call keeps, that persisted messages are taken exactly once, how
  live text accumulates and is flushed, and that grouping by step loses nothing.
\<close>

subsection \<open>Data\<close>

datatype SessionStatus = SActive | SCompleted | SFailed | SInterrupted

datatype SessionMessageRole = User | Assistant | Tool | System

record SessionDetail =
  sd_id :: int
  sd_thread_id :: jstr
  sd_status :: SessionStatus
  sd_title :: "jstr option"
  sd_latest_sequence :: int
  sd_created_at :: jstr
  sd_updated_at :: jstr

record SessionMessage =
  msg_id :: jstr
  msg_session_id :: int
  msg_sequence :: int
  msg_role :: SessionMessageRole
  msg_content :: jstr
  msg_kwargs :: "json js_obj"
  msg_created_at :: jstr

datatype terminal_type = Completed | Failed | Interrupted

datatype SessionStreamEvent =
    Message int int SessionMessageRole jstr "json js_obj" "jstr option"
      \<comment> \<open>session id, sequence, role, content, additional kwargs, creation time\<close>
  | Message_Delta int "int option" SessionMessageRole jstr "json js_obj"
  | Terminal terminal_type int

datatype ConnectionStatus = Idle | Connecting | Open | Reconnecting | Closed

record SessionViewState =
  latestSequence :: int
  messages :: "SessionMessage list"
  liveBuffers :: "jstr js_obj"
  connectionStatus :: ConnectionStatus
  thinking :: "bool js_obj"

subsection \<open>The reducer\<close>

definition createInitialSessionViewState :: SessionViewState where
  "createInitialSessionViewState =
     \<lparr>latestSequence = 0, messages = [], liveBuffers = [], connectionStatus = Idle, thinking = []\<rparr>"

definition hydrateSessionViewState :: "SessionMessage list \<Rightarrow> SessionViewState" where
  "hydrateSessionViewState ms = createInitialSessionViewState
     \<lparr>latestSequence := max_from 0 (map msg_sequence ms), messages := ms\<rparr>"

definition readString :: "json option \<Rightarrow> jstr option" where
  "readString v = json_str v"

definition bufferKey :: "json js_obj option \<Rightarrow> jstr" where
  "bufferKey additional =
     (let stp = orElse (readString (Option.bind additional (obj_get (str ''step'')))) [];
          turnId = orElse (readString (Option.bind additional (obj_get (str ''turn_id'')))) []
      in if stp \<noteq> [] then str ''step:'' @ stp
         else if turnId \<noteq> [] then str ''turn:'' @ turnId
         else str ''default'')"

fun reduceSessionStreamEvent ::
  "SessionViewState \<Rightarrow> SessionStreamEvent \<Rightarrow> SessionViewState" where
  "reduceSessionStreamEvent state (Message sid sequence role content kwargs created) =
     (if list_ex (\<lambda>existing. msg_sequence existing = sequence) (messages state) then state
      else
        let stepKey = bufferKey (Some kwargs) in
        state\<lparr>latestSequence := max (latestSequence state) sequence,
              messages := messages state @
                [\<lparr>msg_id = str ''msg-'' @ num_str sequence, msg_session_id = sid,
                  msg_sequence = sequence, msg_role = role, msg_content = content,
                  msg_kwargs = kwargs, msg_created_at = orElse created []\<rparr>],
              liveBuffers := obj_remove stepKey (liveBuffers state)\<rparr>)"
| "reduceSessionStreamEvent state (Message_Delta sid sequence role content kwargs) =
     (let stepKey = bufferKey (Some kwargs);
          channel = readString (obj_get (str ''channel'') kwargs)
      in if channel = Some (str ''thinking'')
         then state\<lparr>thinking := obj_set stepKey True (thinking state)\<rparr>
         else if content = [] then state
         else state\<lparr>liveBuffers :=
                obj_set stepKey (orElse (obj_get stepKey (liveBuffers state)) [] @ content)
                  (liveBuffers state)\<rparr>)"
| "reduceSessionStreamEvent state (Terminal t sid) = state"

definition message_step :: "SessionMessage \<Rightarrow> jstr" where
  "message_step m = orElse (readString (obj_get (str ''step'') (msg_kwargs m))) (str ''unknown'')"

fun group_messages ::
  "SessionMessage list js_obj \<Rightarrow> SessionMessage list \<Rightarrow> js_exn + SessionMessage list js_obj" where
  "group_messages grouped [] = Inr grouped"
| "group_messages grouped (m # ms) =
     (let stp = message_step m in
      if List.member object_prototype_keys stp
      then Inl TypeError \<comment> \<open>\<open>grouped[step]\<close> is the inherited member, which has no \<open>push\<close>\<close>
      else group_messages
             (obj_set stp (orElse (obj_get stp grouped) [] @ [m]) grouped) ms)"

definition projectSessionMessagesByStep ::
  "SessionViewState \<Rightarrow> js_exn + SessionMessage list js_obj" where
  "projectSessionMessagesByStep state = group_messages [] (messages state)"

definition reduce_all :: "SessionViewState \<Rightarrow> SessionStreamEvent list \<Rightarrow> SessionViewState" where
  "reduce_all = foldl reduceSessionStreamEvent"

subsection \<open>The invariant\<close>

definition view_ok :: "SessionViewState \<Rightarrow> bool" where
  "view_ok s \<longleftrightarrow> distinct (map msg_sequence (messages s))
     \<and> latestSequence s = max_from 0 (map msg_sequence (messages s))
     \<and> obj_ok (liveBuffers s) \<and> obj_ok (thinking s)
     \<and> (\<forall>k. obj_get k (liveBuffers s) \<noteq> Some [])
     \<and> (\<forall>k b. obj_get k (thinking s) = Some b \<longrightarrow> b)"

lemma initial_view_simps [simp]:
  "latestSequence createInitialSessionViewState = 0" "messages createInitialSessionViewState = []"
  "liveBuffers createInitialSessionViewState = []" "thinking createInitialSessionViewState = []"
  "connectionStatus createInitialSessionViewState = Idle"
  by (simp_all add: createInitialSessionViewState_def)

lemma hydrate_view_simps [simp]:
  "latestSequence (hydrateSessionViewState ms) = max_from 0 (map msg_sequence ms)"
  "messages (hydrateSessionViewState ms) = ms"
  by (simp_all add: hydrateSessionViewState_def)

lemma initial_view_ok [simp]: "view_ok createInitialSessionViewState"
  by (simp add: view_ok_def createInitialSessionViewState_def)

lemma hydrate_view_ok:
  "distinct (map msg_sequence ms) \<Longrightarrow> view_ok (hydrateSessionViewState ms)"
  by (simp add: view_ok_def hydrateSessionViewState_def createInitialSessionViewState_def)

lemma has_sequence_iff:
  "list_ex (\<lambda>e. msg_sequence e = n) ms \<longleftrightarrow> n \<in> set (map msg_sequence ms)"
  by (auto simp: list_ex_iff)

lemma reduce_view_ok: "view_ok s \<Longrightarrow> view_ok (reduceSessionStreamEvent s e)"
proof (cases e)
  case (Message sid n role c kw cr)
  assume "view_ok s"
  with Message show ?thesis
    by (auto simp: view_ok_def Let_def has_sequence_iff max_from_append)
next
  case (Message_Delta sid n role c kw)
  assume "view_ok s"
  with Message_Delta show ?thesis by (auto simp: view_ok_def Let_def)
qed simp

lemma reduce_all_view_ok: "view_ok s \<Longrightarrow> view_ok (reduce_all s es)"
  by (induction es arbitrary: s) (auto simp: reduce_all_def reduce_view_ok)

subsection \<open>Persisted messages are taken once\<close>

fun is_known_message :: "SessionViewState \<Rightarrow> SessionStreamEvent \<Rightarrow> bool" where
  "is_known_message s (Message sid n role c kw cr) = List.member (map msg_sequence (messages s)) n"
| "is_known_message s _ = False"

lemma reduce_known_message: "is_known_message s e \<Longrightarrow> reduceSessionStreamEvent s e = s"
  by (cases e) (auto simp: has_sequence_iff)

lemma replay_absorbed:
  "\<forall>e \<in> set es. is_known_message s e \<Longrightarrow> reduce_all s es = s"
  by (induction es) (auto simp: reduce_all_def reduce_known_message)

subsection \<open>Live text\<close>

fun delta_text :: "jstr \<Rightarrow> jstr option \<Rightarrow> SessionStreamEvent \<Rightarrow> jstr option" where
  \<comment> \<open>what one event does to the live text of one buffer key\<close>
  "delta_text k t (Message sid n role c kw cr) = (if bufferKey (Some kw) = k then None else t)"
| "delta_text k t (Message_Delta sid n role c kw) =
     (if bufferKey (Some kw) = k \<and> c \<noteq> []
         \<and> readString (obj_get (str ''channel'') kw) \<noteq> Some (str ''thinking'')
      then Some (orElse t [] @ c) else t)"
| "delta_text k t (Terminal ty sid) = t"

fun fresh_events :: "int set \<Rightarrow> SessionStreamEvent list \<Rightarrow> bool" where
  \<comment> \<open>no persisted message of the list repeats a sequence number\<close>
  "fresh_events seen [] = True"
| "fresh_events seen (Message sid n role c kw cr # es) = (n \<notin> seen \<and> fresh_events (insert n seen) es)"
| "fresh_events seen (_ # es) = fresh_events seen es"

lemma reduce_delta_text:
  assumes "fresh_events (set (map msg_sequence (messages s))) [e]"
  shows "obj_get k (liveBuffers (reduceSessionStreamEvent s e)) = delta_text k (obj_get k (liveBuffers s)) e"
  using assms by (cases e) (auto simp: Let_def has_sequence_iff)

lemma fresh_events_Cons:
  "fresh_events (set (map msg_sequence (messages s))) (e # es) \<Longrightarrow>
     fresh_events (set (map msg_sequence (messages s))) [e] \<and>
     fresh_events (set (map msg_sequence (messages (reduceSessionStreamEvent s e)))) es"
  by (cases e) (auto simp: Let_def has_sequence_iff)

lemma live_text_history:
  "fresh_events (set (map msg_sequence (messages s))) es \<Longrightarrow>
     obj_get k (liveBuffers (reduce_all s es)) = foldl (delta_text k) (obj_get k (liveBuffers s)) es"
proof (induction es arbitrary: s)
  case (Cons e es)
  note fresh_events_Cons [OF Cons.prems]
  with Cons.IH [of "reduceSessionStreamEvent s e"] show ?case
    by (simp add: reduce_all_def reduce_delta_text)
qed (simp add: reduce_all_def)

subsection \<open>Grouping by step\<close>

lemma group_messages_step:
  "\<lbrakk>\<forall>m \<in> set ms. message_step m \<notin> set object_prototype_keys\<rbrakk> \<Longrightarrow>
   \<exists>g. group_messages grouped ms = Inr g \<and>
     (\<forall>stp. orElse (obj_get stp g) [] =
        orElse (obj_get stp grouped) [] @ filter (\<lambda>m. message_step m = stp) ms) \<and>
     set (obj_keys g) = set (obj_keys grouped) \<union> message_step ` set ms \<and>
     (obj_ok grouped \<longrightarrow> obj_ok g)"
proof (induction ms arbitrary: grouped)
  case (Cons m ms)
  let ?g = "obj_set (message_step m) (orElse (obj_get (message_step m) grouped) [] @ [m]) grouped"
  from Cons.prems have "\<forall>m \<in> set ms. message_step m \<notin> set object_prototype_keys" by simp
  from Cons.IH [OF this, of ?g] obtain g where
    g: "group_messages ?g ms = Inr g"
       "\<And>stp. orElse (obj_get stp g) [] = orElse (obj_get stp ?g) [] @ filter (\<lambda>m. message_step m = stp) ms"
       "set (obj_keys g) = set (obj_keys ?g) \<union> message_step ` set ms"
       "obj_ok ?g \<longrightarrow> obj_ok g" by blast
  have "group_messages grouped (m # ms) = Inr g"
    using Cons.prems g(1) by (simp add: Let_def)
  moreover have "orElse (obj_get stp g) [] =
      orElse (obj_get stp grouped) [] @ filter (\<lambda>m. message_step m = stp) (m # ms)" for stp
    using g(2) [of stp] by auto
  moreover have "set (obj_keys g) = set (obj_keys grouped) \<union> message_step ` set (m # ms)"
    using g(3) by auto
  ultimately show ?case using g(4) by blast
qed simp

lemma group_messages_error:
  "\<exists>m \<in> set ms. message_step m \<in> set object_prototype_keys \<Longrightarrow> group_messages grouped ms = Inl TypeError"
  by (induction ms arbitrary: grouped) (auto simp: Let_def)

subsection \<open>Properties\<close>

definition demo_message :: "int \<Rightarrow> string \<Rightarrow> string \<Rightarrow> SessionMessage" where
  "demo_message n stp c = \<lparr>msg_id = num_str n, msg_session_id = 7, msg_sequence = n,
     msg_role = Assistant, msg_content = str c,
     msg_kwargs = [(str ''step'', JStr (str stp))], msg_created_at = []\<rparr>"

definition demo_events :: "SessionStreamEvent list" where
  "demo_events =
     [Message_Delta 7 None Assistant (str ''ab'') [(str ''step'', JStr (str ''load_sop''))],
      Message 7 3 Assistant (str ''done'') [(str ''step'', JStr (str ''load_sop''))] None,
      Message_Delta 7 None Assistant (str ''x'') [(str ''step'', JStr (str ''review_sop''))],
      Message_Delta 7 None Assistant (str ''y'') [(str ''step'', JStr (str ''review_sop''))]]"

text \<open>C12. From a hydrated transcript whose messages have distinct sequence numbers, any
  sequence of stream events leaves a well-formed view: no sequence number occurs twice,
  \<open>latestSequence\<close> is the largest one, live buffers are never empty strings and a thinking
  flag, once present, is true.\<close>
theorem view_invariant:
  assumes "distinct (map msg_sequence ms)"
  shows "view_ok (reduce_all (hydrateSessionViewState ms) es)"
  using assms by (intro reduce_all_view_ok hydrate_view_ok)

theorem view_invariant_witness:
  "view_ok (reduce_all (hydrateSessionViewState [demo_message 1 ''load_sop'' ''a'', demo_message 2 ''load_sop'' ''b'']) demo_events)"
  by (rule view_invariant) (simp add: demo_message_def)

text \<open>C15. Replaying persisted messages is harmless: a list of message events whose sequence
  numbers are all in the transcript already changes nothing at all, and in particular does
  not drop live text.\<close>
theorem replay_is_absorbed:
  assumes "\<forall>e \<in> set es. is_known_message s e"
  shows "reduce_all s es = s"
  using assms by (rule replay_absorbed)

theorem replay_is_absorbed_witness:
  "reduce_all (hydrateSessionViewState [demo_message 1 ''load_sop'' ''a'', demo_message 3 ''load_sop'' ''b''])
     [Message 7 3 Tool (str ''other'') [] None, Message 7 1 User [] [] None]
   = hydrateSessionViewState [demo_message 1 ''load_sop'' ''a'', demo_message 3 ''load_sop'' ''b'']"
  by (rule replay_is_absorbed) (simp add: demo_message_def)

text \<open>C18. For every buffer key the live text after a run of fresh events is the concatenation
  of its non-thinking deltas since the last persisted message with that key (\<open>delta_text\<close>),
  independently of every other key.\<close>
theorem live_text_is_history:
  assumes "fresh_events (set (map msg_sequence (messages s))) es"
  shows "obj_get k (liveBuffers (reduce_all s es)) = foldl (delta_text k) (obj_get k (liveBuffers s)) es"
  using assms by (rule live_text_history)

theorem live_text_is_history_witness:
  "obj_get (str ''step:review_sop'') (liveBuffers (reduce_all createInitialSessionViewState demo_events)) = Some (str ''xy'')
   \<and> obj_get (str ''step:load_sop'') (liveBuffers (reduce_all createInitialSessionViewState demo_events)) = None"
proof -
  have "fresh_events (set (map msg_sequence (messages createInitialSessionViewState))) demo_events"
    by (simp add: demo_events_def)
  note h = live_text_is_history [OF this]
  show ?thesis unfolding h
    by (simp add: demo_events_def bufferKey_def Let_def readString_def obj_get_def str_def)
qed

text \<open>Grouping the transcript by step neither loses, duplicates nor reorders messages: when
  no step is named like a member of \<open>Object.prototype\<close>, each group is exactly the subsequence of
  messages of that step, the groups present are the steps that occur, and the result is a
  well-formed object.\<close>
theorem grouping_is_partition:
  assumes "\<forall>m \<in> set (messages s). message_step m \<notin> set object_prototype_keys"
  shows "\<exists>g. projectSessionMessagesByStep s = Inr g \<and> obj_ok g
    \<and> set (obj_keys g) = message_step ` set (messages s)
    \<and> (\<forall>stp. orElse (obj_get stp g) [] = filter (\<lambda>m. message_step m = stp) (messages s))"
  using group_messages_step [OF assms, of "[]"] by (auto simp: projectSessionMessagesByStep_def obj_keys_def)

theorem grouping_is_partition_witness:
  "\<exists>g. projectSessionMessagesByStep (hydrateSessionViewState [demo_message 1 ''a'' ''x'', demo_message 2 ''b'' ''y'', demo_message 3 ''a'' ''z'']) = Inr g
     \<and> orElse (obj_get (str ''a'') g) [] = [demo_message 1 ''a'' ''x'', demo_message 3 ''a'' ''z'']"
proof -
  let ?s = "hydrateSessionViewState [demo_message 1 ''a'' ''x'', demo_message 2 ''b'' ''y'', demo_message 3 ''a'' ''z'']"
  have step: "message_step (demo_message n t c) = str t" for n t c
    by (simp add: message_step_def demo_message_def readString_def obj_get_def)
  have "\<forall>m \<in> set (messages ?s). message_step m \<notin> set object_prototype_keys"
    by (simp add: step object_prototype_keys_def)
  from grouping_is_partition [OF this] show ?thesis by (force simp: step)
qed

text \<open>Grouping throws when some message names its step after a member of
  \<open>Object.prototype\<close> (such as "constructor"): the inherited member is found instead of a list and
  has no \<open>push\<close>.\<close>
theorem grouping_prototype_step_throws:
  assumes "m \<in> set (messages s)" "message_step m \<in> set object_prototype_keys"
  shows "projectSessionMessagesByStep s = Inl TypeError"
  using assms by (auto simp: projectSessionMessagesByStep_def intro: group_messages_error)

theorem grouping_prototype_step_throws_witness:
  "projectSessionMessagesByStep (hydrateSessionViewState [demo_message 1 ''constructor'' ''x'']) = Inl TypeError"
  by (rule grouping_prototype_step_throws [of "demo_message 1 ''constructor'' ''x''"])
    (simp_all add: message_step_def demo_message_def readString_def obj_get_def object_prototype_keys_def)

end
