(* ===== verification/ApiClient.thy ===== *)
theory ApiClient
  imports Prelude
begin

text \<open>
  The HTTP layer of \<open>frontend/src/lib/apiClient.ts\<close> and \<open>lib/cn.ts\<close>: the request
  \<open>requestJson\<close> sends, what it makes of every response, and the error it throws. \<open>fetch\<close>,
  \<open>JSON.parse\<close> and \<open>JSON.stringify\<close> are arguments: an operation is a function of the
  outcome of the call. \<open>encodeURIComponent\<close> is modelled to the byte, with its
  \<open>URIError\<close> on a lone surrogate.
\<close>

subsection \<open>Errors\<close>

datatype js_error =
    ApiError int jstr "jstr option" \<comment> \<open>status, statusText, detail\<close>
  | Error jstr "int option" \<comment> \<open>message and a numeric \<open>status\<close> property, if it has one\<close>

datatype thrown = Thrown_Error js_error | Thrown_Value jstr
  \<comment> \<open>what a \<open>catch\<close> clause receives: an \<open>Error\<close>, or another value with its \<open>String()\<close> form\<close>

fun error_message :: "js_error \<Rightarrow> jstr" where
  "error_message (ApiError status statusText detail) =
     (let d = orElse detail [] in
      if d \<noteq> []
      then str ''API request failed: '' @ num_str status @ str '' '' @ statusText @ str '': '' @ d
      else str ''API request failed: '' @ num_str status @ str '' '' @ statusText)"
| "error_message (Error m st) = m"

fun asError :: "thrown \<Rightarrow> js_error" where
  "asError (Thrown_Error e) = e"
| "asError (Thrown_Value s) = Error s None"

subsection \<open>Responses\<close>

record Response =
  resp_status :: int
  resp_statusText :: jstr
  resp_text :: "thrown + jstr" \<comment> \<open>the outcome of \<open>response.text()\<close>\<close>

datatype fetch_outcome = Fetch_Rejected thrown | Fetched Response

definition resp_ok :: "Response \<Rightarrow> bool" where
  "resp_ok r \<longleftrightarrow> 200 \<le> resp_status r \<and> resp_status r \<le> 299"

type_synonym json_parser = "jstr \<Rightarrow> js_error + json"

definition readErrorDetail ::
  "json_parser \<Rightarrow> (json \<Rightarrow> jstr) \<Rightarrow> Response \<Rightarrow> thrown + jstr option" where
  "readErrorDetail json_parse json_stringify r =
     (case resp_text r of
        Inl e \<Rightarrow> Inl e
      | Inr body \<Rightarrow>
          if body = [] then Inr None
          else case json_parse body of
            Inl e \<Rightarrow> Inr (Some body)
          | Inr JNull \<Rightarrow> Inr (Some body) \<comment> \<open>\<open>null.detail\<close> throws inside the \<open>try\<close>\<close>
          | Inr v \<Rightarrow>
              (case json_field (str ''detail'') v of
                 Some (JStr d) \<Rightarrow> Inr (Some d)
               | Some d \<Rightarrow> Inr (Some (json_stringify d))
               | None \<Rightarrow> Inr None))"

definition apiErrorFromResponse ::
  "json_parser \<Rightarrow> (json \<Rightarrow> jstr) \<Rightarrow> Response \<Rightarrow> thrown" where
  "apiErrorFromResponse json_parse json_stringify r =
     (case readErrorDetail json_parse json_stringify r of
        Inl e \<Rightarrow> e
      | Inr d \<Rightarrow> Thrown_Error (ApiError (resp_status r) (resp_statusText r) d))"

definition requestJson_result ::
  "json_parser \<Rightarrow> (json \<Rightarrow> jstr) \<Rightarrow> fetch_outcome \<Rightarrow> thrown + json option" where
  \<comment> \<open>the settled promise: the thrown value, or the parsed body (\<open>None\<close> is \<open>undefined\<close>)\<close>
  "requestJson_result json_parse json_stringify out =
     (case out of
        Fetch_Rejected e \<Rightarrow> Inl e
      | Fetched r \<Rightarrow>
          if \<not> resp_ok r then Inl (apiErrorFromResponse json_parse json_stringify r)
          else if resp_status r = 204 then Inr None
          else case resp_text r of
            Inl e \<Rightarrow> Inl e
          | Inr body \<Rightarrow>
              if body = [] then Inr None
              else (case json_parse body of
                      Inl e \<Rightarrow> Inl (Thrown_Error e)
                    | Inr v \<Rightarrow> Inr (Some v)))"

subsection \<open>Requests\<close>

record RequestInit =
  init_method :: "jstr option"
  init_headers :: "jstr js_obj" \<comment> \<open>header names in lower case, as \<open>Headers\<close> stores them\<close>
  init_body :: "json option" \<comment> \<open>the value passed to \<open>JSON.stringify\<close>\<close>

record Request = RequestInit +
  req_url :: jstr
  req_credentials :: "jstr option"

definition empty_init :: RequestInit where
  "empty_init = \<lparr>init_method = None, init_headers = [], init_body = None\<rparr>"

definition accept_header :: "jstr js_obj \<Rightarrow> jstr js_obj" where
  "accept_header hs = obj_set (str ''accept'') (str ''application/json'') hs"

definition requestJson_request :: "jstr \<Rightarrow> RequestInit \<Rightarrow> Request" where
  "requestJson_request url i =
     \<lparr>init_method = init_method i, init_headers = accept_header (init_headers i),
      init_body = init_body i, req_url = url, req_credentials = Some (str ''same-origin'')\<rparr>"

definition json_init :: "string \<Rightarrow> json \<Rightarrow> RequestInit" where
  \<comment> \<open>\<open>{ body: JSON.stringify(payload), headers: { "Content-Type": ... }, method }\<close>\<close>
  "json_init m payload =
     \<lparr>init_method = Some (str m),
      init_headers = [(str ''content-type'', str ''application/json'')],
      init_body = Some payload\<rparr>"

definition post_init :: "string \<Rightarrow> RequestInit" where
  "post_init m = \<lparr>init_method = Some (str m), init_headers = [], init_body = None\<rparr>"

definition cn :: "jstr option list \<Rightarrow> jstr" where
  \<comment> \<open>\<open>None\<close> stands for \<open>false\<close>, \<open>null\<close> and \<open>undefined\<close>\<close>
  "cn values = join (str '' '') (filter (\<lambda>v. v \<noteq> []) (map (\<lambda>v. orElse v []) values))"

subsection \<open>encodeURIComponent\<close>

definition uri_unescaped :: "jchar \<Rightarrow> bool" where
  "uri_unescaped u \<longleftrightarrow> (65 \<le> u \<and> u \<le> 90) \<or> (97 \<le> u \<and> u \<le> 122) \<or> (48 \<le> u \<and> u \<le> 57)
     \<or> List.member (str ''-_.!~*''  @ [39] @ str ''()'') u"

definition hex_digit :: "int \<Rightarrow> jchar" where
  "hex_digit n = (if n < 10 then 48 + word_of_int n else 55 + word_of_int n)"

definition percent_byte :: "int \<Rightarrow> jstr" where
  "percent_byte b = [37, hex_digit (b div 16), hex_digit (b mod 16)]"

definition utf8_bytes :: "int \<Rightarrow> int list" where
  "utf8_bytes cp =
     (if cp < 128 then [cp]
      else if cp < 2048 then [192 + cp div 64, 128 + cp mod 64]
      else if cp < 65536 then [224 + cp div 4096, 128 + cp div 64 mod 64, 128 + cp mod 64]
      else [240 + cp div 262144, 128 + cp div 4096 mod 64, 128 + cp div 64 mod 64, 128 + cp mod 64])"

definition is_high :: "jchar \<Rightarrow> bool" where
  "is_high u \<longleftrightarrow> 55296 \<le> u \<and> u \<le> 56319"

definition is_low :: "jchar \<Rightarrow> bool" where
  "is_low u \<longleftrightarrow> 56320 \<le> u \<and> u \<le> 57343"

definition encode_cp :: "int \<Rightarrow> jstr" where
  "encode_cp cp = concat (map percent_byte (utf8_bytes cp))"

fun encodeURIComponent :: "jstr \<Rightarrow> js_exn + jstr" where
  "encodeURIComponent [] = Inr []"
| "encodeURIComponent (u # us) =
     (if uri_unescaped u then map_sum id ((#) u) (encodeURIComponent us)
      else if is_low u then Inl URIError
      else if \<not> is_high u then map_sum id ((@) (encode_cp (uint u))) (encodeURIComponent us)
      else case us of
        [] \<Rightarrow> Inl URIError
      | v # vs \<Rightarrow>
          if is_low v
          then map_sum id
                 ((@) (encode_cp ((uint u - 55296) * 1024 + (uint v - 56320) + 65536)))
                 (encodeURIComponent vs)
          else Inl URIError)"

subsubsection \<open>The encoding is reserved-free and injective\<close>

lemma less16_cases: "0 \<le> n \<Longrightarrow> n < 16 \<Longrightarrow> n \<in> set [0, 1, 2, 3, 4, 5, 6, 7, 8, 9, 10, 11, 12, 13, 14, 15 :: int]"
  by simp presburger

lemma hex_digit_inject:
  assumes "0 \<le> m" "m < 16" "0 \<le> n" "n < 16" "hex_digit m = hex_digit n"
  shows "m = n"
  using less16_cases [OF assms(1,2)] less16_cases [OF assms(3,4)] assms(5)
  by (auto simp: hex_digit_def)

lemma hex_digit_unescaped: "0 \<le> n \<Longrightarrow> n < 16 \<Longrightarrow> uri_unescaped (hex_digit n)"
  using less16_cases [of n] by (auto simp: hex_digit_def uri_unescaped_def)

lemma percent_byte_inject:
  assumes "percent_byte a @ r = percent_byte b @ r'"
    and "0 \<le> a" "a < 256" "0 \<le> b" "b < 256"
  shows "a = b \<and> r = r'"
proof -
  have "a div 16 < 16" "b div 16 < 16" using assms by auto
  moreover have "hex_digit (a div 16) = hex_digit (b div 16)"
    "hex_digit (a mod 16) = hex_digit (b mod 16)" and r: "r = r'"
    using assms(1) by (auto simp: percent_byte_def)
  ultimately have "a div 16 = b div 16" "a mod 16 = b mod 16"
    using assms by (auto intro: hex_digit_inject)
  then have "a = b" by (metis mult_div_mod_eq)
  with r show ?thesis by simp
qed

lemma percent_bytes_inject:
  "\<lbrakk>concat (map percent_byte bs) @ r = concat (map percent_byte bs') @ r';
    length bs = length bs'; \<forall>b \<in> set (bs @ bs'). 0 \<le> b \<and> b < 256\<rbrakk> \<Longrightarrow> bs = bs' \<and> r = r'"
proof (induction bs arbitrary: bs')
  case (Cons b bs)
  then obtain c cs where bs': "bs' = c # cs" by (cases bs') auto
  with Cons.prems have "percent_byte b @ (concat (map percent_byte bs) @ r)
      = percent_byte c @ (concat (map percent_byte cs) @ r')" by simp
  then have "b = c" "concat (map percent_byte bs) @ r = concat (map percent_byte cs) @ r'"
    using percent_byte_inject Cons.prems(3) bs' by (metis append_Cons list.set_intros(1)
        Un_iff set_append)+
  with Cons.IH [of cs] Cons.prems bs' show ?case by auto
qed simp

definition valid_cp :: "int \<Rightarrow> bool" where
  "valid_cp cp \<longleftrightarrow> 0 \<le> cp \<and> cp < 1114112"

lemma utf8_bytes_range: "valid_cp cp \<Longrightarrow> \<forall>b \<in> set (utf8_bytes cp). 0 \<le> b \<and> b < 256"
  by (auto simp: utf8_bytes_def valid_cp_def)

lemma utf8_bytes_not_Nil [simp]: "utf8_bytes cp \<noteq> []"
  by (simp add: utf8_bytes_def)

lemma utf8_head_range:
  assumes "valid_cp cp"
  shows "cp < 128 \<Longrightarrow> hd (utf8_bytes cp) < 192"
    and "\<not> cp < 128 \<Longrightarrow> cp < 2048 \<Longrightarrow> 192 \<le> hd (utf8_bytes cp) \<and> hd (utf8_bytes cp) < 224"
    and "\<not> cp < 2048 \<Longrightarrow> cp < 65536 \<Longrightarrow> 224 \<le> hd (utf8_bytes cp) \<and> hd (utf8_bytes cp) < 240"
    and "\<not> cp < 65536 \<Longrightarrow> 240 \<le> hd (utf8_bytes cp)"
  using assms by (auto simp: utf8_bytes_def valid_cp_def)

lemma utf8_length:
  "length (utf8_bytes cp) = (if cp < 128 then 1 else if cp < 2048 then 2 else if cp < 65536 then 3 else 4)"
  by (simp add: utf8_bytes_def)

lemma utf8_length_by_head:
  assumes "valid_cp a" "valid_cp b" "hd (utf8_bytes a) = hd (utf8_bytes b)"
  shows "length (utf8_bytes a) = length (utf8_bytes b)"
  using utf8_head_range [OF assms(1)] utf8_head_range [OF assms(2)] assms(3)
  by (simp add: utf8_length) linarith

lemma div_mod_inject: "x div k = y div k \<Longrightarrow> x mod k = y mod k \<Longrightarrow> x = (y :: int)"
  by (metis mult_div_mod_eq)

lemma div_div_4096: "x div 4096 = x div 64 div (64 :: int)"
  and div_div_262144: "x div 262144 = x div 64 div 64 div (64 :: int)"
  by (simp_all add: zdiv_zmult2_eq [symmetric])

lemma utf8_bytes_inject:
  assumes "valid_cp a" "valid_cp b" "utf8_bytes a = utf8_bytes b"
  shows "a = b"
proof -
  note l = arg_cong [OF assms(3), of length, unfolded utf8_length]
  have three: "x div 64 div 64 = y div 64 div 64 \<Longrightarrow> x div 64 mod 64 = y div 64 mod 64 \<Longrightarrow>
      x mod 64 = y mod 64 \<Longrightarrow> x = y" for x y :: int
    by (meson div_mod_inject)
  have four: "x div 64 div 64 div 64 = y div 64 div 64 div 64 \<Longrightarrow>
      x div 64 div 64 mod 64 = y div 64 div 64 mod 64 \<Longrightarrow> x div 64 mod 64 = y div 64 mod 64 \<Longrightarrow>
      x mod 64 = y mod 64 \<Longrightarrow> x = y" for x y :: int
    by (meson div_mod_inject)
  consider "a < 128" "b < 128" | "\<not> a < 128" "a < 2048" "\<not> b < 128" "b < 2048"
    | "\<not> a < 2048" "a < 65536" "\<not> b < 2048" "b < 65536" | "\<not> a < 65536" "\<not> b < 65536"
    using l by (auto split: if_splits)
  then show ?thesis
  proof cases
    case 1
    with assms(3) show ?thesis by (simp add: utf8_bytes_def)
  next
    case 2
    with assms(3) have "a div 64 = b div 64" "a mod 64 = b mod 64" by (simp_all add: utf8_bytes_def)
    then show ?thesis by (rule div_mod_inject)
  next
    case 3
    with assms(3) have "a div 64 div 64 = b div 64 div 64" "a div 64 mod 64 = b div 64 mod 64" "a mod 64 = b mod 64"
      by (simp_all add: utf8_bytes_def div_div_4096)
    then show ?thesis by (rule three)
  next
    case 4
    with assms(3) have "a div 64 div 64 div 64 = b div 64 div 64 div 64"
      "a div 64 div 64 mod 64 = b div 64 div 64 mod 64" "a div 64 mod 64 = b div 64 mod 64" "a mod 64 = b mod 64"
      by (simp_all add: utf8_bytes_def div_div_4096 div_div_262144)
    then show ?thesis by (rule four)
  qed
qed

lemma encode_cp_inject:
  assumes "encode_cp a @ r = encode_cp b @ r'" and "valid_cp a" "valid_cp b"
  shows "a = b \<and> r = r'"
proof -
  obtain x xs where x: "utf8_bytes a = x # xs" by (cases "utf8_bytes a") auto
  obtain y ys where y: "utf8_bytes b = y # ys" by (cases "utf8_bytes b") auto
  have rng: "\<forall>b \<in> set (utf8_bytes a @ utf8_bytes b). 0 \<le> b \<and> b < 256"
    using utf8_bytes_range assms(2,3) by auto
  have "percent_byte x @ (concat (map percent_byte xs) @ r)
      = percent_byte y @ (concat (map percent_byte ys) @ r')"
    using assms(1) by (simp add: encode_cp_def x y)
  then have "x = y" using percent_byte_inject rng x y by (metis append_Cons list.set_intros(1) Un_iff set_append)
  then have "length (utf8_bytes a) = length (utf8_bytes b)"
    using utf8_length_by_head assms(2,3) x y by (metis list.sel(1))
  then have "utf8_bytes a = utf8_bytes b \<and> r = r'"
    using percent_bytes_inject assms(1) rng unfolding encode_cp_def by blast
  then show ?thesis using utf8_bytes_inject assms(2,3) by blast
qed

lemma encode_cp_head: "\<exists>t. encode_cp cp = 37 # t"
  by (cases "utf8_bytes cp") (auto simp: encode_cp_def percent_byte_def)

lemma percent_not_unescaped [simp]: "\<not> uri_unescaped 37"
  by (simp add: uri_unescaped_def str_def)

text \<open>The first code point of a string and the rest; its encoding and the rest.\<close>

definition first_cp :: "jstr \<Rightarrow> (int \<times> jstr) option" where
  "first_cp s = (case s of
      [] \<Rightarrow> None
    | u # us \<Rightarrow>
        if is_low u then None
        else if \<not> is_high u then Some (uint u, us)
        else (case us of [] \<Rightarrow> None
              | v # vs \<Rightarrow> if is_low v
                  then Some ((uint u - 55296) * 1024 + (uint v - 56320) + 65536, vs) else None))"

definition enc_unit :: "jstr \<Rightarrow> (jstr \<times> jstr) option" where
  "enc_unit s = (if s \<noteq> [] \<and> uri_unescaped (hd s) then Some ([hd s], tl s)
     else map_option (\<lambda>(cp, r). (encode_cp cp, r)) (first_cp s))"

lemma map_sum_id_Inr: "map_sum id f x = Inr y \<longleftrightarrow> (\<exists>z. x = Inr z \<and> y = f z)"
  by (cases x) auto

lemma encode_unfold:
  "encodeURIComponent s = Inr e \<longleftrightarrow>
     (s = [] \<and> e = []) \<or> (\<exists>c r e'. enc_unit s = Some (c, r) \<and> encodeURIComponent r = Inr e' \<and> e = c @ e')"
proof (cases s)
  case (Cons u us)
  then show ?thesis by (cases us) (auto simp: enc_unit_def first_cp_def map_sum_id_Inr)
qed (auto simp: enc_unit_def first_cp_def)

lemma is_high_bounds: "is_high u \<Longrightarrow> 55296 \<le> uint u \<and> uint u \<le> 56319"
  by (simp add: is_high_def word_le_def)

lemma is_low_bounds: "is_low u \<Longrightarrow> 56320 \<le> uint u \<and> uint u \<le> 57343"
  by (simp add: is_low_def word_le_def)

lemma uint16_valid: "valid_cp (uint (u :: 16 word))" "uint (u :: 16 word) < 65536"
proof -
  have "uint u < 2 ^ LENGTH(16)" by (rule uint_bounded)
  then show "valid_cp (uint u)" "uint u < 65536" by (simp_all add: valid_cp_def)
qed

lemma first_cp_cases:
  assumes "first_cp s = Some (cp, r)"
  obtains (bmp) u where "s = u # r" "cp = uint u" "cp < 65536"
    | (astral) u v where "s = u # v # r" "is_high u" "is_low v" "65536 \<le> cp"
        "cp = (uint u - 55296) * 1024 + (uint v - 56320) + 65536"
proof (cases s)
  case Nil
  with assms show ?thesis by (simp add: first_cp_def)
next
  case (Cons u us)
  show ?thesis
  proof (cases "is_high u")
    case False
    with assms Cons bmp [of u] uint16_valid(2) [of u] show ?thesis
      by (auto simp: first_cp_def split: if_splits)
  next
    case True
    then have "\<not> is_low u" using is_high_bounds [of u] is_low_bounds [of u] by fastforce
    with True assms Cons obtain v vs where "us = v # vs" "is_low v" "r = vs"
      "cp = (uint u - 55296) * 1024 + (uint v - 56320) + 65536"
      by (auto simp: first_cp_def split: list.splits if_splits)
    with True Cons astral [of u v] is_high_bounds [OF True] is_low_bounds [of v] show ?thesis by auto
  qed
qed

lemma first_cp_valid: "first_cp s = Some (cp, r) \<Longrightarrow> valid_cp cp"
proof (elim first_cp_cases)
  fix u v assume "is_high u" "is_low v" "cp = (uint u - 55296) * 1024 + (uint v - 56320) + 65536"
  then show ?thesis using is_high_bounds [of u] is_low_bounds [of v] by (simp add: valid_cp_def)
qed (simp add: uint16_valid)

lemma surrogate_pair_inject:
  fixes a b a' b' :: int
  assumes "0 \<le> b" "b < 1024" "0 \<le> b'" "b' < 1024" "a * 1024 + b = a' * 1024 + b'"
  shows "a = a' \<and> b = b'"
proof -
  have "(a * 1024 + b) div 1024 = a" "(a' * 1024 + b') div 1024 = a'" using assms by simp_all
  with assms(5) show ?thesis by simp
qed

lemma first_cp_inject:
  assumes "first_cp s = Some (cp, r)" "first_cp t = Some (cp, r)"
  shows "s = t"
  using assms(1)
proof (cases rule: first_cp_cases)
  case (bmp u)
  from assms(2) show ?thesis by (cases rule: first_cp_cases) (use bmp in \<open>auto simp: word_uint_eq_iff\<close>)
next
  case (astral u v)
  from assms(2) show ?thesis
  proof (cases rule: first_cp_cases)
    case (astral u' v')
    have "uint u - 55296 = uint u' - 55296 \<and> uint v - 56320 = uint v' - 56320"
    proof (rule surrogate_pair_inject)
      show "(uint u - 55296) * 1024 + (uint v - 56320) = (uint u' - 55296) * 1024 + (uint v' - 56320)"
        using astral(5) \<open>cp = (uint u - 55296) * 1024 + (uint v - 56320) + 65536\<close> by simp
    qed (use is_low_bounds [OF \<open>is_low v\<close>] is_low_bounds [OF astral(3)] in simp_all)
    then have "u = u' \<and> v = v'" by (simp add: word_uint_eq_iff)
    with astral \<open>s = u # v # r\<close> show ?thesis by simp
  qed (use \<open>65536 \<le> cp\<close> in auto)
qed

lemma enc_unit_cases:
  assumes "enc_unit s = Some (c, r)"
  obtains (plain) u where "uri_unescaped u" "c = [u]" "s = u # r"
    | (escaped) cp where "first_cp s = Some (cp, r)" "valid_cp cp" "c = encode_cp cp"
proof (cases "s \<noteq> [] \<and> uri_unescaped (hd s)")
  case True
  with assms plain [of "hd s"] show ?thesis by (auto simp: enc_unit_def)
next
  case False
  with assms obtain cp where "first_cp s = Some (cp, r)" "c = encode_cp cp"
    by (auto simp: enc_unit_def)
  with escaped first_cp_valid show ?thesis by blast
qed

lemma enc_unit_inject:
  assumes "enc_unit s = Some (c, r)" "enc_unit t = Some (c', r')" "c @ e = c' @ e'"
  shows "e = e' \<and> (r = r' \<longrightarrow> s = t)"
  using assms(1)
proof (cases rule: enc_unit_cases)
  case (plain u)
  from assms(2) show ?thesis
  proof (cases rule: enc_unit_cases)
    case (escaped cp)
    with plain assms(3) encode_cp_head [of cp] show ?thesis by auto
  qed (use plain assms(3) in auto)
next
  case (escaped cp)
  from assms(2) show ?thesis
  proof (cases rule: enc_unit_cases)
    case (plain u)
    with escaped assms(3) encode_cp_head [of cp] show ?thesis by auto
  next
    case (escaped cp')
    with \<open>c = encode_cp cp\<close> \<open>valid_cp cp\<close> assms(3) have "cp = cp'" "e = e'"
      using encode_cp_inject by auto
    with escaped \<open>first_cp s = Some (cp, r)\<close> show ?thesis using first_cp_inject by auto
  qed
qed

lemma enc_unit_size: "enc_unit s = Some (c, r) \<Longrightarrow> c \<noteq> [] \<and> length r < length s"
proof (elim enc_unit_cases)
  fix cp assume "first_cp s = Some (cp, r)" "c = encode_cp cp"
  then show ?thesis using encode_cp_head [of cp] by (auto elim!: first_cp_cases)
qed simp

lemma encode_inject:
  "\<lbrakk>encodeURIComponent s = Inr e; encodeURIComponent t = Inr e\<rbrakk> \<Longrightarrow> s = t"
proof (induction "length s" arbitrary: s t e rule: less_induct)
  case less
  have nonempty: "c \<noteq> []" if "enc_unit x = Some (c, r)" for x c r
    using enc_unit_size [OF that] by simp
  show ?case
  proof (cases "s = []")
    case True
    with less.prems nonempty show ?thesis by (auto simp: encode_unfold [of t])
  next
    case False
    then obtain c r e1 where s: "enc_unit s = Some (c, r)" "encodeURIComponent r = Inr e1" "e = c @ e1"
      using less.prems(1) by (auto simp: encode_unfold [of s])
    then have "e \<noteq> []" using nonempty by auto
    then obtain c' r' e2 where t: "enc_unit t = Some (c', r')" "encodeURIComponent r' = Inr e2" "e = c' @ e2"
      using less.prems(2) by (auto simp: encode_unfold [of t])
    have "c @ e1 = c' @ e2" using s(3) t(3) by simp
    from enc_unit_inject [OF s(1) t(1) this] have "e1 = e2" "r = r' \<longrightarrow> s = t" by auto
    moreover have "length r < length s" using enc_unit_size [OF s(1)] by simp
    ultimately show ?thesis using less.hyps s(2) t(2) by metis
  qed
qed

lemma encode_cp_chars: "valid_cp cp \<Longrightarrow> \<forall>u \<in> set (encode_cp cp). uri_unescaped u \<or> u = 37"
proof -
  assume "valid_cp cp"
  then have "\<forall>b \<in> set (utf8_bytes cp). 0 \<le> b \<and> b < 256" by (rule utf8_bytes_range)
  then show ?thesis by (auto simp: encode_cp_def percent_byte_def hex_digit_unescaped)
qed

lemma encode_chars:
  "encodeURIComponent s = Inr e \<Longrightarrow> u \<in> set e \<Longrightarrow> uri_unescaped u \<or> u = 37"
proof (induction "length s" arbitrary: s e rule: less_induct)
  case less
  show ?case
  proof (cases "s = []")
    case True
    with less.prems show ?thesis by simp
  next
    case False
    then obtain c r e1 where s: "enc_unit s = Some (c, r)" "encodeURIComponent r = Inr e1" "e = c @ e1"
      using less.prems(1) by (auto simp: encode_unfold [of s])
    have "length r < length s" using enc_unit_size [OF s(1)] by simp
    then have rest: "u \<in> set e1 \<Longrightarrow> uri_unescaped u \<or> u = 37" using less.hyps s(2) by blast
    from s(1) have "u \<in> set c \<Longrightarrow> uri_unescaped u \<or> u = 37"
      by (cases rule: enc_unit_cases) (use encode_cp_chars in auto)
    with rest s(3) less.prems(2) show ?thesis by auto
  qed
qed

subsection \<open>Properties\<close>



end
