(* ===== verification/SessionStream.thy ===== *)
theory SessionStream
  imports Sessions ApiClient
begin

text \<open>
  The hook \<open>useSessionStream\<close> of \<open>frontend/src/features/sessions/hooks.ts\<close> and the parser of
  its events. The hook's refs, state cells and the closure of its streaming effect are one
  record; each callback is an operation on it. React's effects are run where their
  dependencies change: the hydration effect when the session changes, the streaming effect
  when the session or \<open>hydratedFor\<close> changes. \<open>session_step\<close> is one callback of the
  environment; the order of responses, stream events, timers and prop changes is free.

  A cleaned-up streaming effect has \<open>isClosed\<close> set, so its callbacks and timers do nothing:
  \<open>h_stream\<close> is the one live closure, or \<open>None\<close>. A hydration whose effect was cleaned up
  is \<open>cancelled\<close>: its effect number is not the current one.
\<close>

subsection \<open>Events on the wire\<close>

definition index_entries :: "json list \<Rightarrow> json js_obj" where
  "index_entries xs = map (\<lambda>(i, x). (nat_str i, x)) (List.enumerate 0 xs)"

fun spread_entries :: "json \<Rightarrow> json js_obj" where
  \<comment> \<open>the own enumerable properties an object spread copies\<close>
  "spread_entries (JObj ob) = ob"
| "spread_entries (JArr xs) = index_entries xs"
| "spread_entries _ = []"

fun is_object :: "json option \<Rightarrow> bool" where
  "is_object (Some (JObj ob)) = True"
| "is_object (Some (JArr xs)) = True"
| "is_object _ = False"

definition normalizeSessionStreamEvent :: "json \<Rightarrow> json" where
  "normalizeSessionStreamEvent parsed =
     (if json_field (str ''type'') parsed = Some (JStr (str ''message''))
         \<and> is_object (json_field (str ''message'') parsed)
      then JObj (fromEntries ((str ''type'', JStr (str ''message''))
             # spread_entries (the (json_field (str ''message'') parsed))))
      else parsed)"

definition session_event_types :: "jstr list" where
  "session_event_types =
     map str [''message'', ''message_delta'', ''completed'', ''failed'', ''interrupted'']"

definition parseSessionStreamEvent :: "json_parser \<Rightarrow> jstr \<Rightarrow> json option" where
  "parseSessionStreamEvent json_parse data =
     (if trim data = [] then None
      else case json_parse data of
        Inl e \<Rightarrow> None
      | Inr v \<Rightarrow>
          (let parsed = normalizeSessionStreamEvent v;
               ty = json_str (json_field (str ''type'') parsed)
           in if \<not> List.member (map Some session_event_types) ty then None
              else if json_num (json_field (str ''session_id'') parsed) = None then None
              else Some parsed))"

subsection \<open>The hook\<close>

record stream_closure =
  sc_session :: int
  sc_source :: "nat option" \<comment> \<open>\<open>eventSource\<close>: the number of the open source\<close>
  sc_timer :: bool \<comment> \<open>\<open>reconnectTimer\<close> is set\<close>

record session_hook =
  h_session :: "int option"
  cursorRef :: int
  terminalRef :: bool
  h_state :: SessionViewState
  h_error :: "js_error option"
  h_loading :: bool
  hydratedFor :: "int option"
  h_effect :: nat \<comment> \<open>number of the running hydration effect\<close>
  h_pending :: "(nat \<times> int) list" \<comment> \<open>hydration requests in flight\<close>
  h_stream :: "stream_closure option"
  h_sources :: nat \<comment> \<open>sources created so far\<close>
  h_opened :: "(int \<times> int) list" \<comment> \<open>session and \<open>after\<close> of each source, in order\<close>

definition hook_init :: session_hook where
  "hook_init = \<lparr>h_session = None, cursorRef = 0, terminalRef = False,
     h_state = createInitialSessionViewState, h_error = None, h_loading = False,
     hydratedFor = None, h_effect = 0, h_pending = [], h_stream = None, h_sources = 0,
     h_opened = []\<rparr>"

definition set_status :: "ConnectionStatus \<Rightarrow> session_hook \<Rightarrow> session_hook" where
  "set_status st h = h\<lparr>h_state := (h_state h)\<lparr>connectionStatus := st\<rparr>\<rparr>"

definition connect :: "session_hook \<Rightarrow> session_hook" where
  "connect h =
     (case h_stream h of
        None \<Rightarrow> h
      | Some c \<Rightarrow> h\<lparr>h_stream := Some (c\<lparr>sc_source := Some (h_sources h)\<rparr>),
                     h_sources := Suc (h_sources h),
                     h_opened := h_opened h @ [(sc_session c, cursorRef h)]\<rparr>)"

definition hydrate_effect :: "int option \<Rightarrow> session_hook \<Rightarrow> session_hook" where
  "hydrate_effect sid h =
     (let h' = h\<lparr>h_session := sid, cursorRef := 0, terminalRef := False, h_error := None,
                 hydratedFor := None, h_state := createInitialSessionViewState,
                 h_effect := Suc (h_effect h)\<rparr>
      in case sid of
           None \<Rightarrow> h'\<lparr>h_loading := False\<rparr>
         | Some s \<Rightarrow> h'\<lparr>h_loading := True, h_pending := h_pending h @ [(Suc (h_effect h), s)]\<rparr>)"

definition stream_effect :: "int option \<Rightarrow> int option \<Rightarrow> session_hook \<Rightarrow> session_hook" where
  \<comment> \<open>clean-up of the previous run, then the effect\<close>
  "stream_effect sid hyd h =
     (case sid of
        None \<Rightarrow> h\<lparr>h_stream := None\<rparr>
      | Some s \<Rightarrow>
          if hyd \<noteq> Some s then h\<lparr>h_stream := None\<rparr>
          else connect (set_status Connecting
                 (h\<lparr>h_stream := Some \<lparr>sc_session = s, sc_source = None, sc_timer = False\<rparr>\<rparr>)))"

definition session_change :: "int option \<Rightarrow> session_hook \<Rightarrow> session_hook" where
  \<comment> \<open>both effects run with the old \<open>hydratedFor\<close>; then its reset runs the streaming effect again\<close>
  "session_change sid h =
     stream_effect sid None (stream_effect sid (hydratedFor h) (hydrate_effect sid h))"

definition hydrate_response ::
  "nat \<Rightarrow> int \<Rightarrow> (thrown + SessionMessage list) \<Rightarrow> session_hook \<Rightarrow> session_hook" where
  "hydrate_response eff s r h =
     (let h' = h\<lparr>h_pending := filter (\<lambda>p. p \<noteq> (eff, s)) (h_pending h)\<rparr>
      in if eff \<noteq> h_effect h then h'
         else case r of
           Inr ms \<Rightarrow>
             (let hydrated = hydrateSessionViewState ms
              in stream_effect (h_session h) (Some s)
                   (h'\<lparr>cursorRef := latestSequence hydrated, h_state := hydrated,
                       hydratedFor := Some s, h_loading := False\<rparr>))
         | Inl e \<Rightarrow> h'\<lparr>h_error := Some (asError e), h_loading := False\<rparr>)"

definition current_source :: "nat \<Rightarrow> session_hook \<Rightarrow> bool" where
  \<comment> \<open>not \<open>isClosed || eventSource !== source || terminalRef.current\<close>\<close>
  "current_source n h \<longleftrightarrow>
     (case h_stream h of None \<Rightarrow> False | Some c \<Rightarrow> sc_source c = Some n) \<and> \<not> terminalRef h"

definition on_open :: "nat \<Rightarrow> session_hook \<Rightarrow> session_hook" where
  "on_open n h = (if current_source n h then set_status Open h else h)"

fun isTerminalSessionEvent :: "SessionStreamEvent \<Rightarrow> bool" where
  "isTerminalSessionEvent (Terminal t s) = True"
| "isTerminalSessionEvent _ = False"

fun advance_cursor :: "int \<Rightarrow> SessionStreamEvent \<Rightarrow> int" where
  "advance_cursor c (Message s n role t kw cr) = max c n"
| "advance_cursor c _ = c"

definition close_source :: "session_hook \<Rightarrow> session_hook" where
  "close_source h = h\<lparr>h_stream := map_option (\<lambda>c. c\<lparr>sc_source := None\<rparr>) (h_stream h)\<rparr>"

definition handle :: "nat \<Rightarrow> SessionStreamEvent \<Rightarrow> session_hook \<Rightarrow> session_hook" where
  "handle n e h =
     (if \<not> current_source n h then h
      else if isTerminalSessionEvent e
      then set_status Closed (close_source (h\<lparr>terminalRef := True\<rparr>))
      else h\<lparr>cursorRef := advance_cursor (cursorRef h) e,
             h_state := reduceSessionStreamEvent (h_state h) e\<rparr>)"

definition on_error :: "nat \<Rightarrow> session_hook \<Rightarrow> session_hook" where
  "on_error n h =
     (if \<not> current_source n h then h
      else set_status Reconnecting
        (h\<lparr>h_stream := map_option (\<lambda>c. c\<lparr>sc_source := None, sc_timer := True\<rparr>) (h_stream h)\<rparr>))"

definition on_timer :: "session_hook \<Rightarrow> session_hook" where
  "on_timer h =
     (case h_stream h of
        None \<Rightarrow> h
      | Some c \<Rightarrow> if sc_timer c then connect (h\<lparr>h_stream := Some (c\<lparr>sc_timer := False\<rparr>)\<rparr>) else h)"

definition unmount :: "session_hook \<Rightarrow> session_hook" where
  "unmount h = h\<lparr>h_stream := None, h_effect := Suc (h_effect h)\<rparr>"

lemmas hook_defs = set_status_def connect_def hydrate_effect_def stream_effect_def
  session_change_def hydrate_response_def current_source_def on_open_def close_source_def
  handle_def on_error_def on_timer_def unmount_def

subsection \<open>Steps and reachable hooks\<close>

fun response_ok :: "thrown + SessionMessage list \<Rightarrow> bool" where
  \<comment> \<open>the server numbers the messages of a session without repetition\<close>
  "response_ok (Inr ms) = distinct (map msg_sequence ms)"
| "response_ok (Inl e) = True"

inductive session_step :: "session_hook \<Rightarrow> session_hook \<Rightarrow> bool" where
  change: "sid \<noteq> h_session h \<Longrightarrow> session_step h (session_change sid h)"
| hydrated: "(eff, s) \<in> set (h_pending h) \<Longrightarrow> response_ok r \<Longrightarrow>
     session_step h (hydrate_response eff s r h)"
| opened: "session_step h (on_open n h)"
| event: "session_step h (handle n e h)"
| error: "session_step h (on_error n h)"
| timer: "session_step h (on_timer h)"
| unmounted: "session_step h (unmount h)"

inductive session_reachable :: "session_hook \<Rightarrow> bool" where
  init: "session_reachable hook_init"
| step: "session_reachable h \<Longrightarrow> session_step h h' \<Longrightarrow> session_reachable h'"

definition stream_inv :: "session_hook \<Rightarrow> bool" where
  "stream_inv h \<longleftrightarrow>
     (case h_stream h of
        None \<Rightarrow> True
      | Some c \<Rightarrow> h_session h = Some (sc_session c) \<and> hydratedFor h = h_session h
          \<and> (sc_timer c \<longrightarrow> sc_source c = None)
          \<and> (\<forall>n. sc_source c = Some n \<longrightarrow> Suc n = h_sources h)
          \<and> (terminalRef h \<longrightarrow> sc_source c = None \<and> \<not> sc_timer c))"

definition pending_inv :: "session_hook \<Rightarrow> bool" where
  "pending_inv h \<longleftrightarrow>
     (\<forall>(eff, s) \<in> set (h_pending h). eff \<le> h_effect h
        \<and> (eff = h_effect h \<longrightarrow> h_session h = Some s \<and> hydratedFor h = None
             \<and> \<not> terminalRef h \<and> h_stream h = None))"

definition hook_inv :: "session_hook \<Rightarrow> bool" where
  "hook_inv h \<longleftrightarrow> view_ok (h_state h) \<and> cursorRef h = latestSequence (h_state h)
     \<and> (hydratedFor h = None \<or> hydratedFor h = h_session h)
     \<and> (hydratedFor h = None \<longrightarrow> messages (h_state h) = [])
     \<and> (terminalRef h \<longrightarrow> connectionStatus (h_state h) = Closed)
     \<and> length (h_opened h) = h_sources h
     \<and> stream_inv h \<and> pending_inv h"

lemma view_ok_status [simp]: "view_ok (s\<lparr>connectionStatus := st\<rparr>) = view_ok s"
  by (simp add: view_ok_def)

lemma hook_init_inv: "hook_inv hook_init"
  by (simp add: hook_inv_def hook_init_def stream_inv_def pending_inv_def)

lemma reduce_status [simp]:
  "connectionStatus (reduceSessionStreamEvent s e) = connectionStatus s"
  by (cases e) (auto simp: Let_def)

lemma reduce_latest_advances:
  assumes "view_ok s" "\<not> isTerminalSessionEvent e"
  shows "latestSequence (reduceSessionStreamEvent s e) = advance_cursor (latestSequence s) e"
proof (cases e)
  case (Message sid n role c kw cr)
  have "n \<in> set (map msg_sequence (messages s)) \<Longrightarrow> n \<le> latestSequence s"
    using assms(1) max_from_ge [of 0 "map msg_sequence (messages s)"] by (auto simp: view_ok_def)
  with Message show ?thesis by (auto simp: Let_def has_sequence_iff)
qed (use assms in \<open>auto simp: Let_def\<close>)

lemma session_change_inv: "hook_inv h \<Longrightarrow> sid \<noteq> h_session h \<Longrightarrow> hook_inv (session_change sid h)"
  by (cases sid)
     (auto simp: hook_inv_def stream_inv_def pending_inv_def hook_defs Let_def split: option.splits)

lemma hydrate_response_inv:
  assumes "hook_inv h" "(eff, s) \<in> set (h_pending h)" "response_ok r"
  shows "hook_inv (hydrate_response eff s r h)"
proof (cases "eff = h_effect h")
  case False
  with assms show ?thesis
    by (auto simp: hook_inv_def stream_inv_def pending_inv_def hydrate_response_def split: option.splits)
next
  case True
  with assms have cur: "h_session h = Some s" "hydratedFor h = None" "\<not> terminalRef h" "h_stream h = None"
    by (auto simp: hook_inv_def pending_inv_def)
  show ?thesis
  proof (cases r)
    case (Inl e)
    with True cur assms show ?thesis
      by (auto simp: hook_inv_def stream_inv_def pending_inv_def hydrate_response_def)
  next
    case (Inr ms)
    with assms have "view_ok (hydrateSessionViewState ms)" by (simp add: hydrate_view_ok)
    with Inr True cur assms(1) show ?thesis
      by (auto simp: hook_inv_def stream_inv_def pending_inv_def hook_defs Let_def)
  qed
qed

lemma on_open_inv: "hook_inv h \<Longrightarrow> hook_inv (on_open n h)"
  by (auto simp: hook_inv_def stream_inv_def pending_inv_def on_open_def set_status_def
      current_source_def split: option.splits)

lemma handle_inv: "hook_inv h \<Longrightarrow> hook_inv (handle n e h)"
proof (cases "current_source n h")
  case True
  assume inv: "hook_inv h"
  show ?thesis
  proof (cases "isTerminalSessionEvent e")
    case closing: True
    with True inv show ?thesis
      by (auto simp: hook_inv_def stream_inv_def pending_inv_def handle_def set_status_def
          close_source_def current_source_def split: option.splits)
  next
    case False
    with inv have "view_ok (reduceSessionStreamEvent (h_state h) e)"
      "latestSequence (reduceSessionStreamEvent (h_state h) e) = advance_cursor (cursorRef h) e"
      by (auto simp: hook_inv_def reduce_view_ok reduce_latest_advances)
    with False True inv show ?thesis
      by (auto simp: hook_inv_def stream_inv_def pending_inv_def handle_def current_source_def
          split: option.splits)
  qed
qed (simp add: handle_def)

lemma on_error_inv: "hook_inv h \<Longrightarrow> hook_inv (on_error n h)"
  by (auto simp: hook_inv_def stream_inv_def pending_inv_def on_error_def set_status_def
      current_source_def split: option.splits)

lemma on_timer_inv: "hook_inv h \<Longrightarrow> hook_inv (on_timer h)"
  by (auto simp: hook_inv_def stream_inv_def pending_inv_def on_timer_def connect_def
      split: option.splits)

lemma unmount_inv: "hook_inv h \<Longrightarrow> hook_inv (unmount h)"
  by (auto simp: hook_inv_def stream_inv_def pending_inv_def unmount_def)

lemmas hook_inv_steps = session_change_inv hydrate_response_inv on_open_inv handle_inv
  on_error_inv on_timer_inv unmount_inv

lemma session_step_inv: "session_step h h' \<Longrightarrow> hook_inv h \<Longrightarrow> hook_inv h'"
  by (induction rule: session_step.induct) (simp_all add: hook_inv_steps)

lemma session_reachable_inv: "session_reachable h \<Longrightarrow> hook_inv h"
  by (induction rule: session_reachable.induct) (auto simp: hook_init_inv intro: session_step_inv)

subsection \<open>What the invariant gives\<close>

inductive_cases session_step_elim: "session_step h h'"

lemma terminal_not_current: "terminalRef h \<Longrightarrow> \<not> current_source n h"
  by (simp add: current_source_def)

lemma terminal_step:
  assumes "hook_inv h" "terminalRef h" "session_step h h'" "h_session h' = h_session h"
  shows "h_opened h' = h_opened h \<and> h_state h' = h_state h \<and> terminalRef h'"
  using assms(3)
proof (cases rule: session_step.cases)
  case (change sid)
  with assms(4) show ?thesis
    by (auto simp: hook_defs Let_def split: option.splits if_splits)
next
  case (hydrated eff s r)
  with assms(1,2) have "eff \<noteq> h_effect h" by (auto simp: hook_inv_def pending_inv_def)
  with hydrated assms(2) show ?thesis by (simp add: hydrate_response_def)
next
  case (timer)
  with assms(1,2) show ?thesis
    by (auto simp: hook_inv_def stream_inv_def on_timer_def split: option.splits)
qed (use assms(2) in \<open>auto simp: on_open_def handle_def on_error_def unmount_def terminal_not_current\<close>)

inductive session_steps :: "session_hook \<Rightarrow> session_hook \<Rightarrow> bool" where
  \<comment> \<open>any number of steps while the session stays the same\<close>
  refl: "session_steps h h"
| more: "session_steps h h' \<Longrightarrow> session_step h' h'' \<Longrightarrow> h_session h'' = h_session h' \<Longrightarrow> session_steps h h''"

lemma terminal_steps:
  assumes "session_steps h h'" "hook_inv h" "terminalRef h"
  shows "h_opened h' = h_opened h \<and> h_state h' = h_state h \<and> terminalRef h' \<and> hook_inv h'"
  using assms by (induction rule: session_steps.induct) (auto dest: terminal_step session_step_inv)

lemma open_at_cursor:
  assumes "hook_inv h" "session_step h h'" "h_opened h' \<noteq> h_opened h"
  shows "\<exists>s. h_session h' = Some s \<and> hydratedFor h' = Some s \<and> \<not> terminalRef h' \<and>
    h_opened h' = h_opened h @ [(s, max_from 0 (map msg_sequence (messages (h_state h'))))]"
proof -
  have inv': "hook_inv h'" using assms(1,2) session_step_inv by blast
  then have cur: "cursorRef h' = max_from 0 (map msg_sequence (messages (h_state h')))"
    by (simp add: hook_inv_def view_ok_def)
  from assms(2) show ?thesis
  proof (cases rule: session_step.cases)
    case (change sid)
    with assms show ?thesis
      by (auto simp: hook_inv_def hook_defs Let_def split: option.splits if_splits)
  next
    case (hydrated eff s r)
    then have "eff = h_effect h" using assms(3)
      by (auto simp: hydrate_response_def Let_def split: if_splits)
    then have "h_session h = Some s" "\<not> terminalRef h"
      using hydrated assms(1) by (auto simp: hook_inv_def pending_inv_def)
    with hydrated \<open>eff = h_effect h\<close> assms(3) show ?thesis
      by (cases r) (auto simp: hook_defs Let_def)
  next
    case timer
    then obtain c where c: "h_stream h = Some c" "sc_timer c"
      using assms(3) by (auto simp: on_timer_def split: option.splits if_splits)
    with assms(1) have "h_session h = Some (sc_session c)" "hydratedFor h = h_session h" "\<not> terminalRef h"
      by (auto simp: hook_inv_def stream_inv_def)
    with c timer cur show ?thesis by (simp add: on_timer_def connect_def)
  qed (use assms(3) in \<open>auto simp: on_open_def handle_def on_error_def unmount_def set_status_def
      close_source_def split: if_splits\<close>)
qed

subsection \<open>Properties\<close>

definition demo_hydrated :: session_hook where
  "demo_hydrated = hydrate_response 1 7 (Inr [demo_message 1 ''a'' ''x'', demo_message 2 ''b'' ''y''])
     (session_change (Some 7) hook_init)"

lemma demo_hydrated_reachable: "session_reachable demo_hydrated"
proof -
  have "session_step hook_init (session_change (Some 7) hook_init)"
    by (rule session_step.change) (simp add: hook_init_def)
  then have 1: "session_reachable (session_change (Some 7) hook_init)"
    using session_reachable.init session_reachable.step by blast
  have "session_step (session_change (Some 7) hook_init) demo_hydrated"
    unfolding demo_hydrated_def
    by (rule session_step.hydrated) (simp_all add: hook_defs hook_init_def demo_message_def Let_def)
  with 1 show ?thesis by (rule session_reachable.step)
qed

lemmas demo_hook_defs = demo_hydrated_def hook_defs hook_init_def demo_message_def Let_def



text \<open>C10. Every event source is opened for the current, already hydrated session, only
  before a terminal event, and asks for the messages after the last one shown: a step that
  opens sources opens exactly one, at the cursor.\<close>
theorem source_opens_at_cursor:
  assumes "session_reachable h" "session_step h h'" "h_opened h' \<noteq> h_opened h"
  shows "\<exists>s. h_session h' = Some s \<and> hydratedFor h' = Some s \<and> \<not> terminalRef h' \<and>
    h_opened h' = h_opened h @ [(s, max_from 0 (map msg_sequence (messages (h_state h'))))]"
  using open_at_cursor [OF session_reachable_inv [OF assms(1)] assms(2,3)] .

theorem source_opens_at_cursor_witness:
  "h_opened (on_timer (on_error 0 demo_hydrated)) = [(7, 2), (7, 2)]"
proof -
  have r: "session_reachable (on_error 0 demo_hydrated)"
    using demo_hydrated_reachable session_step.error by (rule session_reachable.step)
  have "h_opened (on_timer (on_error 0 demo_hydrated)) \<noteq> h_opened (on_error 0 demo_hydrated)"
    by (simp add: demo_hook_defs)
  from source_opens_at_cursor [OF r session_step.timer this] show ?thesis by (simp add: demo_hook_defs)
qed

text \<open>C11. A terminal event of the current source ends the session: it closes the source, leaves the
  transcript and the buffers as they are and sets the status to closed, and after it no callback of
  any kind opens a source or changes the transcript, the buffers or the status until the session
  changes.\<close>
theorem terminal_session_is_frozen:
  assumes "session_reachable h" "current_source n h" "session_steps (handle n (Terminal t sid) h) h'"
  shows "h_opened h' = h_opened h \<and> h_state h' = (h_state h)\<lparr>connectionStatus := Closed\<rparr> \<and> \<not> current_source m h'"
proof -
  let ?g = "handle n (Terminal t sid) h"
  have g: "h_opened ?g = h_opened h" "h_state ?g = (h_state h)\<lparr>connectionStatus := Closed\<rparr>" "terminalRef ?g"
    using assms(2) by (simp_all add: handle_def hook_defs)
  have "session_reachable ?g" using assms(1) session_step.event by (rule session_reachable.step)
  from terminal_steps [OF assms(3) session_reachable_inv [OF this] g(3)] g(1,2) show ?thesis
    by (simp add: current_source_def)
qed

theorem terminal_session_is_frozen_witness:
  "h_opened (on_timer (handle 0 (Terminal Completed 7) demo_hydrated)) = [(7, 2)]"
proof -
  let ?h = "handle 0 (Terminal Completed 7) demo_hydrated"
  have "session_steps ?h (on_timer ?h)"
    by (rule session_steps.more [OF session_steps.refl session_step.timer]) (simp add: demo_hook_defs)
  moreover have "current_source 0 demo_hydrated" "h_opened demo_hydrated = [(7, 2)]" by (simp_all add: demo_hook_defs)
  ultimately show ?thesis
    using terminal_session_is_frozen [OF demo_hydrated_reachable, of 0 Completed 7] by metis
qed

end
