(* ===== verification/SessionDelivery.thy ===== *)
theory SessionDelivery
  imports SessionStream
begin

text \<open>
  The session stream against its server. The server keeps an append-only log of messages per
  session; a hydration request returns a snapshot of it, and the \<open>n\<close>-th event source, opened
  with cursor \<open>after\<close>, receives the messages numbered above \<open>after\<close> in log order, possibly
  cut off at any point and mixed with deltas, errors, reconnects and session changes
  (\<open>docs/streaming.md\<close>). The server's steps are not code of the frontend; the hook's steps are
  those of \<open>SessionStream\<close>. The result: the transcript shown is always a prefix of the log,
  each message exactly once and in order, and all of it once the open source is drained.
\<close>

record stream_system =
  s_hook :: session_hook
  s_log :: "int \<Rightarrow> SessionMessage list"
  s_sent :: "nat \<Rightarrow> nat" \<comment> \<open>messages delivered so far by each source\<close>

definition log_ok :: "SessionMessage list \<Rightarrow> bool" where
  "log_ok ms \<longleftrightarrow> sorted_wrt (<) (map msg_sequence ms) \<and> (\<forall>m \<in> set ms. 0 < msg_sequence m)"

definition message_event :: "SessionMessage \<Rightarrow> SessionStreamEvent" where
  "message_event m = Message (msg_session_id m) (msg_sequence m) (msg_role m) (msg_content m)
     (msg_kwargs m) (Some (msg_created_at m))"

definition shown :: "SessionMessage \<Rightarrow> int \<times> SessionMessageRole \<times> jstr \<times> json js_obj" where
  \<comment> \<open>what the transcript shows of a message\<close>
  "shown m = (msg_sequence m, msg_role m, msg_content m, msg_kwargs m)"

definition stream_of :: "stream_system \<Rightarrow> nat \<Rightarrow> SessionMessage list" where
  \<comment> \<open>what the server sends on the \<open>n\<close>-th source\<close>
  "stream_of S n = (let (s, after) = h_opened (s_hook S) ! n
                    in filter (\<lambda>m. after < msg_sequence m) (s_log S s))"

fun is_message :: "SessionStreamEvent \<Rightarrow> bool" where
  "is_message (Message sid n role c kw cr) = True"
| "is_message _ = False"

inductive system_step :: "stream_system \<Rightarrow> stream_system \<Rightarrow> bool" where
  append: "log_ok (s_log S s @ [m]) \<Longrightarrow>
     system_step S (S\<lparr>s_log := (s_log S)(s := s_log S s @ [m])\<rparr>)"
| deliver: "\<lbrakk>n < h_sources (s_hook S); s_sent S n < length (stream_of S n)\<rbrakk> \<Longrightarrow>
     system_step S (S\<lparr>s_hook := handle n (message_event (stream_of S n ! s_sent S n)) (s_hook S),
                      s_sent := (s_sent S)(n := Suc (s_sent S n))\<rparr>)"
| delta: "\<not> is_message e \<Longrightarrow> system_step S (S\<lparr>s_hook := handle n e (s_hook S)\<rparr>)"
| snapshot: "(eff, s) \<in> set (h_pending (s_hook S)) \<Longrightarrow>
     system_step S (S\<lparr>s_hook := hydrate_response eff s (Inr (take k (s_log S s))) (s_hook S)\<rparr>)"
| refused: "(eff, s) \<in> set (h_pending (s_hook S)) \<Longrightarrow>
     system_step S (S\<lparr>s_hook := hydrate_response eff s (Inl e) (s_hook S)\<rparr>)"
| change: "sid \<noteq> h_session (s_hook S) \<Longrightarrow>
     system_step S (S\<lparr>s_hook := session_change sid (s_hook S)\<rparr>)"
| opened: "system_step S (S\<lparr>s_hook := on_open n (s_hook S)\<rparr>)"
| error: "system_step S (S\<lparr>s_hook := on_error n (s_hook S)\<rparr>)"
| timer: "system_step S (S\<lparr>s_hook := on_timer (s_hook S)\<rparr>)"
| unmounted: "system_step S (S\<lparr>s_hook := unmount (s_hook S)\<rparr>)"

inductive system_reachable :: "stream_system \<Rightarrow> bool" where
  init: "system_reachable \<lparr>s_hook = hook_init, s_log = \<lambda>_. [], s_sent = \<lambda>_. 0\<rparr>"
| step: "system_reachable S \<Longrightarrow> system_step S S' \<Longrightarrow> system_reachable S'"

subsection \<open>Logs\<close>

lemma log_nth_after:
  assumes "log_ok ms" "j < length (filter (\<lambda>m. a < msg_sequence m) ms)"
  shows "filter (\<lambda>m. a < msg_sequence m) ms ! j = ms ! (length (filter (\<lambda>m. msg_sequence m \<le> a) ms) + j)
     \<and> length (filter (\<lambda>m. msg_sequence m \<le> a) ms) + j < length ms"
  using assms by (intro ordered_nth_after) (simp_all add: log_ok_def)

lemma log_ok_take: "log_ok ms \<Longrightarrow> log_ok (take k ms)"
  by (auto simp: log_ok_def take_map [symmetric] sorted_wrt_take dest: in_set_takeD)

lemma log_ok_distinct: "log_ok ms \<Longrightarrow> distinct (map msg_sequence ms)"
  by (simp add: log_ok_def strict_sorted_iff)

lemma log_max_prefix:
  assumes "log_ok ms"
  shows "length (filter (\<lambda>m. msg_sequence m \<le> max_from 0 (map msg_sequence (take k ms))) ms) = min k (length ms)"
  using assms by (intro ordered_max_prefix) (simp_all add: log_ok_def)

subsection \<open>The invariant\<close>

definition prefix_inv :: "session_hook \<Rightarrow> (int \<Rightarrow> SessionMessage list) \<Rightarrow> bool" where
  "prefix_inv h log \<longleftrightarrow> (\<forall>s. hydratedFor h = Some s \<longrightarrow>
     length (messages (h_state h)) \<le> length (log s) \<and>
     map shown (messages (h_state h)) = map shown (take (length (messages (h_state h))) (log s)))"

definition sent_inv :: "session_hook \<Rightarrow> (int \<Rightarrow> SessionMessage list) \<Rightarrow> (nat \<Rightarrow> nat) \<Rightarrow> bool" where
  "sent_inv h log sent \<longleftrightarrow>
     (\<forall>c n. h_stream h = Some c \<and> sc_source c = Some n \<longrightarrow>
        (\<exists>after. h_opened h ! n = (sc_session c, after) \<and> after \<le> cursorRef h \<and>
           length (messages (h_state h)) =
             length (filter (\<lambda>m. msg_sequence m \<le> after) (log (sc_session c))) + sent n))"

definition system_inv :: "stream_system \<Rightarrow> bool" where
  "system_inv S \<longleftrightarrow> hook_inv (s_hook S) \<and> (\<forall>s. log_ok (s_log S s))
     \<and> prefix_inv (s_hook S) (s_log S) \<and> sent_inv (s_hook S) (s_log S) (s_sent S)
     \<and> (\<forall>n. h_sources (s_hook S) \<le> n \<longrightarrow> s_sent S n = 0)"


lemma system_init_inv: "system_inv \<lparr>s_hook = hook_init, s_log = \<lambda>_. [], s_sent = \<lambda>_. 0\<rparr>"
  using hook_init_inv
  by (simp add: system_inv_def log_ok_def prefix_inv_def sent_inv_def hook_init_def)

lemma shown_sequences:
  "map shown ms = map shown ms' \<Longrightarrow> map msg_sequence ms = map msg_sequence ms'"
proof -
  assume "map shown ms = map shown ms'"
  then have "map (fst \<circ> shown) ms = map (fst \<circ> shown) ms'" by (metis map_map)
  then show ?thesis by (simp add: shown_def comp_def)
qed

lemma system_cursor:
  assumes "system_inv S" "hydratedFor (s_hook S) = Some s"
  shows "cursorRef (s_hook S) =
    max_from 0 (map msg_sequence (take (length (messages (h_state (s_hook S)))) (s_log S s)))"
proof -
  have "map msg_sequence (messages (h_state (s_hook S)))
      = map msg_sequence (take (length (messages (h_state (s_hook S)))) (s_log S s))"
    using assms by (intro shown_sequences) (simp add: system_inv_def prefix_inv_def)
  with assms(1) show ?thesis by (simp add: system_inv_def hook_inv_def view_ok_def)
qed

lemma cursor_count:
  assumes "system_inv S" "hydratedFor (s_hook S) = Some s"
  shows "length (filter (\<lambda>m. msg_sequence m \<le> cursorRef (s_hook S)) (s_log S s))
     = length (messages (h_state (s_hook S)))"
  using assms log_max_prefix [of "s_log S s"] system_cursor [OF assms]
  by (simp add: system_inv_def prefix_inv_def)

lemma cursor_below_append:
  assumes "system_inv S" "hydratedFor (s_hook S) = Some s" "log_ok (s_log S s @ [m])"
  shows "cursorRef (s_hook S) < msg_sequence m"
proof -
  let ?ms = "take (length (messages (h_state (s_hook S)))) (s_log S s)"
  have "cursorRef (s_hook S) = 0 \<or> cursorRef (s_hook S) \<in> msg_sequence ` set ?ms"
    using system_cursor [OF assms(1,2)] max_from_in [of 0 "map msg_sequence ?ms"] by simp
  then show ?thesis using assms(3) by (auto simp: log_ok_def sorted_wrt_append dest: in_set_takeD)
qed

lemma append_inv:
  assumes "system_inv S" "log_ok (s_log S s @ [m])"
  shows "system_inv (S\<lparr>s_log := (s_log S)(s := s_log S s @ [m])\<rparr>)"
proof -
  have "prefix_inv (s_hook S) ((s_log S)(s := s_log S s @ [m]))"
    using assms(1) by (auto simp: system_inv_def prefix_inv_def)
  moreover have "sent_inv (s_hook S) ((s_log S)(s := s_log S s @ [m])) (s_sent S)"
    unfolding sent_inv_def
  proof (intro allI impI)
    fix c n assume c: "h_stream (s_hook S) = Some c \<and> sc_source c = Some n"
    then obtain after where a: "h_opened (s_hook S) ! n = (sc_session c, after)" "after \<le> cursorRef (s_hook S)"
      "length (messages (h_state (s_hook S))) =
         length (filter (\<lambda>m. msg_sequence m \<le> after) (s_log S (sc_session c))) + s_sent S n"
      using assms(1) unfolding system_inv_def sent_inv_def by blast
    from c assms(1) have "hydratedFor (s_hook S) = Some (sc_session c)"
      by (auto simp: system_inv_def hook_inv_def stream_inv_def)
    with cursor_below_append [OF assms(1)] assms(2) a(2)
    have "sc_session c = s \<Longrightarrow> after < msg_sequence m" by fastforce
    with a show "\<exists>after. h_opened (s_hook S) ! n = (sc_session c, after) \<and> after \<le> cursorRef (s_hook S) \<and>
        length (messages (h_state (s_hook S))) = length (filter (\<lambda>m. msg_sequence m \<le> after)
          (((s_log S)(s := s_log S s @ [m])) (sc_session c))) + s_sent S n"
      by (intro exI [of _ after]) auto
  qed
  ultimately show ?thesis using assms by (simp add: system_inv_def)
qed

lemma same_transcript_inv:
  \<comment> \<open>a hook step that keeps the transcript and opens no source\<close>
  assumes "system_inv S" "hook_inv h'" "messages (h_state h') = messages (h_state (s_hook S))"
    and "hydratedFor h' = hydratedFor (s_hook S)" "cursorRef h' = cursorRef (s_hook S)"
    and "h_opened h' = h_opened (s_hook S)"
    and "\<And>c n. h_stream h' = Some c \<Longrightarrow> sc_source c = Some n \<Longrightarrow>
      \<exists>d. h_stream (s_hook S) = Some d \<and> sc_source d = Some n \<and> sc_session d = sc_session c"
  shows "system_inv (S\<lparr>s_hook := h'\<rparr>)"
proof -
  have "h_sources h' = h_sources (s_hook S)"
    using assms(1,2,6) by (auto simp: system_inv_def hook_inv_def)
  moreover have "sent_inv h' (s_log S) (s_sent S)"
    using assms(1,3,5,6,7) unfolding system_inv_def sent_inv_def by metis
  ultimately show ?thesis using assms by (simp add: system_inv_def prefix_inv_def)
qed

lemma connect_inv:
  \<comment> \<open>a hook step that opens the next source at the cursor\<close>
  assumes "system_inv S" "hook_inv h'" "hydratedFor h' = Some s"
    and "prefix_inv h' (s_log S)"
    and "h_stream h' = Some \<lparr>sc_session = s, sc_source = Some (h_sources (s_hook S)), sc_timer = b\<rparr>"
    and "h_opened h' = h_opened (s_hook S) @ [(s, cursorRef h')]"
  shows "system_inv (S\<lparr>s_hook := h'\<rparr>)"
proof -
  let ?n = "h_sources (s_hook S)"
  have len: "length (h_opened (s_hook S)) = ?n" "h_sources h' = Suc ?n"
    using assms(1,2,6) by (auto simp: system_inv_def hook_inv_def)
  have cur: "cursorRef h' = max_from 0 (map msg_sequence (take (length (messages (h_state h'))) (s_log S s)))"
  proof -
    have "map msg_sequence (messages (h_state h'))
        = map msg_sequence (take (length (messages (h_state h'))) (s_log S s))"
      using assms(3,4) unfolding prefix_inv_def by (intro shown_sequences) blast
    moreover have "cursorRef h' = max_from 0 (map msg_sequence (messages (h_state h')))"
      using assms(2) by (simp add: hook_inv_def view_ok_def)
    ultimately show ?thesis by presburger
  qed
  have "length (filter (\<lambda>m. msg_sequence m \<le> cursorRef h') (s_log S s)) = length (messages (h_state h'))"
    unfolding cur using assms(1,3,4) by (subst log_max_prefix) (auto simp: system_inv_def prefix_inv_def)
  moreover have "s_sent S ?n = 0" using assms(1) by (simp add: system_inv_def)
  ultimately have "sent_inv h' (s_log S) (s_sent S)"
    using assms(5,6) len by (auto simp: sent_inv_def nth_append)
  then show ?thesis using assms(1,2,4) len by (simp add: system_inv_def)
qed

lemma terminal_no_source:
  assumes "hook_inv h" "terminalRef h" "h_stream h = Some c"
  shows "sc_source c = None"
  using assms by (simp add: hook_inv_def stream_inv_def)

lemma sent_inv_other:
  assumes "system_inv S" "\<not> current_source n (s_hook S)" "n < h_sources (s_hook S)"
  shows "system_inv (S\<lparr>s_sent := (s_sent S)(n := k)\<rparr>)"
proof -
  have "sent_inv (s_hook S) (s_log S) ((s_sent S)(n := k))"
    unfolding sent_inv_def
  proof (intro allI impI)
    fix c j assume c: "h_stream (s_hook S) = Some c \<and> sc_source c = Some j"
    then have "j \<noteq> n" using assms(1,2) terminal_no_source [of "s_hook S" c]
      by (auto simp: system_inv_def current_source_def)
    with c assms(1) show "\<exists>after. h_opened (s_hook S) ! j = (sc_session c, after) \<and>
        after \<le> cursorRef (s_hook S) \<and> length (messages (h_state (s_hook S))) =
        length (filter (\<lambda>m. msg_sequence m \<le> after) (s_log S (sc_session c))) + ((s_sent S)(n := k)) j"
      by (auto simp: system_inv_def sent_inv_def)
  qed
  with assms(1,3) show ?thesis by (simp add: system_inv_def)
qed

lemma reduce_message_event:
  "messages (reduceSessionStreamEvent st (message_event m)) =
     (if msg_sequence m \<in> set (map msg_sequence (messages st)) then messages st
      else messages st @ [m\<lparr>msg_id := str ''msg-'' @ num_str (msg_sequence m)\<rparr>])"
  by (auto simp: message_event_def Let_def has_sequence_iff)

lemma next_not_seen:
  assumes "log_ok L" "k < length L"
  shows "msg_sequence (L ! k) \<notin> set (map msg_sequence (take k L))"
  using log_ok_distinct [OF assms(1)] assms(2)
  by (auto simp: in_set_conv_nth distinct_conv_nth)

lemma deliver_current_inv:
  assumes inv: "system_inv S" and cur: "current_source n (s_hook S)"
    and more: "s_sent S n < length (stream_of S n)"
  shows "system_inv (S\<lparr>s_hook := handle n (message_event (stream_of S n ! s_sent S n)) (s_hook S),
                        s_sent := (s_sent S)(n := Suc (s_sent S n))\<rparr>)"
proof -
  let ?h = "s_hook S" and ?m = "stream_of S n ! s_sent S n"
  let ?h' = "handle n (message_event ?m) ?h" and ?k = "length (messages (h_state (s_hook S)))"
  obtain c where c: "h_stream ?h = Some c" "sc_source c = Some n" and nt: "\<not> terminalRef ?h"
    using cur by (auto simp: current_source_def split: option.splits)
  obtain after where a: "h_opened ?h ! n = (sc_session c, after)" "after \<le> cursorRef ?h"
    "?k = length (filter (\<lambda>m. msg_sequence m \<le> after) (s_log S (sc_session c))) + s_sent S n"
    using inv c unfolding system_inv_def sent_inv_def by blast
  let ?L = "s_log S (sc_session c)"
  have hyd: "hydratedFor ?h = Some (sc_session c)" "Suc n = h_sources ?h"
    using inv c by (auto simp: system_inv_def hook_inv_def stream_inv_def)
  have L: "log_ok ?L" using inv by (simp add: system_inv_def)
  have m: "?m = ?L ! ?k" "?k < length ?L"
    using log_nth_after [OF L, of "s_sent S n" after] more a by (simp_all add: stream_of_def)
  have pre: "map shown (messages (h_state ?h)) = map shown (take ?k ?L)"
    using inv hyd(1) unfolding system_inv_def prefix_inv_def by blast
  have new: "msg_sequence ?m \<notin> set (map msg_sequence (messages (h_state ?h)))"
    unfolding shown_sequences [OF pre] m(1) by (rule next_not_seen [OF L m(2)])
  have msgs: "messages (h_state ?h') = messages (h_state ?h) @ [?m\<lparr>msg_id := str ''msg-'' @ num_str (msg_sequence ?m)\<rparr>]"
    using cur new unfolding handle_def
    by (simp add: reduce_message_event message_event_def [of ?m, symmetric]) (simp add: message_event_def)
  have keep: "hydratedFor ?h' = hydratedFor ?h" "h_stream ?h' = h_stream ?h" "h_opened ?h' = h_opened ?h"
    "h_sources ?h' = h_sources ?h" "cursorRef ?h \<le> cursorRef ?h'"
    using cur by (simp_all add: handle_def message_event_def)
  have "map shown (messages (h_state ?h')) = map shown (take (Suc ?k) ?L)"
    unfolding msgs take_Suc_conv_app_nth [OF m(2)] map_append pre
    by (simp add: m(1) [symmetric] shown_def)
  then have "prefix_inv ?h' (s_log S)"
    using hyd(1) keep(1) m(2) msgs by (simp add: prefix_inv_def)
  moreover have "sent_inv ?h' (s_log S) ((s_sent S)(n := Suc (s_sent S n)))"
    using a c keep msgs by (auto simp: sent_inv_def)
  moreover have "hook_inv ?h'" using inv by (intro handle_inv) (simp add: system_inv_def)
  ultimately show ?thesis using inv hyd(2) keep(4) by (auto simp: system_inv_def)
qed

lemma deliver_inv:
  assumes "system_inv S" "n < h_sources (s_hook S)" "s_sent S n < length (stream_of S n)"
  shows "system_inv (S\<lparr>s_hook := handle n (message_event (stream_of S n ! s_sent S n)) (s_hook S),
                        s_sent := (s_sent S)(n := Suc (s_sent S n))\<rparr>)"
proof (cases "current_source n (s_hook S)")
  case True
  with assms show ?thesis by (intro deliver_current_inv)
next
  case False
  with sent_inv_other [OF assms(1) False assms(2)] show ?thesis by (simp add: handle_def)
qed

lemma other_event_keeps:
  assumes "\<not> is_message e"
  shows "messages (h_state (handle n e h)) = messages (h_state h)"
    "hydratedFor (handle n e h) = hydratedFor h" "cursorRef (handle n e h) = cursorRef h"
    "h_opened (handle n e h) = h_opened h"
    "h_stream (handle n e h) = h_stream h \<or> h_stream (handle n e h) = map_option (\<lambda>c. c\<lparr>sc_source := None\<rparr>) (h_stream h)"
  using assms by (cases e; simp add: handle_def set_status_def close_source_def Let_def)+

lemma other_event_inv:
  assumes "system_inv S" "\<not> is_message e"
  shows "system_inv (S\<lparr>s_hook := handle n e (s_hook S)\<rparr>)"
proof (rule same_transcript_inv [OF assms(1)])
  show "hook_inv (handle n e (s_hook S))"
    using assms(1) by (intro handle_inv) (simp add: system_inv_def)
qed (use assms(2) other_event_keeps(5) [of e n "s_hook S"] in
    \<open>auto simp: other_event_keeps(1-4) map_option_case split: option.splits\<close>)

lemma snapshot_inv:
  assumes "system_inv S" "(eff, s) \<in> set (h_pending (s_hook S))"
  shows "system_inv (S\<lparr>s_hook := hydrate_response eff s (Inr (take k (s_log S s))) (s_hook S)\<rparr>)"
proof -
  let ?h' = "hydrate_response eff s (Inr (take k (s_log S s))) (s_hook S)"
  have inv: "hook_inv (s_hook S)" and L: "log_ok (s_log S s)" using assms(1) by (simp_all add: system_inv_def)
  have inv': "hook_inv ?h'"
    using inv assms(2) log_ok_distinct [OF log_ok_take [OF L]] by (intro hydrate_response_inv) simp_all
  show ?thesis
  proof (cases "eff = h_effect (s_hook S)")
    case False
    with assms inv' show ?thesis by (intro same_transcript_inv) (simp_all add: hydrate_response_def)
  next
    case True
    then have s: "h_session (s_hook S) = Some s" "h_stream (s_hook S) = None"
      using inv assms(2) by (auto simp: hook_inv_def pending_inv_def)
    have hyd: "hydratedFor ?h' = Some s" "messages (h_state ?h') = take k (s_log S s)"
      using True s by (simp_all add: hook_defs Let_def)
    then have "prefix_inv ?h' (s_log S)" by (simp add: prefix_inv_def min_def)
    with assms(1) inv' hyd(1) show ?thesis
      by (rule connect_inv [where b = False]) (use True s in \<open>simp_all add: hook_defs Let_def\<close>)
  qed
qed

lemma refused_inv:
  assumes "system_inv S" "(eff, s) \<in> set (h_pending (s_hook S))"
  shows "system_inv (S\<lparr>s_hook := hydrate_response eff s (Inl e) (s_hook S)\<rparr>)"
proof (rule same_transcript_inv [OF assms(1)])
  show "hook_inv (hydrate_response eff s (Inl e) (s_hook S))"
    using assms by (intro hydrate_response_inv) (simp_all add: system_inv_def)
qed (auto simp: hydrate_response_def Let_def split: if_splits)

lemma change_inv:
  assumes "system_inv S" "sid \<noteq> h_session (s_hook S)"
  shows "system_inv (S\<lparr>s_hook := session_change sid (s_hook S)\<rparr>)"
proof -
  let ?h' = "session_change sid (s_hook S)"
  have inv: "hook_inv (s_hook S)" using assms(1) by (simp add: system_inv_def)
  then have "hook_inv ?h'" using assms(2) by (rule session_change_inv)
  moreover have "hydratedFor ?h' = None" "h_stream ?h' = None" "h_sources ?h' = h_sources (s_hook S)"
    using inv assms(2) by (auto simp: hook_inv_def hook_defs Let_def split: option.splits)
  ultimately show ?thesis using assms(1) by (simp add: system_inv_def prefix_inv_def sent_inv_def)
qed

lemma open_error_unmount_inv:
  assumes "system_inv S"
  shows "system_inv (S\<lparr>s_hook := on_open n (s_hook S)\<rparr>)"
    and "system_inv (S\<lparr>s_hook := on_error n (s_hook S)\<rparr>)"
    and "system_inv (S\<lparr>s_hook := unmount (s_hook S)\<rparr>)"
proof -
  have inv: "hook_inv (s_hook S)" using assms by (simp add: system_inv_def)
  show "system_inv (S\<lparr>s_hook := on_open n (s_hook S)\<rparr>)"
    using assms on_open_inv [OF inv] by (rule same_transcript_inv) (auto simp: on_open_def set_status_def split: if_splits)
  show "system_inv (S\<lparr>s_hook := on_error n (s_hook S)\<rparr>)"
    using assms on_error_inv [OF inv]
    by (rule same_transcript_inv) (auto simp: on_error_def set_status_def split: if_splits)
  show "system_inv (S\<lparr>s_hook := unmount (s_hook S)\<rparr>)"
    using assms unmount_inv [OF inv] by (rule same_transcript_inv) (auto simp: unmount_def)
qed

lemma timer_inv:
  assumes "system_inv S"
  shows "system_inv (S\<lparr>s_hook := on_timer (s_hook S)\<rparr>)"
proof -
  have inv: "hook_inv (s_hook S)" using assms by (simp add: system_inv_def)
  show ?thesis
  proof (cases "\<exists>c. h_stream (s_hook S) = Some c \<and> sc_timer c")
    case True
    then obtain c where c: "h_stream (s_hook S) = Some c" "sc_timer c" by blast
    then have hyd: "hydratedFor (s_hook S) = Some (sc_session c)"
      using inv by (auto simp: hook_inv_def stream_inv_def)
    have "prefix_inv (on_timer (s_hook S)) (s_log S)"
      using assms c by (simp add: system_inv_def prefix_inv_def on_timer_def connect_def)
    then show ?thesis
      by (rule connect_inv [OF assms on_timer_inv [OF inv], where s = "sc_session c" and b = False, rotated])
        (use c hyd in \<open>simp_all add: on_timer_def connect_def\<close>)
  next
    case False
    then have "on_timer (s_hook S) = s_hook S" by (auto simp: on_timer_def split: option.splits)
    with assms show ?thesis by simp
  qed
qed

lemma system_step_inv: "system_step S S' \<Longrightarrow> system_inv S \<Longrightarrow> system_inv S'"
  by (induction rule: system_step.induct)
    (blast intro: append_inv deliver_inv other_event_inv snapshot_inv refused_inv change_inv
      open_error_unmount_inv timer_inv)+

lemma system_reachable_inv: "system_reachable S \<Longrightarrow> system_inv S"
  by (induction rule: system_reachable.induct) (auto simp: system_init_inv intro: system_step_inv)

lemma drained_complete:
  assumes inv: "system_inv S" and c: "h_stream (s_hook S) = Some c" "sc_source c = Some n"
    and all: "s_sent S n = length (stream_of S n)"
  shows "length (messages (h_state (s_hook S))) = length (s_log S (sc_session c))"
proof -
  let ?L = "s_log S (sc_session c)"
  obtain after where a: "h_opened (s_hook S) ! n = (sc_session c, after)"
    "length (messages (h_state (s_hook S))) = length (filter (\<lambda>m. msg_sequence m \<le> after) ?L) + s_sent S n"
    using inv c unfolding system_inv_def sent_inv_def by blast
  have "length (filter (\<lambda>m. msg_sequence m \<le> after) ?L) + length (filter (\<lambda>m. after < msg_sequence m) ?L)
      = length ?L" using inv by (intro ordered_split_length) (simp add: system_inv_def log_ok_def)
  with a all show ?thesis by (simp add: stream_of_def)
qed

subsection \<open>Properties\<close>

definition demo_system :: stream_system where
  \<comment> \<open>one message hydrated, the second one received live after a reconnect\<close>
  "demo_system = \<lparr>s_hook = handle 1 (message_event (demo_message 2 ''b'' ''y''))
       (on_timer (on_error 0 (hydrate_response 1 7 (Inr [demo_message 1 ''a'' ''x''])
         (session_change (Some 7) hook_init)))),
     s_log = (\<lambda>_. [])(7 := [demo_message 1 ''a'' ''x'', demo_message 2 ''b'' ''y'']),
     s_sent = (\<lambda>_. 0)(1 := 1)\<rparr>"

lemma demo_system_reachable: "system_reachable demo_system"
proof -
  let ?m1 = "demo_message 1 ''a'' ''x''" and ?m2 = "demo_message 2 ''b'' ''y''"
  let ?log = "(\<lambda>_. [])(7 := [?m1, ?m2]) :: int \<Rightarrow> SessionMessage list"
  let ?h1 = "session_change (Some 7) hook_init"
  let ?h2 = "hydrate_response 1 7 (Inr [?m1]) ?h1"
  let ?s = "\<lambda>h log. \<lparr>s_hook = h, s_log = log, s_sent = \<lambda>_. 0\<rparr>"
  have a: "system_reachable (?s hook_init ((\<lambda>_. [])(7 := [?m1])))"
    using system_reachable.step [OF system_reachable.init system_step.append [of _ 7 ?m1]]
    by (simp add: log_ok_def demo_message_def)
  have b: "system_reachable (?s hook_init ?log)"
    using system_reachable.step [OF a system_step.append [of _ 7 ?m2]]
    by (simp add: log_ok_def demo_message_def)
  have c: "system_reachable (?s ?h1 ?log)"
    using system_reachable.step [OF b system_step.change [of "Some 7"]] by (simp add: hook_init_def)
  have "(1, 7) \<in> set (h_pending ?h1)" by (simp add: hook_defs hook_init_def Let_def)
  then have d: "system_reachable (?s ?h2 ?log)"
    using system_reachable.step [OF c system_step.snapshot [of 1 7 _ 1]] by simp
  have e: "system_reachable (?s (on_error 0 ?h2) ?log)"
    using system_reachable.step [OF d system_step.error [of _ 0]] by simp
  have f: "system_reachable (?s (on_timer (on_error 0 ?h2)) ?log)"
    using system_reachable.step [OF e system_step.timer] by simp
  have o: "h_sources (on_timer (on_error 0 ?h2)) = 2" "h_opened (on_timer (on_error 0 ?h2)) ! 1 = (7, 1)"
    by (simp_all add: hook_defs hook_init_def Let_def demo_message_def)
  then have "stream_of (?s (on_timer (on_error 0 ?h2)) ?log) 1 = [?m2]"
    by (simp add: stream_of_def demo_message_def)
  with o show ?thesis
    using system_reachable.step [OF f system_step.deliver [of 1]] by (simp add: demo_system_def)
qed

lemmas demo_system_defs = demo_system_def hook_defs hook_init_def Let_def demo_message_def
  message_event_def stream_of_def



lemma drained_transcript:
  assumes "system_reachable S" "h_stream (s_hook S) = Some c" "sc_source c = Some n"
    and "s_sent S n = length (stream_of S n)"
  shows "map shown (messages (h_state (s_hook S))) = map shown (s_log S (sc_session c))"
proof -
  have inv: "system_inv S" using assms(1) by (rule system_reachable_inv)
  have "hydratedFor (s_hook S) = Some (sc_session c)"
    using inv assms(2) by (auto simp: system_inv_def hook_inv_def stream_inv_def)
  with inv have "map shown (messages (h_state (s_hook S)))
      = map shown (take (length (messages (h_state (s_hook S)))) (s_log S (sc_session c)))"
    unfolding system_inv_def prefix_inv_def by blast
  with drained_complete [OF inv assms(2-4)] show ?thesis by simp
qed

text \<open>C2. Nothing is missed: once the open source has delivered everything the server has for
  it, the transcript is the whole log of the session, whatever was lost on earlier
  connections.\<close>
theorem transcript_is_complete_when_drained:
  assumes "system_reachable S" "h_stream (s_hook S) = Some c" "sc_source c = Some n"
    and "s_sent S n = length (stream_of S n)"
  shows "map shown (messages (h_state (s_hook S))) = map shown (s_log S (sc_session c))"
  using assms by (rule drained_transcript)

theorem transcript_is_complete_when_drained_witness:
  "map shown (messages (h_state (s_hook demo_system)))
     = map shown [demo_message 1 ''a'' ''x'', demo_message 2 ''b'' ''y'']"
proof -
  let ?c = "\<lparr>sc_session = 7, sc_source = Some 1, sc_timer = False\<rparr>"
  have "h_stream (s_hook demo_system) = Some ?c" "s_sent demo_system 1 = length (stream_of demo_system 1)"
    by (simp_all add: demo_system_defs)
  from transcript_is_complete_when_drained [OF demo_system_reachable this(1) _ this(2)]
  show ?thesis by (simp add: demo_system_def)
qed

end
