(* ===== verification/SopChecks.thy ===== *)
theory SopChecks
  imports Sessions
begin

text \<open>
  The view of one SOP quality check: the data of
  \<open>frontend/src/features/sop-quality-checks/types.ts\<close> and the pure functions of its
  \<open>reducer.ts\<close>. The first part reduces check events to node states; the second part
  projects a session transcript onto the same node states, one node per step.
\<close>

subsection \<open>Data\<close>

datatype SopQualityCheckStatus = Check_Pending | Check_Running | Check_Succeeded | Check_Failed
  | Check_Cancelled | Check_Interrupted

datatype node_status = Node_Idle | Node_Running | Node_Done | Node_Error | Node_Interrupted

record SopQualityNodeState =
  node_status :: node_status
  streamText :: jstr
  thinkingText :: "jstr option"
  node_error :: "jstr option"
  firstSequence :: "int option"

record SopQualityDisplayState =
  ds_latest_sequence :: int
  ds_nodes :: "SopQualityNodeState js_obj"
  ds_is_running :: bool

record SopQualityCheckDetail =
  check_id :: jstr
  check_sop_id :: jstr
  check_env_key :: jstr
  check_status :: SopQualityCheckStatus
  quality_result :: "jstr option"
  check_latest_sequence :: int
  current_checkpoint_id :: "jstr option"
  check_result :: "json js_obj option"
  check_error :: "json js_obj option"
  display_state :: SopQualityDisplayState
  check_session_id :: "int option"

datatype check_event_type = Ev_Created | Ev_Started | Ev_Messages | Ev_Updates | Ev_Checkpoint
  | Ev_Completed | Ev_Failed | Ev_Interrupted

datatype event_channel = Ch_Thinking | Ch_Summary | Ch_Result

record SopQualityCheckEvent =
  ev_check_id :: jstr
  ev_sequence :: int
  ev_type :: check_event_type
  ev_node :: "jstr option"
  ev_channel :: "event_channel option"
  ev_checkpoint_id :: "jstr option"
  ev_task_id :: "jstr option"
  ev_message :: "jstr option"
  ev_created_at :: "jstr option"

record SopQualityCheckViewState =
  v_latestSequence :: int
  nodes :: "SopQualityNodeState js_obj"
  events :: "SopQualityCheckEvent list"
  needsRefresh :: bool
  isRunning :: bool
  v_connectionStatus :: ConnectionStatus

subsection \<open>Check events\<close>

definition createInitialSopQualityCheckViewState :: SopQualityCheckViewState where
  "createInitialSopQualityCheckViewState =
     \<lparr>v_latestSequence = 0, nodes = [], events = [], needsRefresh = False, isRunning = True,
      v_connectionStatus = Idle\<rparr>"

definition hydrateFromDisplayState :: "SopQualityDisplayState \<Rightarrow> SopQualityCheckViewState" where
  "hydrateFromDisplayState ds = createInitialSopQualityCheckViewState
     \<lparr>v_latestSequence := ds_latest_sequence ds, nodes := ds_nodes ds, isRunning := ds_is_running ds\<rparr>"

definition createNodeState :: SopQualityNodeState where
  "createNodeState = \<lparr>node_status = Node_Idle, streamText = [], thinkingText = None,
     node_error = None, firstSequence = None\<rparr>"

definition named_node :: "SopQualityCheckEvent \<Rightarrow> jstr option" where
  \<comment> \<open>\<open>if (!event.node) return state\<close>: a missing and an empty name are alike\<close>
  "named_node e = Option.bind (ev_node e) nonempty"

definition current_node :: "SopQualityCheckViewState \<Rightarrow> jstr \<Rightarrow> SopQualityNodeState" where
  "current_node s k = orElse (obj_get k (nodes s)) createNodeState"

definition appendEventNodeMessage ::
  "SopQualityCheckViewState \<Rightarrow> SopQualityCheckEvent \<Rightarrow> SopQualityCheckViewState" where
  "appendEventNodeMessage s e =
     (case named_node e of
        None \<Rightarrow> s
      | Some k \<Rightarrow>
          let currentNode = current_node s k;
              touched = currentNode\<lparr>node_status := Node_Running,
                firstSequence := Some (orElse (firstSequence currentNode) (ev_sequence e))\<rparr>
          in case ev_channel e of
               Some Ch_Thinking \<Rightarrow> s\<lparr>nodes := obj_set k (touched\<lparr>thinkingText :=
                 (case ev_message e of None \<Rightarrow> thinkingText currentNode | Some t \<Rightarrow> Some t)\<rparr>) (nodes s)\<rparr>
             | Some Ch_Summary \<Rightarrow> s\<lparr>nodes := obj_set k (touched\<lparr>streamText :=
                 orElse (ev_message e) (streamText currentNode)\<rparr>) (nodes s)\<rparr>
             | Some Ch_Result \<Rightarrow> s
             | None \<Rightarrow> s\<lparr>nodes := obj_set k (touched\<lparr>streamText :=
                 streamText currentNode @ orElse (ev_message e) []\<rparr>) (nodes s)\<rparr>)"

definition updateEventNode ::
  "SopQualityCheckViewState \<Rightarrow> SopQualityCheckEvent \<Rightarrow> node_status \<Rightarrow> SopQualityCheckViewState" where
  "updateEventNode s e status =
     (case named_node e of
        None \<Rightarrow> s
      | Some k \<Rightarrow>
          let currentNode = current_node s k
          in s\<lparr>nodes := obj_set k (currentNode\<lparr>node_status := status,
                 streamText := orElse (ev_message e) (streamText currentNode),
                 node_error := (if status = Node_Error
                   then (case ev_message e of None \<Rightarrow> node_error currentNode | Some t \<Rightarrow> Some t)
                   else None),
                 firstSequence := Some (orElse (firstSequence currentNode) (ev_sequence e))\<rparr>) (nodes s)\<rparr>)"

definition settle_node :: "SopQualityNodeState \<Rightarrow> SopQualityNodeState" where
  "settle_node n = (if node_status n = Node_Running then n\<lparr>node_status := Node_Done\<rparr> else n)"

definition settleRunningNodes :: "SopQualityNodeState js_obj \<Rightarrow> SopQualityNodeState js_obj" where
  "settleRunningNodes ns = fromEntries (map (\<lambda>(k, n). (k, settle_node n)) ns)"

definition reduceSopQualityCheckEvent ::
  "SopQualityCheckViewState \<Rightarrow> SopQualityCheckEvent \<Rightarrow> SopQualityCheckViewState" where
  "reduceSopQualityCheckEvent s e =
     (let nextState = s\<lparr>v_latestSequence := max (v_latestSequence s) (ev_sequence e),
                        events := events s @ [e]\<rparr>
      in case ev_type e of
           Ev_Checkpoint \<Rightarrow> (updateEventNode nextState e Node_Done)\<lparr>needsRefresh := True\<rparr>
         | Ev_Started \<Rightarrow> (updateEventNode nextState e Node_Running)\<lparr>isRunning := True\<rparr>
         | Ev_Messages \<Rightarrow> appendEventNodeMessage nextState e
         | Ev_Updates \<Rightarrow> updateEventNode nextState e Node_Running
         | Ev_Completed \<Rightarrow> nextState\<lparr>nodes := settleRunningNodes (nodes nextState),
             needsRefresh := True, isRunning := False, v_connectionStatus := Closed\<rparr>
         | Ev_Failed \<Rightarrow> (updateEventNode nextState e Node_Error)\<lparr>needsRefresh := True,
             isRunning := False, v_connectionStatus := Closed\<rparr>
         | Ev_Interrupted \<Rightarrow> (updateEventNode nextState e Node_Interrupted)\<lparr>needsRefresh := True,
             isRunning := False, v_connectionStatus := Closed\<rparr>
         | Ev_Created \<Rightarrow> nextState)"

subsection \<open>Order of nodes\<close>

definition MAX_SAFE_INTEGER :: int where
  "MAX_SAFE_INTEGER = 9007199254740991"

definition node_cmp ::
  "(jstr \<Rightarrow> jstr \<Rightarrow> int) \<Rightarrow> jstr \<times> SopQualityNodeState \<Rightarrow> jstr \<times> SopQualityNodeState \<Rightarrow> int" where
  "node_cmp localeCompare l r =
     (let d = orElse (firstSequence (snd l)) MAX_SAFE_INTEGER - orElse (firstSequence (snd r)) MAX_SAFE_INTEGER
      in if d \<noteq> 0 then d else localeCompare (fst l) (fst r))"

definition getOrderedNodeIds ::
  "(jstr \<Rightarrow> jstr \<Rightarrow> int) \<Rightarrow> SopQualityCheckViewState \<Rightarrow> jstr list \<Rightarrow> jstr list" where
  "getOrderedNodeIds localeCompare s registeredNodeIds =
     filter (\<lambda>k. obj_in k (nodes s)) registeredNodeIds @
     map fst (js_sort (node_cmp localeCompare)
       (filter (\<lambda>(k, n). \<not> List.member registeredNodeIds k) (nodes s)))"

subsection \<open>The session projection\<close>

definition ORDERED_STEPS :: "jstr list" where
  "ORDERED_STEPS = map str [''load_sop'', ''review_sop'', ''summarize_result'', ''submit_result'']"

record SopProjection =
  p_latestSequence :: int
  p_nodes :: "SopQualityNodeState js_obj"

record step_acc =
  seenSteps :: "jstr list"
  grouped :: "jstr list js_obj"
  firstSeq :: "int js_obj"

definition step_of :: "SessionMessage \<Rightarrow> jstr option" where
  \<comment> \<open>\<open>None\<close> where the loop skips the message\<close>
  "step_of m = Option.bind (readString (obj_get (str ''step'') (msg_kwargs m))) nonempty"

definition open_step :: "jstr \<Rightarrow> int \<Rightarrow> step_acc \<Rightarrow> step_acc" where
  "open_step stp n acc =
     (if obj_in stp (grouped acc) then acc
      else acc\<lparr>grouped := obj_set stp [] (grouped acc), seenSteps := seenSteps acc @ [stp],
               firstSeq := obj_set stp n (firstSeq acc)\<rparr>)"

fun collect_messages :: "step_acc \<Rightarrow> SessionMessage list \<Rightarrow> js_exn + step_acc" where
  "collect_messages acc [] = Inr acc"
| "collect_messages acc (m # ms) =
     (case step_of m of
        None \<Rightarrow> collect_messages acc ms
      | Some stp \<Rightarrow>
          let acc' = open_step stp (msg_sequence m) acc
          in case obj_get stp (grouped acc') of
               None \<Rightarrow> Inl TypeError \<comment> \<open>an inherited member, which has no \<open>push\<close>\<close>
             | Some chunks \<Rightarrow> collect_messages
                 (acc'\<lparr>grouped := obj_set stp (chunks @ [msg_content m]) (grouped acc')\<rparr>) ms)"

fun see_live :: "int \<Rightarrow> jstr list \<Rightarrow> step_acc \<times> jstr option \<Rightarrow> step_acc \<times> jstr option" where
  "see_live n [] al = al"
| "see_live n (key # keys) (acc, lastSeen) =
     (if startsWith key (str ''step:'')
      then let stp = drop (length ''step:'') key in see_live n keys (open_step stp n acc, Some stp)
      else see_live n keys (acc, lastSeen))"

definition step_cmp :: "int js_obj \<Rightarrow> jstr \<Rightarrow> jstr \<Rightarrow> int" where
  "step_cmp fs l r = orElse (obj_get l fs) MAX_SAFE_INTEGER - orElse (obj_get r fs) MAX_SAFE_INTEGER"

definition sortSteps :: "jstr list \<Rightarrow> int js_obj \<Rightarrow> jstr list" where
  "sortSteps seen fs =
     filter (List.member seen) ORDERED_STEPS @
     js_sort (step_cmp fs) (filter (\<lambda>stp. \<not> List.member ORDERED_STEPS stp) seen)"

definition thinking_label :: jstr where
  "thinking_label = [0x601D, 0x8003, 0x4E2D]"

definition project_node ::
  "SessionViewState \<Rightarrow> bool \<Rightarrow> jstr option \<Rightarrow> step_acc \<Rightarrow> jstr \<Rightarrow> SopQualityNodeState" where
  "project_node s running lastSeen acc stp =
     (let persistedChunks = orElse (obj_get stp (grouped acc)) [];
          isLast = running \<and> lastSeen = Some stp;
          liveText = obj_get (str ''step:'' @ stp) (liveBuffers s);
          isThinking = obj_get (str ''step:'' @ stp) (thinking s) = Some True
      in \<lparr>node_status = (if isLast then Node_Running else Node_Done),
          streamText = (if isLast \<and> liveText \<noteq> None then the liveText else join [10] persistedChunks),
          thinkingText = (if isLast \<and> isThinking then Some thinking_label else None),
          node_error = None,
          firstSequence = obj_get stp (firstSeq acc)\<rparr>)"

definition live_steps :: "SessionViewState \<Rightarrow> bool \<Rightarrow> step_acc \<times> jstr option \<Rightarrow> step_acc \<times> jstr option" where
  "live_steps s running al =
     (if running
      then see_live (latestSequence s + 1) (obj_keys (thinking s))
             (see_live (latestSequence s + 1) (obj_keys (liveBuffers s)) al)
      else al)"

definition projectSessionStateToSopView :: "SessionViewState \<Rightarrow> bool \<Rightarrow> js_exn + SopProjection" where
  "projectSessionStateToSopView s running =
     (case collect_messages \<lparr>seenSteps = [], grouped = [], firstSeq = []\<rparr> (messages s) of
        Inl x \<Rightarrow> Inl x
      | Inr acc0 \<Rightarrow>
          let (acc, lastSeen) = live_steps s running
                (acc0, if seenSteps acc0 = [] then None else Some (last (seenSteps acc0)));
              orderedSteps = sortSteps (seenSteps acc) (firstSeq acc)
          in Inr \<lparr>p_latestSequence = max_from (latestSequence s) (map msg_sequence (messages s)),
                  p_nodes = foldl (\<lambda>ns stp. obj_set stp (project_node s running lastSeen acc stp) ns)
                    [] orderedSteps\<rparr>)"

subsection \<open>Facts about the event reducer\<close>

definition node_ok :: "SopQualityNodeState \<Rightarrow> bool" where
  \<comment> \<open>only a failed node carries an error\<close>
  "node_ok n \<longleftrightarrow> (node_error n \<noteq> None \<longrightarrow> node_status n = Node_Error)"

definition nodes_ok :: "SopQualityCheckViewState \<Rightarrow> bool" where
  "nodes_ok s \<longleftrightarrow> obj_ok (nodes s)"

lemma obj_keys_map [simp]: "obj_keys (map (\<lambda>(k, n). (k, f n)) ob) = obj_keys ob"
  by (simp add: obj_keys_def split_def comp_def)

lemma obj_get_map: "obj_get k (map (\<lambda>(k, n). (k, f n)) ob) = map_option f (obj_get k ob)"
  by (induction ob) (auto simp: obj_get_def)

lemma settleRunningNodes_eq:
  "obj_ok ns \<Longrightarrow> settleRunningNodes ns = map (\<lambda>(k, n). (k, settle_node n)) ns"
  unfolding settleRunningNodes_def by (rule fromEntries_id) (simp add: obj_ok_def)

lemma settle_get: "obj_ok ns \<Longrightarrow> obj_get k (settleRunningNodes ns) = map_option settle_node (obj_get k ns)"
  by (simp add: settleRunningNodes_eq obj_get_map)

lemma update_keeps [simp]:
  "v_latestSequence (updateEventNode s e st) = v_latestSequence s"
  "events (updateEventNode s e st) = events s"
  "isRunning (updateEventNode s e st) = isRunning s"
  "needsRefresh (updateEventNode s e st) = needsRefresh s"
  "v_connectionStatus (updateEventNode s e st) = v_connectionStatus s"
  by (auto simp: updateEventNode_def Let_def split: option.split)

lemma append_keeps [simp]:
  "v_latestSequence (appendEventNodeMessage s e) = v_latestSequence s"
  "events (appendEventNodeMessage s e) = events s"
  "isRunning (appendEventNodeMessage s e) = isRunning s"
  "needsRefresh (appendEventNodeMessage s e) = needsRefresh s"
  "v_connectionStatus (appendEventNodeMessage s e) = v_connectionStatus s"
  by (auto simp: appendEventNodeMessage_def Let_def split: option.split event_channel.split)

lemma reduce_keeps:
  "v_latestSequence (reduceSopQualityCheckEvent s e) = max (v_latestSequence s) (ev_sequence e)"
  "events (reduceSopQualityCheckEvent s e) = events s @ [e]"
  by (auto simp: reduceSopQualityCheckEvent_def Let_def split: check_event_type.split)

lemma update_get:
  "obj_get k (nodes (updateEventNode s e st)) =
     (if named_node e = Some k
      then let n = current_node s k in Some (n\<lparr>node_status := st,
             streamText := orElse (ev_message e) (streamText n),
             node_error := (if st = Node_Error then (case ev_message e of None \<Rightarrow> node_error n | Some t \<Rightarrow> Some t) else None),
             firstSequence := Some (orElse (firstSequence n) (ev_sequence e))\<rparr>)
      else obj_get k (nodes s))"
  by (auto simp: updateEventNode_def Let_def split: option.split)

lemma update_ok: "obj_ok (nodes s) \<Longrightarrow> obj_ok (nodes (updateEventNode s e st))"
  by (auto simp: updateEventNode_def Let_def split: option.split)

lemma append_ok: "obj_ok (nodes s) \<Longrightarrow> obj_ok (nodes (appendEventNodeMessage s e))"
  by (auto simp: appendEventNodeMessage_def Let_def split: option.split event_channel.split)

lemma settle_ok: "obj_ok ns \<Longrightarrow> obj_ok (settleRunningNodes ns)"
  by (simp add: settleRunningNodes_def fromEntries_ok)

lemma reduce_nodes_ok: "nodes_ok s \<Longrightarrow> nodes_ok (reduceSopQualityCheckEvent s e)"
  by (auto simp: nodes_ok_def reduceSopQualityCheckEvent_def Let_def settle_ok
      intro!: update_ok append_ok split: check_event_type.split)

lemma append_other: "named_node e \<noteq> Some k \<Longrightarrow> obj_get k (nodes (appendEventNodeMessage s e)) = obj_get k (nodes s)"
  by (auto simp: appendEventNodeMessage_def Let_def split: option.split event_channel.split)

definition settles :: "SopQualityCheckEvent \<Rightarrow> bool" where
  "settles e \<longleftrightarrow> ev_type e = Ev_Completed"

lemma reduce_other:
  assumes "obj_ok (nodes s)" "named_node e \<noteq> Some k"
  shows "obj_get k (nodes (reduceSopQualityCheckEvent s e)) =
    (if settles e then map_option settle_node (obj_get k (nodes s)) else obj_get k (nodes s))"
  using assms
  by (auto simp: reduceSopQualityCheckEvent_def Let_def settle_get update_get append_other settles_def
      split: check_event_type.split)

lemma settle_first [simp]: "firstSequence (settle_node n) = firstSequence n"
  by (simp add: settle_node_def)

lemma append_first:
  "obj_get k (nodes s) = Some n \<Longrightarrow> firstSequence n = Some q \<Longrightarrow>
     \<exists>n'. obj_get k (nodes (appendEventNodeMessage s e)) = Some n' \<and> firstSequence n' = Some q"
  by (auto simp: appendEventNodeMessage_def Let_def current_node_def
      split: option.split event_channel.split)

lemma update_first:
  "obj_get k (nodes s) = Some n \<Longrightarrow> firstSequence n = Some q \<Longrightarrow>
     \<exists>n'. obj_get k (nodes (updateEventNode s e st)) = Some n' \<and> firstSequence n' = Some q"
  by (auto simp: update_get Let_def current_node_def)

lemma reduce_first:
  assumes "obj_ok (nodes s)" "obj_get k (nodes s) = Some n" "firstSequence n = Some q"
  shows "\<exists>n'. obj_get k (nodes (reduceSopQualityCheckEvent s e)) = Some n' \<and> firstSequence n' = Some q"
proof -
  let ?s = "s\<lparr>v_latestSequence := max (v_latestSequence s) (ev_sequence e), events := events s @ [e]\<rparr>"
  have g: "obj_get k (nodes ?s) = Some n" using assms(2) by simp
  note update_first [OF g assms(3), of e] append_first [OF g assms(3), of e]
  with assms show ?thesis
    by (cases "ev_type e") (auto simp: reduceSopQualityCheckEvent_def Let_def settle_get)
qed

lemma fold_first:
  "\<lbrakk>nodes_ok s; obj_get k (nodes s) = Some n; firstSequence n = Some q\<rbrakk> \<Longrightarrow>
     \<exists>n'. obj_get k (nodes (foldl reduceSopQualityCheckEvent s es)) = Some n' \<and> firstSequence n' = Some q"
proof (induction es arbitrary: s n)
  case (Cons e es)
  then obtain n' where "obj_get k (nodes (reduceSopQualityCheckEvent s e)) = Some n'" "firstSequence n' = Some q"
    using reduce_first [of s k n q e] by (auto simp: nodes_ok_def)
  with Cons.IH [OF reduce_nodes_ok [OF Cons.prems(1)]] show ?case by simp
qed simp

definition is_token :: "SopQualityCheckEvent \<Rightarrow> bool" where
  \<comment> \<open>an event that streams text\<close>
  "is_token e \<longleftrightarrow> ev_type e = Ev_Messages \<and> ev_channel e = None"

definition node_tokens :: "jstr \<Rightarrow> SopQualityCheckEvent list \<Rightarrow> jstr" where
  "node_tokens k es = concat (map (\<lambda>e. orElse (ev_message e) []) (filter (\<lambda>e. named_node e = Some k) es))"

definition node_text :: "SopQualityCheckViewState \<Rightarrow> jstr \<Rightarrow> jstr" where
  "node_text s k = streamText (current_node s k)"

lemma token_text:
  "is_token e \<Longrightarrow> node_text (reduceSopQualityCheckEvent s e) k = node_text s k @ node_tokens k [e]"
  by (auto simp: is_token_def node_text_def node_tokens_def reduceSopQualityCheckEvent_def Let_def
      appendEventNodeMessage_def current_node_def split: option.split)

lemma tokens_text:
  "\<forall>e \<in> set es. is_token e \<Longrightarrow>
     node_text (foldl reduceSopQualityCheckEvent s es) k = node_text s k @ node_tokens k es"
proof (induction es arbitrary: s)
  case (Cons e es)
  then show ?case using token_text [of e s k] by (simp add: node_tokens_def)
qed (simp add: node_tokens_def)

subsection \<open>Facts about the order of nodes\<close>

definition node_rank :: "SopQualityNodeState \<Rightarrow> int" where
  "node_rank n = orElse (firstSequence n) MAX_SAFE_INTEGER"

lemma node_cmp_le:
  "node_cmp lc l r \<le> 0 \<longleftrightarrow> node_rank (snd l) < node_rank (snd r)
     \<or> node_rank (snd l) = node_rank (snd r) \<and> lc (fst l) (fst r) \<le> 0"
  by (auto simp: node_cmp_def node_rank_def Let_def)

lemma node_cmp_ok: "cmp_ok lc \<Longrightarrow> cmp_ok (node_cmp lc)"
proof -
  assume lc: "cmp_ok lc"
  have "node_cmp lc x y \<le> 0 \<or> node_cmp lc y x \<le> 0" for x y
  proof (cases "node_rank (snd x)" "node_rank (snd y)" rule: linorder_cases)
    case equal
    with lc show ?thesis by (auto simp: node_cmp_le cmp_ok_def)
  qed (auto simp: node_cmp_le)
  moreover have "node_cmp lc x z \<le> 0" if "node_cmp lc x y \<le> 0" "node_cmp lc y z \<le> 0" for x y z
  proof -
    from that consider "node_rank (snd x) < node_rank (snd z)"
      | "node_rank (snd x) = node_rank (snd z)" "lc (fst x) (fst y) \<le> 0" "lc (fst y) (fst z) \<le> 0"
      unfolding node_cmp_le by linarith
    then show ?thesis
    proof cases
      case 2
      with lc have "lc (fst x) (fst z) \<le> 0" unfolding cmp_ok_def by blast
      with 2 show ?thesis by (simp add: node_cmp_le)
    qed (simp add: node_cmp_le)
  qed
  ultimately show ?thesis unfolding cmp_ok_def by blast
qed

lemma step_cmp_ok: "cmp_ok (step_cmp fs)"
  by (auto simp: cmp_ok_def step_cmp_def)

lemma not_prototype_in: "k \<notin> set object_prototype_keys \<Longrightarrow> obj_in k ob \<longleftrightarrow> k \<in> set (obj_keys ob)"
  by (simp add: obj_in_def)

lemma ordered_ids_set:
  assumes "set registered \<inter> set object_prototype_keys = {}"
  shows "set (getOrderedNodeIds lc s registered) = set (obj_keys (nodes s))"
proof -
  have "obj_in k (nodes s) \<longleftrightarrow> k \<in> set (obj_keys (nodes s))" if "k \<in> set registered" for k
    using that assms by (intro not_prototype_in) auto
  then show ?thesis by (force simp: getOrderedNodeIds_def obj_keys_def)
qed

lemma ordered_ids_distinct:
  assumes "set registered \<inter> set object_prototype_keys = {}" "distinct registered" "obj_ok (nodes s)"
  shows "distinct (getOrderedNodeIds lc s registered)"
proof -
  have "distinct (map fst (filter (\<lambda>(k, n). \<not> List.member registered k) (nodes s)))"
    using assms(3) by (simp add: obj_ok_def obj_keys_def distinct_map_filter)
  then show ?thesis using assms(2) by (auto simp: getOrderedNodeIds_def distinct_map_js_sort)
qed

subsection \<open>Facts about the projection\<close>

definition chunks_of :: "jstr \<Rightarrow> SessionMessage list \<Rightarrow> jstr list" where
  \<comment> \<open>the persisted texts of a step, in order\<close>
  "chunks_of stp ms = map msg_content (filter (\<lambda>m. step_of m = Some stp) ms)"

definition first_of :: "jstr \<Rightarrow> SessionMessage list \<Rightarrow> int option" where
  "first_of stp ms = map_option msg_sequence (find (\<lambda>m. step_of m = Some stp) ms)"

definition steps_of :: "SessionMessage list \<Rightarrow> jstr set" where
  "steps_of ms = {stp. \<exists>m \<in> set ms. step_of m = Some stp}"

definition acc_ok :: "step_acc \<Rightarrow> bool" where
  "acc_ok acc \<longleftrightarrow> distinct (seenSteps acc) \<and> set (obj_keys (grouped acc)) = set (seenSteps acc)
     \<and> set (obj_keys (firstSeq acc)) = set (seenSteps acc)
     \<and> set (seenSteps acc) \<inter> set object_prototype_keys = {}"

lemma open_step_ok: "acc_ok acc \<Longrightarrow> acc_ok (open_step stp n acc)"
  by (auto simp: acc_ok_def open_step_def obj_in_def)

lemma open_step_seen:
  "acc_ok acc \<Longrightarrow> stp \<notin> set object_prototype_keys \<Longrightarrow>
     set (seenSteps (open_step stp n acc)) = insert stp (set (seenSteps acc))"
  by (auto simp: acc_ok_def open_step_def obj_in_def)

lemma open_step_prototype: "stp \<in> set object_prototype_keys \<Longrightarrow> open_step stp n acc = acc"
  by (simp add: open_step_def obj_in_def)

lemma open_step_get:
  assumes "acc_ok acc" "stp \<notin> set object_prototype_keys"
  shows "obj_get k (grouped (open_step stp n acc)) =
      (if k = stp \<and> obj_get k (grouped acc) = None then Some [] else obj_get k (grouped acc))"
    and "obj_get k (firstSeq (open_step stp n acc)) =
      (if k = stp \<and> obj_get k (firstSeq acc) = None then Some n else obj_get k (firstSeq acc))"
proof -
  have "obj_get stp (grouped acc) = None \<longleftrightarrow> obj_get stp (firstSeq acc) = None"
    using assms(1) by (simp add: acc_ok_def obj_get_None_iff)
  then show "obj_get k (grouped (open_step stp n acc)) =
      (if k = stp \<and> obj_get k (grouped acc) = None then Some [] else obj_get k (grouped acc))"
    "obj_get k (firstSeq (open_step stp n acc)) =
      (if k = stp \<and> obj_get k (firstSeq acc) = None then Some n else obj_get k (firstSeq acc))"
    using assms(2) by (auto simp: open_step_def not_prototype_in obj_get_None_iff)
qed

definition collected :: "step_acc \<Rightarrow> SessionMessage list \<Rightarrow> step_acc \<Rightarrow> bool" where
  "collected acc ms acc' \<longleftrightarrow> acc_ok acc'
     \<and> set (seenSteps acc') = set (seenSteps acc) \<union> steps_of ms
     \<and> (\<forall>k. orElse (obj_get k (grouped acc')) [] = orElse (obj_get k (grouped acc)) [] @ chunks_of k ms)
     \<and> (\<forall>k. obj_get k (firstSeq acc') =
          (case obj_get k (firstSeq acc) of None \<Rightarrow> first_of k ms | Some n \<Rightarrow> Some n))"

lemma collect_messages_collected:
  "\<lbrakk>acc_ok acc; steps_of ms \<inter> set object_prototype_keys = {}\<rbrakk> \<Longrightarrow>
     \<exists>acc'. collect_messages acc ms = Inr acc' \<and> collected acc ms acc'"
proof (induction ms arbitrary: acc)
  case Nil
  then show ?case
    by (auto simp: collected_def steps_of_def chunks_of_def first_of_def split: option.split)
next
  case (Cons m ms)
  have rest: "steps_of ms \<inter> set object_prototype_keys = {}"
    using Cons.prems(2) by (auto simp: steps_of_def)
  show ?case
  proof (cases "step_of m")
    case None
    with Cons.IH [OF Cons.prems(1) rest] show ?thesis
      by (auto simp: collected_def steps_of_def chunks_of_def first_of_def split: option.split)
  next
    case (Some stp)
    then have np: "stp \<notin> set object_prototype_keys"
      using Cons.prems(2) by (auto simp: steps_of_def)
    let ?o = "open_step stp (msg_sequence m) acc"
    note og = open_step_get [OF Cons.prems(1) np]
    obtain chunks where ch: "obj_get stp (grouped ?o) = Some chunks" "chunks = orElse (obj_get stp (grouped acc)) []"
      by (cases "obj_get stp (grouped acc)") (auto simp: og)
    let ?a = "?o\<lparr>grouped := obj_set stp (chunks @ [msg_content m]) (grouped ?o)\<rparr>"
    have seen: "set (seenSteps ?a) = insert stp (set (seenSteps acc))"
      using open_step_seen [OF Cons.prems(1) np] by simp
    have "acc_ok ?a" using open_step_ok [OF Cons.prems(1), of stp "msg_sequence m"] ch(1) [THEN obj_get_Some_keys]
      by (auto simp: acc_ok_def)
    from Cons.IH [OF this rest] obtain acc' where a: "collect_messages ?a ms = Inr acc'" "collected ?a ms acc'" by blast
    have "collect_messages acc (m # ms) = Inr acc'" using Some ch a(1) by (simp add: Let_def)
    moreover have "collected acc (m # ms) acc'"
      unfolding collected_def
    proof (intro conjI allI)
      show "acc_ok acc'" using a(2) by (simp add: collected_def)
      show "set (seenSteps acc') = set (seenSteps acc) \<union> steps_of (m # ms)"
        using a(2) seen Some by (auto simp: collected_def steps_of_def)
      fix k
      have "orElse (obj_get k (grouped acc')) [] = orElse (obj_get k (grouped ?a)) [] @ chunks_of k ms"
        using a(2) unfolding collected_def by blast
      then show "orElse (obj_get k (grouped acc')) [] = orElse (obj_get k (grouped acc)) [] @ chunks_of k (m # ms)"
        using Some ch by (auto simp: og chunks_of_def)
      have "obj_get k (firstSeq acc') =
          (case obj_get k (firstSeq ?a) of None \<Rightarrow> first_of k ms | Some n \<Rightarrow> Some n)"
        using a(2) unfolding collected_def by blast
      then show "obj_get k (firstSeq acc') =
          (case obj_get k (firstSeq acc) of None \<Rightarrow> first_of k (m # ms) | Some n \<Rightarrow> Some n)"
        using Some by (auto simp: og first_of_def split: option.split)
    qed
    ultimately show ?thesis by blast
  qed
qed

lemma collect_messages_error:
  "\<lbrakk>acc_ok acc; steps_of ms \<inter> set object_prototype_keys \<noteq> {}\<rbrakk> \<Longrightarrow> collect_messages acc ms = Inl TypeError"
proof (induction ms arbitrary: acc)
  case (Cons m ms)
  show ?case
  proof (cases "step_of m")
    case None
    with Cons show ?thesis by (auto simp: steps_of_def)
  next
    case (Some stp)
    show ?thesis
    proof (cases "stp \<in> set object_prototype_keys")
      case True
      then have "obj_get stp (grouped acc) = None"
        using Cons.prems(1) by (auto simp: acc_ok_def obj_get_None_iff)
      with True Some show ?thesis by (simp add: open_step_prototype)
    next
      case False
      let ?o = "open_step stp (msg_sequence m) acc"
      obtain chunks where ch: "obj_get stp (grouped ?o) = Some chunks"
        by (cases "obj_get stp (grouped acc)") (auto simp: open_step_get(1) [OF Cons.prems(1) False])
      have "acc_ok (?o\<lparr>grouped := obj_set stp (chunks @ [msg_content m]) (grouped ?o)\<rparr>)"
        using open_step_ok [OF Cons.prems(1), of stp "msg_sequence m"] ch [THEN obj_get_Some_keys]
        by (auto simp: acc_ok_def)
      moreover have "steps_of ms \<inter> set object_prototype_keys \<noteq> {}"
        using Cons.prems(2) Some False by (auto simp: steps_of_def)
      ultimately show ?thesis using Some ch Cons.IH by (simp add: Let_def)
    qed
  qed
qed (simp add: steps_of_def)

definition step_keys :: "jstr list \<Rightarrow> jstr set" where
  "step_keys ks = {stp. str ''step:'' @ stp \<in> set ks}"

definition seen_live :: "int \<Rightarrow> jstr set \<Rightarrow> step_acc \<Rightarrow> step_acc \<Rightarrow> bool" where
  "seen_live n new acc acc' \<longleftrightarrow> acc_ok acc' \<and> set (seenSteps acc') = set (seenSteps acc) \<union> new
     \<and> (\<forall>k. orElse (obj_get k (grouped acc')) [] = orElse (obj_get k (grouped acc)) [])
     \<and> (\<forall>k. obj_get k (firstSeq acc') =
          (case obj_get k (firstSeq acc) of Some q \<Rightarrow> Some q | None \<Rightarrow> if k \<in> new then Some n else None))"

lemma seen_live_refl: "acc_ok acc \<Longrightarrow> seen_live n {} acc acc"
  by (simp add: seen_live_def split: option.split)

lemma seen_live_trans:
  "seen_live n A acc acc' \<Longrightarrow> seen_live n B acc' acc'' \<Longrightarrow> seen_live n (A \<union> B) acc acc''"
  by (auto simp: seen_live_def split: option.splits)

lemma seen_live_open:
  assumes "acc_ok acc"
  shows "seen_live n ({stp} - set object_prototype_keys) acc (open_step stp n acc)"
proof (cases "stp \<in> set object_prototype_keys")
  case True
  with seen_live_refl [OF assms] show ?thesis by (simp add: open_step_prototype)
next
  case False
  then show ?thesis
    using open_step_ok [OF assms] open_step_seen [OF assms False] open_step_get [OF assms False]
    by (auto simp: seen_live_def split: option.split)
qed

lemma startsWith_step: "startsWith key (str ''step:'') \<Longrightarrow> key = str ''step:'' @ drop 5 key"
  by (auto simp: startsWith_iff)

lemma see_live_Cons:
  "see_live n (key # ks) (acc, l) =
     (if startsWith key (str ''step:'') then see_live n ks (open_step (drop 5 key) n acc, Some (drop 5 key))
      else see_live n ks (acc, l))"
  by (simp add: Let_def eval_nat_numeral)

lemma see_live_seen:
  "acc_ok acc \<Longrightarrow> seen_live n (step_keys ks - set object_prototype_keys) acc (fst (see_live n ks (acc, l)))"
proof (induction ks arbitrary: acc l)
  case Nil
  then show ?case by (simp add: step_keys_def seen_live_refl)
next
  case (Cons key ks)
  show ?case
  proof (cases "startsWith key (str ''step:'')")
    case False
    then have "step_keys (key # ks) = step_keys ks" by (auto simp: step_keys_def startsWith_iff)
    with False Cons show ?thesis by simp
  next
    case True
    let ?o = "open_step (drop 5 key) n acc"
    have "step_keys (key # ks) = insert (drop 5 key) (step_keys ks)"
      using startsWith_step [OF True] by (auto simp: step_keys_def)
    moreover have "seen_live n (({drop 5 key} - set object_prototype_keys) \<union> (step_keys ks - set object_prototype_keys))
        acc (fst (see_live n ks (?o, Some (drop 5 key))))"
      by (rule seen_live_trans [OF seen_live_open [OF Cons.prems] Cons.IH [OF open_step_ok [OF Cons.prems]]])
    moreover have "({drop 5 key} - set object_prototype_keys) \<union> (step_keys ks - set object_prototype_keys)
        = insert (drop 5 key) (step_keys ks) - set object_prototype_keys" by blast
    ultimately show ?thesis using True by (simp only: see_live_Cons if_True)
  qed
qed

lemma see_live_last:
  "snd (see_live n ks (acc, l)) =
     (case filter (\<lambda>k. startsWith k (str ''step:'')) ks of [] \<Rightarrow> l | k # ks' \<Rightarrow> Some (drop 5 (last (k # ks'))))"
  by (induction ks arbitrary: acc l) (auto simp: Let_def eval_nat_numeral split: list.split)

definition live_step_names :: "SessionViewState \<Rightarrow> bool \<Rightarrow> jstr set" where
  "live_step_names s running = (if running
     then (step_keys (obj_keys (liveBuffers s)) \<union> step_keys (obj_keys (thinking s))) - set object_prototype_keys
     else {})"

lemma live_steps_seen:
  "acc_ok acc \<Longrightarrow> seen_live (latestSequence s + 1) (live_step_names s running) acc (fst (live_steps s running (acc, l)))"
proof (cases running)
  case True
  assume ok: "acc_ok acc"
  let ?n = "latestSequence s + 1"
  obtain acc1 l1 where 1: "see_live ?n (obj_keys (liveBuffers s)) (acc, l) = (acc1, l1)" by fastforce
  from see_live_seen [OF ok, of ?n "obj_keys (liveBuffers s)" l] 1
  have a: "seen_live ?n (step_keys (obj_keys (liveBuffers s)) - set object_prototype_keys) acc acc1" by simp
  then have "acc_ok acc1" by (simp add: seen_live_def)
  from seen_live_trans [OF a see_live_seen [OF this, of ?n "obj_keys (thinking s)" l1]] True 1
  show ?thesis by (simp add: live_steps_def live_step_names_def Un_Diff)
qed (simp add: live_steps_def live_step_names_def seen_live_refl)

lemma sortSteps_set [simp]: "set (sortSteps seen fs) = set seen"
  by (auto simp: sortSteps_def)

lemma sortSteps_distinct: "distinct seen \<Longrightarrow> distinct (sortSteps seen fs)"
proof -
  assume "distinct seen"
  moreover have "distinct ORDERED_STEPS" by (simp add: ORDERED_STEPS_def)
  ultimately show ?thesis by (auto simp: sortSteps_def)
qed

lemma fold_obj_set:
  "foldl (\<lambda>ob k. obj_set k (f k) ob) [] ks = fromEntries (map (\<lambda>k. (k, f k)) ks)"
  by (simp add: fromEntries_def foldl_map)

lemma obj_get_fold: "obj_get k (fromEntries (map (\<lambda>k. (k, f k)) ks)) = (if k \<in> set ks then Some (f k) else None)"
  by (simp add: obj_get_fromEntries rev_map map_of_map_restrict restrict_map_def)

lemma obj_ok_no_index: "\<forall>k \<in> set ks. \<not> is_index k \<Longrightarrow> distinct ks \<Longrightarrow> obj_ok (map (\<lambda>k. (k, f k)) ks)"
  by (induction ks) (auto simp: obj_ok_def obj_keys_def key_before_def)

definition empty_acc :: step_acc where
  "empty_acc = \<lparr>seenSteps = [], grouped = [], firstSeq = []\<rparr>"

lemma empty_acc_ok: "acc_ok empty_acc"
  by (simp add: empty_acc_def acc_ok_def obj_keys_def)

lemma first_of_steps: "first_of k ms = None \<longleftrightarrow> k \<notin> steps_of ms"
  by (auto simp: first_of_def steps_of_def find_None_iff)

definition projected_by :: "SessionViewState \<Rightarrow> bool \<Rightarrow> step_acc \<Rightarrow> jstr option \<Rightarrow> SopProjection \<Rightarrow> bool" where
  "projected_by s running acc lastSeen p \<longleftrightarrow>
     p = \<lparr>p_latestSequence = max_from (latestSequence s) (map msg_sequence (messages s)),
          p_nodes = fromEntries (map (\<lambda>stp. (stp, project_node s running lastSeen acc stp)) (sortSteps (seenSteps acc) (firstSeq acc)))\<rparr>
     \<and> acc_ok acc \<and> set (seenSteps acc) = steps_of (messages s) \<union> live_step_names s running
     \<and> (\<forall>k. orElse (obj_get k (grouped acc)) [] = chunks_of k (messages s))
     \<and> (\<forall>k. obj_get k (firstSeq acc) = (case first_of k (messages s) of Some q \<Rightarrow> Some q
          | None \<Rightarrow> if k \<in> live_step_names s running then Some (latestSequence s + 1) else None))"

lemma project_unfold:
  assumes "steps_of (messages s) \<inter> set object_prototype_keys = {}"
  shows "\<exists>p acc lastSeen. projectSessionStateToSopView s running = Inr p \<and> projected_by s running acc lastSeen p"
proof -
  from collect_messages_collected [OF empty_acc_ok assms] obtain acc0 where
    0: "collect_messages empty_acc (messages s) = Inr acc0" "collected empty_acc (messages s) acc0" by blast
  let ?l = "if seenSteps acc0 = [] then None else Some (last (seenSteps acc0))"
  obtain acc lastSeen where 1: "live_steps s running (acc0, ?l) = (acc, lastSeen)" by fastforce
  have ok: "acc_ok acc0" using 0(2) by (simp add: collected_def)
  have live: "seen_live (latestSequence s + 1) (live_step_names s running) acc0 acc"
    using live_steps_seen [OF ok, of s running ?l] 1 by simp
  let ?p = "\<lparr>p_latestSequence = max_from (latestSequence s) (map msg_sequence (messages s)),
       p_nodes = fromEntries (map (\<lambda>stp. (stp, project_node s running lastSeen acc stp)) (sortSteps (seenSteps acc) (firstSeq acc)))\<rparr>"
  have "projectSessionStateToSopView s running = Inr ?p"
    using 0(1) 1 by (simp add: projectSessionStateToSopView_def empty_acc_def fold_obj_set)
  moreover have "projected_by s running acc lastSeen ?p"
    using live 0(2)
    by (auto simp: projected_by_def seen_live_def collected_def empty_acc_def split: option.split)
  ultimately show ?thesis by blast
qed

lemma projected_first:
  "projected_by s running acc l p \<Longrightarrow> k \<in> set (seenSteps acc) \<Longrightarrow>
     obj_get k (firstSeq acc) = Some (orElse (first_of k (messages s)) (latestSequence s + 1))"
  using first_of_steps [of k "messages s"] by (auto simp: projected_by_def split: option.split)

lemma projected_get:
  "projected_by s running acc l p \<Longrightarrow> obj_get k (p_nodes p) =
     (if k \<in> set (seenSteps acc) then Some (project_node s running l acc k) else None)"
  by (simp add: projected_by_def obj_get_fold)

lemma projected_keys: "projected_by s running acc l p \<Longrightarrow> set (obj_keys (p_nodes p)) = set (seenSteps acc)"
  using projected_get [of s running acc l p]
  by (metis (no_types, lifting) obj_get_None_iff option.distinct(1) subsetI subset_antisym)

lemma project_error:
  "steps_of (messages s) \<inter> set object_prototype_keys \<noteq> {} \<Longrightarrow> projectSessionStateToSopView s running = Inl TypeError"
  using collect_messages_error [OF empty_acc_ok, of "messages s"]
  by (simp add: projectSessionStateToSopView_def empty_acc_def)

lemma project_node_first: "firstSequence (project_node s r l acc k) = obj_get k (firstSeq acc)"
  by (simp add: project_node_def Let_def)

lemma project_node_running: "node_status (project_node s r l acc k) = Node_Running \<longleftrightarrow> r \<and> l = Some k"
  by (simp add: project_node_def Let_def)

lemma project_node_done:
  "node_status (project_node s r l acc k) \<noteq> Node_Running \<Longrightarrow>
     node_status (project_node s r l acc k) = Node_Done
     \<and> streamText (project_node s r l acc k) = join [10] (orElse (obj_get k (grouped acc)) [])"
  by (auto simp: project_node_def Let_def split: if_splits)

subsection \<open>Properties\<close>

text \<open>C25. A run of check events from a well-formed state keeps it well formed, appends
  exactly those events to the history, and leaves \<open>latestSequence\<close> at the maximum of the
  initial one and the events'. A node's \<open>firstSequence\<close>, once set, never changes, and the node
  never disappears.\<close>
theorem check_history:
  assumes "nodes_ok s"
  shows "nodes_ok (foldl reduceSopQualityCheckEvent s es)
    \<and> events (foldl reduceSopQualityCheckEvent s es) = events s @ es
    \<and> v_latestSequence (foldl reduceSopQualityCheckEvent s es) = max_from (v_latestSequence s) (map ev_sequence es)
    \<and> (\<forall>k n q. obj_get k (nodes s) = Some n \<and> firstSequence n = Some q \<longrightarrow>
        (\<exists>n'. obj_get k (nodes (foldl reduceSopQualityCheckEvent s es)) = Some n' \<and> firstSequence n' = Some q))"
proof -
  have "nodes_ok (foldl reduceSopQualityCheckEvent s es)
    \<and> events (foldl reduceSopQualityCheckEvent s es) = events s @ es
    \<and> v_latestSequence (foldl reduceSopQualityCheckEvent s es) = max_from (v_latestSequence s) (map ev_sequence es)"
    using assms by (induction es arbitrary: s) (auto simp: reduce_nodes_ok reduce_keeps)
  with fold_first [OF assms] show ?thesis by blast
qed

definition demo_event :: "int \<Rightarrow> check_event_type \<Rightarrow> string \<Rightarrow> string \<Rightarrow> SopQualityCheckEvent" where
  "demo_event q ty nd t = \<lparr>ev_check_id = str ''c'', ev_sequence = q, ev_type = ty, ev_node = Some (str nd),
     ev_channel = None, ev_checkpoint_id = None, ev_task_id = None, ev_message = Some (str t), ev_created_at = None\<rparr>"

theorem check_history_witness:
  "v_latestSequence (foldl reduceSopQualityCheckEvent createInitialSopQualityCheckViewState
     [demo_event 4 Ev_Started ''load'' ''go'', demo_event 9 Ev_Messages ''load'' ''ab'', demo_event 7 Ev_Completed ''x'' ''y'']) = 9"
proof -
  have "nodes_ok createInitialSopQualityCheckViewState"
    by (simp add: nodes_ok_def createInitialSopQualityCheckViewState_def)
  from check_history [OF this, of "[demo_event 4 Ev_Started ''load'' ''go'', demo_event 9 Ev_Messages ''load'' ''ab'', demo_event 7 Ev_Completed ''x'' ''y'']"]
  show ?thesis by (simp add: demo_event_def createInitialSopQualityCheckViewState_def)
qed

text \<open>A completed event ends the check: no node is left running, every other node is as it
  was, no node is added or lost or moved, the check is not running, the stream is closed and a
  refresh is requested.\<close>
theorem completed_settles_all_nodes:
  assumes "nodes_ok s" "ev_type e = Ev_Completed"
  defines "t \<equiv> reduceSopQualityCheckEvent s e"
  shows "\<not> isRunning t \<and> needsRefresh t \<and> v_connectionStatus t = Closed
    \<and> obj_keys (nodes t) = obj_keys (nodes s)
    \<and> (\<forall>k. obj_get k (nodes t) = map_option (\<lambda>n. if node_status n = Node_Running then n\<lparr>node_status := Node_Done\<rparr> else n) (obj_get k (nodes s)))"
  using assms
  by (auto simp: reduceSopQualityCheckEvent_def Let_def nodes_ok_def settleRunningNodes_eq obj_get_map
      settle_node_def intro!: map_option_cong)

theorem completed_settles_all_nodes_witness:
  "\<not> isRunning (reduceSopQualityCheckEvent createInitialSopQualityCheckViewState (demo_event 1 Ev_Completed ''a'' ''b''))"
proof -
  have "nodes_ok createInitialSopQualityCheckViewState" "ev_type (demo_event 1 Ev_Completed ''a'' ''b'') = Ev_Completed"
    by (simp_all add: nodes_ok_def createInitialSopQualityCheckViewState_def demo_event_def)
  from completed_settles_all_nodes [OF this] show ?thesis by blast
qed

text \<open>Streaming tokens: after a run of message events without a channel, the text of every
  node is its earlier text followed by the messages of the events that name it, in order; events
  for other nodes never mix in.\<close>
theorem tokens_accumulate_per_node:
  assumes "\<forall>e \<in> set es. is_token e"
  shows "node_text (foldl reduceSopQualityCheckEvent s es) k = node_text s k @ node_tokens k es"
  using assms by (rule tokens_text)

theorem tokens_accumulate_per_node_witness:
  "node_text (foldl reduceSopQualityCheckEvent createInitialSopQualityCheckViewState
     [demo_event 1 Ev_Messages ''a'' ''he'', demo_event 2 Ev_Messages ''b'' ''xx'', demo_event 3 Ev_Messages ''a'' ''llo'']) (str ''a'')
   = str ''hello''"
proof -
  have "\<forall>e \<in> set [demo_event 1 Ev_Messages ''a'' ''he'', demo_event 2 Ev_Messages ''b'' ''xx'', demo_event 3 Ev_Messages ''a'' ''llo'']. is_token e"
    by (simp add: is_token_def demo_event_def)
  from tokens_accumulate_per_node [OF this] show ?thesis
    by (simp add: node_text_def node_tokens_def current_node_def createNodeState_def named_node_def
        createInitialSopQualityCheckViewState_def demo_event_def nonempty_def str_append [symmetric])
qed

text \<open>The display order of nodes lists every node exactly once: first the registered ones in
  the registered order, then the others by first sequence number (nodes without one last) and by
  \<open>localeCompare\<close> for equal numbers, whenever \<open>localeCompare\<close> is a total preorder and
  the registered identifiers are distinct and not members of \<open>Object.prototype\<close>.\<close>
theorem node_order_is_complete:
  assumes "cmp_ok lc" "nodes_ok s" "distinct registered" "set registered \<inter> set object_prototype_keys = {}"
  shows "distinct (getOrderedNodeIds lc s registered)
    \<and> set (getOrderedNodeIds lc s registered) = set (obj_keys (nodes s))
    \<and> (\<exists>rest. getOrderedNodeIds lc s registered = filter (\<lambda>k. k \<in> set (obj_keys (nodes s))) registered @ map fst rest
        \<and> set rest \<subseteq> set (nodes s)
        \<and> sorted_wrt (\<lambda>l r. node_rank (snd l) < node_rank (snd r)
            \<or> node_rank (snd l) = node_rank (snd r) \<and> lc (fst l) (fst r) \<le> 0) rest)"
proof -
  let ?rest = "js_sort (node_cmp lc) (filter (\<lambda>(k, n). \<not> List.member registered k) (nodes s))"
  have "sorted_wrt (\<lambda>l r. node_cmp lc l r \<le> 0) ?rest" using assms(1) by (intro sorted_js_sort node_cmp_ok)
  moreover have "filter (\<lambda>k. obj_in k (nodes s)) registered = filter (\<lambda>k. k \<in> set (obj_keys (nodes s))) registered"
    using assms(4) by (intro filter_cong refl not_prototype_in) auto
  ultimately show ?thesis
    using assms(2-4) ordered_ids_set [OF assms(4)] ordered_ids_distinct [OF assms(4,3)]
    by (auto simp: getOrderedNodeIds_def node_cmp_le nodes_ok_def intro!: exI [of _ ?rest])
qed

definition demo_check_state :: SopQualityCheckViewState where
  "demo_check_state = foldl reduceSopQualityCheckEvent createInitialSopQualityCheckViewState
     [demo_event 5 Ev_Started ''z'' ''x'', demo_event 2 Ev_Started ''y'' ''x'', demo_event 9 Ev_Started ''load'' ''x'']"

theorem node_order_is_complete_witness:
  "set (getOrderedNodeIds (\<lambda>_ _. 0) demo_check_state [str ''load'', str ''other'']) = set (obj_keys (nodes demo_check_state))
   \<and> getOrderedNodeIds (\<lambda>_ _. 0) demo_check_state [str ''load'', str ''other''] = [str ''load'', str ''y'', str ''z'']"
proof -
  have "nodes_ok createInitialSopQualityCheckViewState"
    by (simp add: nodes_ok_def createInitialSopQualityCheckViewState_def)
  then have "nodes_ok demo_check_state"
    unfolding demo_check_state_def by (simp add: reduce_nodes_ok)
  moreover have "cmp_ok (\<lambda>_ _. 0 :: int)" by (simp add: cmp_ok_def)
  moreover have "set [str ''load'', str ''other''] \<inter> set object_prototype_keys = {}"
    by (simp add: object_prototype_keys_def)
  ultimately have "set (getOrderedNodeIds (\<lambda>_ _. 0) demo_check_state [str ''load'', str ''other'']) = set (obj_keys (nodes demo_check_state))"
    using node_order_is_complete [of "\<lambda>_ _. 0" demo_check_state "[str ''load'', str ''other'']"] by auto
  moreover have "getOrderedNodeIds (\<lambda>_ _. 0) demo_check_state [str ''load'', str ''other''] = [str ''load'', str ''y'', str ''z'']"
    by code_simp
  ultimately show ?thesis by blast
qed

lemma projected_nodes:
  assumes "steps_of (messages s) \<inter> set object_prototype_keys = {}"
  shows "\<exists>p. projectSessionStateToSopView s running = Inr p
    \<and> p_latestSequence p = max_from (latestSequence s) (map msg_sequence (messages s))
    \<and> obj_ok (p_nodes p)
    \<and> set (obj_keys (p_nodes p)) = steps_of (messages s) \<union> live_step_names s running
    \<and> (\<forall>k n. obj_get k (p_nodes p) = Some n \<longrightarrow>
         firstSequence n = Some (orElse (first_of k (messages s)) (latestSequence s + 1))
         \<and> (node_status n = Node_Running \<or> node_status n = Node_Done \<and> streamText n = join [10] (chunks_of k (messages s))))
    \<and> (\<exists>l. \<forall>k n. obj_get k (p_nodes p) = Some n \<and> node_status n = Node_Running \<longrightarrow> running \<and> k = l)"
proof -
  obtain p acc l where p: "projectSessionStateToSopView s running = Inr p" and pb: "projected_by s running acc l p"
    using project_unfold [OF assms] by blast
  have each: "firstSequence n = Some (orElse (first_of k (messages s)) (latestSequence s + 1))
      \<and> (node_status n = Node_Running \<or> node_status n = Node_Done \<and> streamText n = join [10] (chunks_of k (messages s)))"
    if "obj_get k (p_nodes p) = Some n" for k n
  proof -
    from that have k: "k \<in> set (seenSteps acc)" "n = project_node s running l acc k"
      unfolding projected_get [OF pb] by (simp_all split: if_splits)
    have "orElse (obj_get k (grouped acc)) [] = chunks_of k (messages s)"
      using pb by (simp add: projected_by_def)
    with projected_first [OF pb k(1)] project_node_done [of s running l acc k]
    show ?thesis unfolding k(2) project_node_first by metis
  qed
  have "\<forall>k n. obj_get k (p_nodes p) = Some n \<and> node_status n = Node_Running \<longrightarrow> running \<and> k = the l"
    unfolding projected_get [OF pb] by (auto simp: project_node_running split: if_splits)
  moreover have "obj_ok (p_nodes p)" "p_latestSequence p = max_from (latestSequence s) (map msg_sequence (messages s))"
    "set (obj_keys (p_nodes p)) = steps_of (messages s) \<union> live_step_names s running"
    using pb projected_keys [OF pb] by (simp_all add: projected_by_def fromEntries_ok)
  ultimately show ?thesis using p each by blast
qed


definition demo_view :: SessionViewState where
  "demo_view = reduce_all (hydrateSessionViewState
     [demo_message 1 ''load_sop'' ''one'', demo_message 2 ''extra'' ''two'', demo_message 3 ''load_sop'' ''three''])
     [Message_Delta 7 None Assistant (str ''live'') [(str ''step'', JStr (str ''review_sop''))]]"

lemma demo_view_steps: "steps_of (messages demo_view) \<inter> set object_prototype_keys = {}"
proof -
  have "messages demo_view = [demo_message 1 ''load_sop'' ''one'', demo_message 2 ''extra'' ''two'', demo_message 3 ''load_sop'' ''three'']"
    by (simp add: demo_view_def reduce_all_def Let_def)
  then have "steps_of (messages demo_view) = {str ''load_sop'', str ''extra''}"
    by (auto simp: steps_of_def step_of_def demo_message_def readString_def obj_get_def nonempty_def)
  then show ?thesis by (simp add: object_prototype_keys_def)
qed


text \<open>Nodes are projected in the workflow's order: when no step is named by an array index,
  the known steps come first, in the order load, review, summarize, submit, and the other steps
  follow by the number of their first message.\<close>
theorem projection_order:
  assumes "projectSessionStateToSopView s running = Inr p" "\<forall>k \<in> set (obj_keys (p_nodes p)). \<not> is_index k"
  shows "\<exists>rest. obj_keys (p_nodes p) = filter (\<lambda>k. k \<in> set (obj_keys (p_nodes p))) ORDERED_STEPS @ rest
    \<and> sorted_wrt (\<lambda>j k. orElse (first_of j (messages s)) (latestSequence s + 1)
         \<le> orElse (first_of k (messages s)) (latestSequence s + 1)) rest"
proof -
  have safe: "steps_of (messages s) \<inter> set object_prototype_keys = {}"
    using project_error [of s running] assms(1) by (metis sum.distinct(1))
  obtain acc l where pb: "projected_by s running acc l p"
    using project_unfold [OF safe, of running] assms(1) by auto
  let ?ks = "sortSteps (seenSteps acc) (firstSeq acc)" and ?f = "project_node s running l acc"
  have "obj_ok (map (\<lambda>k. (k, ?f k)) ?ks)"
    using assms(2) projected_keys [OF pb] pb
    by (intro obj_ok_no_index sortSteps_distinct) (auto simp: projected_by_def acc_ok_def)
  then have keys: "obj_keys (p_nodes p) = ?ks"
    using pb by (simp add: projected_by_def fromEntries_id obj_keys_def comp_def)
  let ?rest = "js_sort (step_cmp (firstSeq acc)) (filter (\<lambda>stp. \<not> List.member ORDERED_STEPS stp) (seenSteps acc))"
  have "sorted_wrt (\<lambda>j k. step_cmp (firstSeq acc) j k \<le> 0) ?rest" by (rule sorted_js_sort [OF step_cmp_ok])
  then have "sorted_wrt (\<lambda>j k. orElse (first_of j (messages s)) (latestSequence s + 1)
         \<le> orElse (first_of k (messages s)) (latestSequence s + 1)) ?rest"
    by (rule sorted_wrt_mono_rel [rotated]) (auto simp: step_cmp_def projected_first [OF pb])
  moreover have "?ks = filter (\<lambda>k. k \<in> set ?ks) ORDERED_STEPS @ ?rest"
    unfolding sortSteps_set by (auto simp: sortSteps_def intro: filter_cong)
  ultimately show ?thesis unfolding keys by blast
qed

theorem projection_order_witness:
  "\<exists>p. projectSessionStateToSopView demo_view True = Inr p \<and>
     (\<exists>rest. obj_keys (p_nodes p) = [str ''load_sop'', str ''review_sop''] @ rest)"
proof -
  have "(case projectSessionStateToSopView demo_view True of Inl x \<Rightarrow> [] | Inr p \<Rightarrow> obj_keys (p_nodes p))
      = [str ''load_sop'', str ''review_sop'', str ''extra'']" by code_simp
  then obtain p where p: "projectSessionStateToSopView demo_view True = Inr p"
    "obj_keys (p_nodes p) = [str ''load_sop'', str ''review_sop'', str ''extra'']"
    by (auto split: sum.splits)
  have "\<forall>k \<in> set (obj_keys (p_nodes p)). \<not> is_index k"
    unfolding p(2) by (simp add: is_index_def is_digit_def str_def)
  from projection_order [OF p(1) this] p show ?thesis by (auto simp: ORDERED_STEPS_def)
qed

text \<open>The projection throws exactly when some persisted message names its step after a
  member of \<open>Object.prototype\<close>.\<close>
theorem projection_throws_iff:
  "projectSessionStateToSopView s running = Inl x \<longleftrightarrow>
     x = TypeError \<and> steps_of (messages s) \<inter> set object_prototype_keys \<noteq> {}"
proof (cases "steps_of (messages s) \<inter> set object_prototype_keys = {}")
  case True
  with project_unfold [OF True, of running] show ?thesis by auto
next
  case False
  with project_error [OF False] show ?thesis by auto
qed

definition demo_stale_view :: SessionViewState where
  \<comment> \<open>the review step thinks and is then persisted; the summary step is streaming\<close>
  "demo_stale_view = reduce_all createInitialSessionViewState
     [Message_Delta 7 None Assistant [] [(str ''step'', JStr (str ''review_sop'')), (str ''channel'', JStr (str ''thinking''))],
      Message 7 1 Assistant (str ''reviewed'') [(str ''step'', JStr (str ''review_sop''))] None,
      Message_Delta 7 None Assistant (str ''summary'') [(str ''step'', JStr (str ''summarize_result''))]]"

text \<open>A thinking flag outlives its step: after the review step has thought and its message
  has been persisted, and while the summary step is streaming, the projection still shows the
  review step as the running, thinking node and the summary step as done with no text.\<close>
theorem stale_thinking_flag:
  "map_sum id (\<lambda>p. map (\<lambda>(k, n). (k, node_status n, streamText n, thinkingText n)) (p_nodes p))
     (projectSessionStateToSopView demo_stale_view True) =
   Inr [(str ''review_sop'', Node_Running, str ''reviewed'', Some thinking_label),
        (str ''summarize_result'', Node_Done, [], None)]"
  by code_simp

end
