(* ===== verification/SopCheckStream.thy ===== *)
theory SopCheckStream
  imports SopChecks SessionStream
begin

text \<open>
  The hook \<open>useSopQualityCheck\<close> of \<open>frontend/src/features/sop-quality-checks/hooks.ts\<close>: the
  detail request with its request counter, the event stream with its cursor, the terminal flag,
  and the values the hook returns. The hook's refs, state cells and the closure of its streaming
  effect are one record; each callback is an operation on it. The streaming effect runs again
  whenever the check or the detail changes. When the check changes, the effects of that render
  still see the previous detail, so the streaming effect runs once with it and once more after
  the detail has been reset.
\<close>

subsection \<open>Events on the wire\<close>

definition TERMINAL_CHECK_STATUSES :: "SopQualityCheckStatus list" where
  "TERMINAL_CHECK_STATUSES = [Check_Succeeded, Check_Failed, Check_Cancelled, Check_Interrupted]"

definition is_terminal_status :: "SopQualityCheckStatus \<Rightarrow> bool" where
  "is_terminal_status st \<longleftrightarrow> List.member TERMINAL_CHECK_STATUSES st"

definition parseSopQualityCheckEvent :: "json_parser \<Rightarrow> jstr \<Rightarrow> json option" where
  "parseSopQualityCheckEvent json_parse data =
     (if trim data = [] then None
      else case json_parse data of
        Inl e \<Rightarrow> None
      | Inr event \<Rightarrow>
          if json_str (json_field (str ''check_id'') event) = None
             \<or> json_num (json_field (str ''sequence'') event) = None
             \<or> json_str (json_field (str ''type'') event) = None
          then None else Some event)"

definition parseInt10 :: "jstr \<Rightarrow> int option" where
  \<comment> \<open>\<open>Number.parseInt(s, 10)\<close>; \<open>None\<close> is \<open>NaN\<close>\<close>
  "parseInt10 s =
     (let t = dropWhile is_ws s;
          neg = t \<noteq> [] \<and> hd t = 45;
          u = (if t \<noteq> [] \<and> (hd t = 45 \<or> hd t = 43) then tl t else t);
          ds = takeWhile is_digit u
      in if ds = [] then None else Some (if neg then - dec_value ds else dec_value ds))"

definition nextCursor :: "int \<Rightarrow> jstr \<Rightarrow> SopQualityCheckEvent \<Rightarrow> int" where
  "nextCursor currentCursor lastEventId event =
     (case parseInt10 lastEventId of
        Some parsedId \<Rightarrow> max currentCursor parsedId
      | None \<Rightarrow> max currentCursor (ev_sequence event))"

definition isTerminalEvent :: "SopQualityCheckEvent \<Rightarrow> bool" where
  "isTerminalEvent e \<longleftrightarrow> ev_type e = Ev_Completed \<or> ev_type e = Ev_Failed \<or> ev_type e = Ev_Interrupted"

subsection \<open>The hook\<close>

record check_closure =
  cc_check :: jstr \<comment> \<open>\<open>streamCheckId\<close>\<close>
  cc_source :: "nat option"
  cc_timer :: bool

record check_hook =
  activeCheckId :: jstr
  detailRequest :: nat
  c_cursor :: int
  c_terminal :: bool
  c_detail :: "SopQualityCheckDetail option"
  c_detailError :: "(jstr \<times> js_error) option"
  c_loading :: bool
  c_state :: SopQualityCheckViewState
  c_pending :: "(nat \<times> jstr) list" \<comment> \<open>detail requests in flight\<close>
  c_stream :: "check_closure option"
  c_sources :: nat
  c_opened :: "(jstr \<times> int) list" \<comment> \<open>check and \<open>after\<close> of each source, in order\<close>
  c_mounted :: bool

definition check_set_status :: "ConnectionStatus \<Rightarrow> check_hook \<Rightarrow> check_hook" where
  "check_set_status st h = h\<lparr>c_state := (c_state h)\<lparr>v_connectionStatus := st\<rparr>\<rparr>"

definition refreshDetail :: "check_hook \<Rightarrow> check_hook" where
  "refreshDetail h =
     h\<lparr>detailRequest := Suc (detailRequest h), c_loading := True, c_detailError := None,
       c_pending := c_pending h @ [(Suc (detailRequest h), activeCheckId h)]\<rparr>"

definition check_connect :: "check_hook \<Rightarrow> check_hook" where
  "check_connect h =
     (case c_stream h of
        None \<Rightarrow> h
      | Some c \<Rightarrow>
          if c_terminal h then h
          else h\<lparr>c_stream := Some (c\<lparr>cc_source := Some (c_sources h)\<rparr>),
                 c_sources := Suc (c_sources h),
                 c_opened := c_opened h @ [(cc_check c, c_cursor h)]\<rparr>)"

definition check_stream_effect :: "SopQualityCheckDetail option \<Rightarrow> check_hook \<Rightarrow> check_hook" where
  \<comment> \<open>clean-up of the previous run, then the effect with the given detail\<close>
  "check_stream_effect d h =
     (case d of
        None \<Rightarrow> h\<lparr>c_stream := None\<rparr>
      | Some detail \<Rightarrow>
          if is_terminal_status (check_status detail) then h\<lparr>c_stream := None\<rparr>
          else check_connect (check_set_status Connecting
                 (h\<lparr>c_stream := Some \<lparr>cc_check = activeCheckId h, cc_source = None, cc_timer = False\<rparr>\<rparr>)))"

definition reset_effect :: "check_hook \<Rightarrow> check_hook" where
  "reset_effect h = h\<lparr>c_cursor := 0, c_terminal := False, c_detail := None, c_detailError := None,
     c_loading := True, c_state := createInitialSopQualityCheckViewState\<rparr>"

definition check_mount :: "jstr \<Rightarrow> check_hook" where
  "check_mount cid = check_stream_effect None (refreshDetail (reset_effect
     \<lparr>activeCheckId = cid, detailRequest = 0, c_cursor = 0, c_terminal = False, c_detail = None,
      c_detailError = None, c_loading = True, c_state = createInitialSopQualityCheckViewState,
      c_pending = [], c_stream = None, c_sources = 0, c_opened = [], c_mounted = True\<rparr>))"

definition check_change :: "jstr \<Rightarrow> check_hook \<Rightarrow> check_hook" where
  "check_change cid h =
     (let previous = c_detail h;
          h' = check_stream_effect previous (refreshDetail (reset_effect (h\<lparr>activeCheckId := cid\<rparr>)))
      in if previous = None then h' else check_stream_effect None h')"

definition detail_response ::
  "nat \<Rightarrow> jstr \<Rightarrow> (thrown + SopQualityCheckDetail) \<Rightarrow> check_hook \<Rightarrow> check_hook" where
  "detail_response requestId requestedCheckId r h =
     (let h' = h\<lparr>c_pending := filter (\<lambda>p. p \<noteq> (requestId, requestedCheckId)) (c_pending h)\<rparr>
      in if detailRequest h \<noteq> requestId \<or> activeCheckId h \<noteq> requestedCheckId then h'
         else case r of
           Inr nextDetail \<Rightarrow>
             (let terminal = is_terminal_status (check_status nextDetail)
              in check_stream_effect (Some nextDetail)
                   (h'\<lparr>c_cursor := ds_latest_sequence (display_state nextDetail), c_terminal := terminal,
                       c_detail := Some nextDetail,
                       c_state := (hydrateFromDisplayState (display_state nextDetail))
                         \<lparr>v_connectionStatus := (if terminal then Closed else Idle)\<rparr>,
                       c_loading := False\<rparr>))
         | Inl e \<Rightarrow> h'\<lparr>c_detailError := Some (requestedCheckId, asError e), c_loading := False\<rparr>)"

definition isCurrentSource :: "nat \<Rightarrow> check_hook \<Rightarrow> bool" where
  "isCurrentSource n h \<longleftrightarrow>
     (case c_stream h of None \<Rightarrow> False | Some c \<Rightarrow> cc_source c = Some n) \<and> \<not> c_terminal h"

definition check_on_open :: "nat \<Rightarrow> check_hook \<Rightarrow> check_hook" where
  "check_on_open n h = (if isCurrentSource n h then check_set_status Open h else h)"

definition closeCurrentSource :: "check_hook \<Rightarrow> check_hook" where
  "closeCurrentSource h = h\<lparr>c_stream := map_option (\<lambda>c. c\<lparr>cc_source := None\<rparr>) (c_stream h)\<rparr>"

definition handleCheckMessage :: "nat \<Rightarrow> jstr \<Rightarrow> SopQualityCheckEvent \<Rightarrow> check_hook \<Rightarrow> check_hook" where
  "handleCheckMessage n lastEventId event h =
     (if \<not> isCurrentSource n h \<or> map_option cc_check (c_stream h) \<noteq> Some (ev_check_id event) then h
      else
        let h1 = h\<lparr>c_cursor := nextCursor (c_cursor h) lastEventId event,
                   c_state := reduceSopQualityCheckEvent (c_state h) event\<rparr>;
            h2 = (if ev_type event = Ev_Checkpoint then refreshDetail h1 else h1)
        in if isTerminalEvent event then refreshDetail (closeCurrentSource (h2\<lparr>c_terminal := True\<rparr>)) else h2)"

definition check_on_error :: "nat \<Rightarrow> bool \<Rightarrow> check_hook \<Rightarrow> check_hook" where
  "check_on_error n isMessageEvent h =
     (if \<not> isCurrentSource n h \<or> isMessageEvent then h
      else check_set_status Reconnecting
        (h\<lparr>c_stream := map_option (\<lambda>c. c\<lparr>cc_source := None, cc_timer := True\<rparr>) (c_stream h)\<rparr>))"

definition check_on_timer :: "check_hook \<Rightarrow> check_hook" where
  "check_on_timer h =
     (case c_stream h of
        None \<Rightarrow> h
      | Some c \<Rightarrow> if cc_timer c then check_connect (h\<lparr>c_stream := Some (c\<lparr>cc_timer := False\<rparr>)\<rparr>) else h)"

definition check_unmount :: "check_hook \<Rightarrow> check_hook" where
  "check_unmount h = h\<lparr>c_stream := None, c_mounted := False\<rparr>"

subsection \<open>What the hook returns\<close>

definition visibleDetail :: "check_hook \<Rightarrow> SopQualityCheckDetail option" where
  "visibleDetail h = (case c_detail h of
     Some d \<Rightarrow> if check_id d = activeCheckId h then Some d else None | None \<Rightarrow> None)"

definition visibleError :: "check_hook \<Rightarrow> js_error option" where
  "visibleError h = (case c_detailError h of
     Some (cid, e) \<Rightarrow> if cid = activeCheckId h then Some e else None | None \<Rightarrow> None)"

definition check_running :: "SopQualityCheckDetail option \<Rightarrow> bool" where
  "check_running d = (case d of None \<Rightarrow> False | Some d \<Rightarrow> \<not> is_terminal_status (check_status d))"

definition check_session :: "check_hook \<Rightarrow> int option" where
  \<comment> \<open>the session that \<open>useSessionStream\<close> follows\<close>
  "check_session h = (case visibleDetail h of
     Some d \<Rightarrow> if is_terminal_status (check_status d) then None else check_session_id d | None \<Rightarrow> None)"

definition effectiveState :: "check_hook \<Rightarrow> SessionViewState \<Rightarrow> js_exn + SopQualityCheckViewState" where
  "effectiveState h sessionState =
     (if check_session h = None then Inr (c_state h)
      else
        let running = check_running (visibleDetail h)
        in map_sum id (\<lambda>projection. (c_state h)
             \<lparr>v_latestSequence := max (v_latestSequence (c_state h)) (p_latestSequence projection),
              nodes := p_nodes projection, isRunning := running,
              v_connectionStatus := connectionStatus sessionState\<rparr>)
             (projectSessionStateToSopView sessionState running))"

definition check_is_loading :: "check_hook \<Rightarrow> bool" where
  "check_is_loading h \<longleftrightarrow> c_loading h \<or> (visibleDetail h = None \<and> visibleError h = None)"

subsection \<open>Steps and reachable hooks\<close>

lemmas check_defs = check_set_status_def refreshDetail_def check_connect_def check_stream_effect_def
  reset_effect_def check_mount_def check_change_def detail_response_def isCurrentSource_def
  check_on_open_def closeCurrentSource_def handleCheckMessage_def check_on_error_def
  check_on_timer_def check_unmount_def

fun detail_ok :: "jstr \<Rightarrow> thrown + SopQualityCheckDetail \<Rightarrow> bool" where
  \<comment> \<open>the server answers for the check it was asked for\<close>
  "detail_ok cid (Inr d) \<longleftrightarrow> check_id d = cid \<and> obj_ok (ds_nodes (display_state d))"
| "detail_ok cid (Inl e) \<longleftrightarrow> True"

inductive check_step :: "check_hook \<Rightarrow> check_hook \<Rightarrow> bool" where
  change: "c_mounted h \<Longrightarrow> cid \<noteq> activeCheckId h \<Longrightarrow> check_step h (check_change cid h)"
| refresh: "c_mounted h \<Longrightarrow> check_step h (refreshDetail h)"
| response: "c_mounted h \<Longrightarrow> (rid, cid) \<in> set (c_pending h) \<Longrightarrow> detail_ok cid r \<Longrightarrow>
     check_step h (detail_response rid cid r h)"
| opened: "check_step h (check_on_open n h)"
| event: "check_step h (handleCheckMessage n lastEventId e h)"
| error: "check_step h (check_on_error n b h)"
| timer: "check_step h (check_on_timer h)"
| unmounted: "check_step h (check_unmount h)"

inductive check_reachable :: "check_hook \<Rightarrow> bool" where
  mount: "check_reachable (check_mount cid)"
| step: "check_reachable h \<Longrightarrow> check_step h h' \<Longrightarrow> check_reachable h'"

inductive_cases check_step_elim: "check_step h h'"

definition check_stream_inv :: "check_hook \<Rightarrow> bool" where
  "check_stream_inv h \<longleftrightarrow>
     (case c_stream h of
        None \<Rightarrow> True
      | Some c \<Rightarrow> cc_check c = activeCheckId h
          \<and> (\<exists>d. c_detail h = Some d \<and> \<not> is_terminal_status (check_status d))
          \<and> (cc_timer c \<longrightarrow> cc_source c = None)
          \<and> (\<forall>n. cc_source c = Some n \<longrightarrow> Suc n = c_sources h)
          \<and> (c_terminal h \<longrightarrow> cc_source c = None \<and> \<not> cc_timer c))"

definition check_pending_inv :: "check_hook \<Rightarrow> bool" where
  "check_pending_inv h \<longleftrightarrow> distinct (map fst (c_pending h))
     \<and> (\<forall>(rid, cid) \<in> set (c_pending h). rid \<le> detailRequest h \<and> (rid = detailRequest h \<longrightarrow> cid = activeCheckId h))
     \<and> (c_loading h \<longleftrightarrow> detailRequest h \<in> fst ` set (c_pending h))"

definition check_inv :: "check_hook \<Rightarrow> bool" where
  "check_inv h \<longleftrightarrow> check_stream_inv h \<and> check_pending_inv h
     \<and> nodes_ok (c_state h)
     \<and> (\<forall>d. c_detail h = Some d \<longrightarrow> check_id d = activeCheckId h)
     \<and> (\<forall>cid e. c_detailError h = Some (cid, e) \<longrightarrow> cid = activeCheckId h)
     \<and> (c_loading h \<or> c_detail h \<noteq> None \<or> c_detailError h \<noteq> None)
     \<and> length (c_opened h) = c_sources h"

lemmas check_inv_defs = check_inv_def check_stream_inv_def check_pending_inv_def

lemma initial_nodes_ok [simp]: "nodes_ok createInitialSopQualityCheckViewState"
  by (simp add: nodes_ok_def createInitialSopQualityCheckViewState_def)

lemma nodes_ok_status [simp]: "nodes_ok (s\<lparr>v_connectionStatus := st\<rparr>) = nodes_ok s"
  by (simp add: nodes_ok_def)

lemma hydrate_nodes_ok: "obj_ok (ds_nodes d) \<Longrightarrow> nodes_ok (hydrateFromDisplayState d)"
  by (simp add: nodes_ok_def hydrateFromDisplayState_def)

lemma refresh_pending: "check_pending_inv h \<Longrightarrow> check_pending_inv (refreshDetail h)"
  by (fastforce simp: check_pending_inv_def refreshDetail_def)

lemma check_refresh_inv: "check_inv h \<Longrightarrow> check_inv (refreshDetail h)"
  using refresh_pending [of h]
  by (auto simp: check_inv_def check_stream_inv_def refreshDetail_def split: option.splits)

lemma check_mount_inv: "check_inv (check_mount cid)"
  by (auto simp: check_inv_defs check_defs)

lemma check_change_inv: "check_inv h \<Longrightarrow> check_inv (check_change cid h)"
proof -
  assume inv: "check_inv h"
  then have pend: "distinct (map fst (c_pending h))" "\<forall>(rid, cid) \<in> set (c_pending h). rid \<le> detailRequest h"
    by (auto simp: check_inv_def check_pending_inv_def)
  then have new: "Suc (detailRequest h) \<notin> fst ` set (c_pending h)" by fastforce
  have fields: "c_stream (check_change cid h) = None" "c_detail (check_change cid h) = None"
    "c_detailError (check_change cid h) = None" "c_loading (check_change cid h)"
    "detailRequest (check_change cid h) = Suc (detailRequest h)" "activeCheckId (check_change cid h) = cid"
    "c_pending (check_change cid h) = c_pending h @ [(Suc (detailRequest h), cid)]"
    "nodes_ok (c_state (check_change cid h))"
    by (auto simp: check_defs Let_def split: option.splits)
  have "length (c_opened (check_change cid h)) = c_sources (check_change cid h)"
    using inv by (auto simp: check_inv_def check_defs Let_def split: option.splits)
  with fields pend new show ?thesis by (fastforce simp: check_inv_defs)
qed

lemma pending_answered:
  assumes "check_pending_inv h" "(detailRequest h, cid) \<in> set (c_pending h)"
  shows "detailRequest h \<notin> fst ` set (filter (\<lambda>p. p \<noteq> (detailRequest h, cid)) (c_pending h))"
  using assms by (auto simp: check_pending_inv_def dest: eq_key_imp_eq_value)

lemma check_response_inv:
  assumes "check_inv h" "(rid, cid) \<in> set (c_pending h)" "detail_ok cid r"
  shows "check_inv (detail_response rid cid r h)"
proof -
  let ?ps = "filter (\<lambda>p. p \<noteq> (rid, cid)) (c_pending h)"
  have dist: "distinct (map fst ?ps)" "\<forall>(i, c) \<in> set ?ps. i \<le> detailRequest h \<and> (i = detailRequest h \<longrightarrow> c = activeCheckId h)"
    using assms(1) by (auto simp: check_inv_def check_pending_inv_def distinct_map_filter)
  show ?thesis
  proof (cases "detailRequest h \<noteq> rid \<or> activeCheckId h \<noteq> cid")
    case True
    have "rid \<noteq> detailRequest h"
      using True assms(1,2) by (auto simp: check_inv_def check_pending_inv_def)
    then have "detailRequest h \<in> fst ` set ?ps \<longleftrightarrow> detailRequest h \<in> fst ` set (c_pending h)" by force
    with True dist assms(1) show ?thesis
      by (auto simp: check_inv_defs detail_response_def split: option.splits)
  next
    case False
    then have "detailRequest h \<notin> fst ` set ?ps"
      using pending_answered assms(1,2) by (auto simp: check_inv_def)
    with False dist assms(1,3) show ?thesis
      by (cases r) (auto simp: check_inv_defs check_defs Let_def hydrate_nodes_ok split: option.splits)
  qed
qed

lemma check_open_inv: "check_inv h \<Longrightarrow> check_inv (check_on_open n h)"
  by (auto simp: check_inv_defs check_on_open_def check_set_status_def split: option.splits)

lemma check_error_inv: "check_inv h \<Longrightarrow> check_inv (check_on_error n b h)"
  by (auto simp: check_inv_defs check_on_error_def check_set_status_def isCurrentSource_def split: option.splits)

lemma check_timer_inv: "check_inv h \<Longrightarrow> check_inv (check_on_timer h)"
  by (auto simp: check_inv_defs check_on_timer_def check_connect_def split: option.splits)

lemma check_unmount_inv: "check_inv h \<Longrightarrow> check_inv (check_unmount h)"
  by (auto simp: check_inv_defs check_unmount_def)

lemma close_terminal_inv:
  assumes "check_inv h" "c_stream h = Some c" "\<not> cc_timer c"
  shows "check_inv (closeCurrentSource (h\<lparr>c_terminal := True\<rparr>))"
  using assms by (simp add: check_inv_defs closeCurrentSource_def) blast

lemma check_message_inv: "check_inv h \<Longrightarrow> check_inv (handleCheckMessage n i e h)"
proof (cases "isCurrentSource n h")
  case True
  assume inv: "check_inv h"
  let ?h1 = "h\<lparr>c_cursor := nextCursor (c_cursor h) i e, c_state := reduceSopQualityCheckEvent (c_state h) e\<rparr>"
  define h2 where "h2 = (if ev_type e = Ev_Checkpoint then refreshDetail ?h1 else ?h1)"
  have "check_inv ?h1"
    using inv by (simp add: check_inv_defs reduce_nodes_ok cong: option.case_cong) blast
  then have 2: "check_inv h2" by (simp add: h2_def check_refresh_inv)
  from True obtain c where c: "c_stream h = Some c" "cc_source c = Some n"
    by (auto simp: isCurrentSource_def split: option.splits)
  then have "c_stream h2 = Some c" "\<not> cc_timer c"
    using inv by (auto simp: h2_def refreshDetail_def check_inv_defs)
  with 2 have "check_inv (closeCurrentSource (h2\<lparr>c_terminal := True\<rparr>))" by (rule close_terminal_inv)
  with 2 inv show ?thesis
    unfolding handleCheckMessage_def Let_def h2_def [symmetric] by (simp add: check_refresh_inv)
qed (simp add: handleCheckMessage_def)

lemma check_step_inv: "check_step h h' \<Longrightarrow> check_inv h \<Longrightarrow> check_inv h'"
  by (induction rule: check_step.induct)
    (simp_all add: check_change_inv check_refresh_inv check_response_inv check_open_inv check_message_inv check_error_inv
      check_timer_inv check_unmount_inv)

lemma check_reachable_inv: "check_reachable h \<Longrightarrow> check_inv h"
  by (induction rule: check_reachable.induct) (auto simp: check_mount_inv intro: check_step_inv)

subsection \<open>Properties\<close>

definition demo_detail :: "SopQualityCheckStatus \<Rightarrow> int \<Rightarrow> SopQualityCheckDetail" where
  "demo_detail st q = \<lparr>check_id = str ''c1'', check_sop_id = str ''s'', check_env_key = str ''prod'',
     check_status = st, quality_result = None, check_latest_sequence = q, current_checkpoint_id = None,
     check_result = None, check_error = None,
     display_state = \<lparr>ds_latest_sequence = q, ds_nodes = [], ds_is_running = True\<rparr>,
     check_session_id = None\<rparr>"

definition demo_check :: check_hook where
  \<comment> \<open>a check that is running and streaming from message 3\<close>
  "demo_check = detail_response 1 (str ''c1'') (Inr (demo_detail Check_Running 3)) (check_mount (str ''c1''))"

lemmas demo_check_defs = demo_check_def demo_detail_def check_defs Let_def is_terminal_status_def
  TERMINAL_CHECK_STATUSES_def hydrateFromDisplayState_def createInitialSopQualityCheckViewState_def

lemma demo_check_reachable: "check_reachable demo_check"
proof -
  have "check_step (check_mount (str ''c1'')) demo_check"
    unfolding demo_check_def
    by (rule check_step.response) (simp_all add: demo_check_defs)
  then show ?thesis using check_reachable.mount check_reachable.step by blast
qed

text \<open>C21. In every reachable state of the hook: \<open>loading\<close> is set exactly while the latest
  detail request is unanswered; the detail and the error held are those of the current check; a
  detail, an error or a request in flight always exists, so the page is never blank; and a live
  streaming closure belongs to the current check, with a detail that is not terminal.\<close>
theorem check_hook_invariant:
  assumes "check_reachable h"
  shows "(c_loading h \<longleftrightarrow> (detailRequest h, activeCheckId h) \<in> set (c_pending h))
    \<and> visibleDetail h = c_detail h \<and> visibleError h = map_option snd (c_detailError h)
    \<and> (check_is_loading h \<longleftrightarrow> c_loading h)
    \<and> (c_loading h \<or> visibleDetail h \<noteq> None \<or> visibleError h \<noteq> None)
    \<and> (\<forall>c. c_stream h = Some c \<longrightarrow> cc_check c = activeCheckId h \<and> check_running (visibleDetail h))"
proof -
  have inv: "check_inv h" using assms by (rule check_reachable_inv)
  have load: "c_loading h \<longleftrightarrow> (detailRequest h, activeCheckId h) \<in> set (c_pending h)"
  proof
    assume "c_loading h"
    then obtain cid where "(detailRequest h, cid) \<in> set (c_pending h)" "cid = activeCheckId h"
      using inv unfolding check_inv_def check_pending_inv_def by fastforce
    then show "(detailRequest h, activeCheckId h) \<in> set (c_pending h)" by simp
  next
    assume "(detailRequest h, activeCheckId h) \<in> set (c_pending h)"
    then have "detailRequest h \<in> fst ` set (c_pending h)" by (rule image_eqI [rotated]) simp
    then show "c_loading h" using inv unfolding check_inv_def check_pending_inv_def by blast
  qed
  have d: "visibleDetail h = c_detail h" "visibleError h = map_option snd (c_detailError h)"
    using inv by (auto simp: check_inv_def visibleDetail_def visibleError_def split: option.splits)
  have some: "c_loading h \<or> c_detail h \<noteq> None \<or> map_option snd (c_detailError h) \<noteq> None"
    using inv by (auto simp: check_inv_def)
  have stream: "cc_check c = activeCheckId h \<and> check_running (c_detail h)" if "c_stream h = Some c" for c
    using inv that by (auto simp: check_inv_def check_stream_inv_def check_running_def)
  show ?thesis unfolding check_is_loading_def d
  proof (intro conjI allI impI)
    show "c_loading h = ((detailRequest h, activeCheckId h) \<in> set (c_pending h))" by (rule load)
    show "(c_loading h \<or> c_detail h = None \<and> map_option snd (c_detailError h) = None) = c_loading h"
      using some by argo
  qed (use some stream in simp_all)
qed

theorem check_hook_invariant_witness:
  "c_loading (handleCheckMessage 0 [] (demo_event 4 Ev_Checkpoint ''a'' ''b''\<lparr>ev_check_id := str ''c1''\<rparr>) demo_check)"
proof -
  let ?e = "demo_event 4 Ev_Checkpoint ''a'' ''b''\<lparr>ev_check_id := str ''c1''\<rparr>"
  have "check_reachable (handleCheckMessage 0 [] ?e demo_check)"
    using demo_check_reachable check_step.event by (rule check_reachable.step)
  note check_hook_invariant [OF this]
  moreover have "(2, str ''c1'') \<in> set (c_pending (handleCheckMessage 0 [] ?e demo_check))"
    "detailRequest (handleCheckMessage 0 [] ?e demo_check) = 2" "activeCheckId (handleCheckMessage 0 [] ?e demo_check) = str ''c1''"
    by (simp_all add: demo_check_defs demo_event_def isTerminalEvent_def)
  ultimately show ?thesis by metis
qed

text \<open>Latest request wins: a detail response that is not for the latest request of the
  current check changes nothing but the list of requests in flight, whether it succeeded or
  failed.\<close>
theorem stale_detail_is_ignored:
  assumes "rid \<noteq> detailRequest h \<or> cid \<noteq> activeCheckId h"
  shows "detail_response rid cid r h = h\<lparr>c_pending := filter (\<lambda>p. p \<noteq> (rid, cid)) (c_pending h)\<rparr>"
  using assms by (auto simp: detail_response_def)

theorem stale_detail_is_ignored_witness:
  "c_detail (detail_response 1 (str ''c1'') (Inr (demo_detail Check_Failed 9)) (refreshDetail demo_check)) = c_detail demo_check"
proof -
  have "1 \<noteq> detailRequest (refreshDetail demo_check) \<or> str ''c1'' \<noteq> activeCheckId (refreshDetail demo_check)"
    by (simp add: demo_check_defs)
  from stale_detail_is_ignored [OF this] show ?thesis by (simp add: refreshDetail_def)
qed

lemma stream_effect_opens:
  "c_opened (check_stream_effect d h) =
     (if check_running d \<and> \<not> c_terminal h then c_opened h @ [(activeCheckId h, c_cursor h)] else c_opened h)
   \<and> c_cursor (check_stream_effect d h) = c_cursor h
   \<and> c_terminal (check_stream_effect d h) = c_terminal h
   \<and> activeCheckId (check_stream_effect d h) = activeCheckId h"
  by (auto simp: check_stream_effect_def check_connect_def check_set_status_def check_running_def split: option.split)

lemma change_opens:
  "c_opened (check_change cid h) = (if check_running (c_detail h) then c_opened h @ [(cid, 0)] else c_opened h)
   \<and> c_cursor (check_change cid h) = 0 \<and> \<not> c_terminal (check_change cid h)
   \<and> activeCheckId (check_change cid h) = cid \<and> c_stream (check_change cid h) = None"
  by (cases "c_detail h")
    (auto simp: check_change_def Let_def stream_effect_opens check_running_def refreshDetail_def reset_effect_def,
     simp_all add: check_stream_effect_def)

lemma message_opens: "c_opened (handleCheckMessage n i e h) = c_opened h"
  by (simp add: handleCheckMessage_def Let_def refreshDetail_def closeCurrentSource_def)

lemma timer_opens:
  assumes "check_inv h" "c_opened (check_on_timer h) \<noteq> c_opened h"
  shows "\<not> c_terminal (check_on_timer h) \<and> c_opened (check_on_timer h)
     = c_opened h @ [(activeCheckId (check_on_timer h), c_cursor (check_on_timer h))]"
  using assms by (auto simp: check_on_timer_def check_connect_def check_inv_defs split: option.splits if_splits)

lemma response_opens:
  assumes "c_opened (detail_response rid cid r h) \<noteq> c_opened h"
  shows "\<not> c_terminal (detail_response rid cid r h) \<and> c_opened (detail_response rid cid r h)
     = c_opened h @ [(activeCheckId (detail_response rid cid r h), c_cursor (detail_response rid cid r h))]"
  using assms by (cases r) (auto simp: detail_response_def Let_def stream_effect_opens split: if_splits)

text \<open>A step that opens event sources opens exactly one, for the check that is current
  after the step, at the cursor, and never while the terminal flag is set: after a terminal event
  no reconnection happens until a later detail says the check is running or the check
  changes.\<close>
theorem check_source_opens_at_cursor:
  assumes "check_reachable h" "check_step h h'" "c_opened h' \<noteq> c_opened h"
  shows "\<not> c_terminal h' \<and> c_opened h' = c_opened h @ [(activeCheckId h', c_cursor h')]"
proof -
  have inv: "check_inv h" using assms(1) by (rule check_reachable_inv)
  from assms(2) show ?thesis
  proof (cases rule: check_step.cases)
    case (change cid)
    with assms(3) show ?thesis using change_opens [of cid h] by (auto split: if_splits)
  next
    case (response rid cid r)
    with assms(3) show ?thesis using response_opens by blast
  next
    case (timer)
    with assms(3) inv show ?thesis using timer_opens by blast
  qed (use assms(3) in \<open>auto simp: refreshDetail_def check_on_open_def check_on_error_def check_set_status_def
      check_unmount_def message_opens split: if_splits\<close>)
qed

theorem check_source_opens_at_cursor_witness:
  "c_opened (check_on_timer (check_on_error 0 False (handleCheckMessage 0 (str ''8'')
     (demo_event 5 Ev_Messages ''a'' ''b''\<lparr>ev_check_id := str ''c1''\<rparr>) demo_check))) = [(str ''c1'', 3), (str ''c1'', 8)]"
proof -
  let ?h1 = "handleCheckMessage 0 (str ''8'') (demo_event 5 Ev_Messages ''a'' ''b''\<lparr>ev_check_id := str ''c1''\<rparr>) demo_check"
  have r: "check_reachable (check_on_error 0 False ?h1)"
    using demo_check_reachable check_step.event check_step.error by (meson check_reachable.step)
  have id: "parseInt10 (str ''8'') = Some 8" by code_simp
  have "c_opened (check_on_error 0 False ?h1) = [(str ''c1'', 3)]" "c_cursor (check_on_timer (check_on_error 0 False ?h1)) = 8"
    "activeCheckId (check_on_timer (check_on_error 0 False ?h1)) = str ''c1''"
    "c_opened (check_on_timer (check_on_error 0 False ?h1)) \<noteq> c_opened (check_on_error 0 False ?h1)"
    by (simp_all add: demo_check_defs demo_event_def isTerminalEvent_def nextCursor_def id)
  with check_source_opens_at_cursor [OF r check_step.timer] show ?thesis by simp
qed

text \<open>A terminal event on the current source of a reachable hook closes the source for good,
  leaves the check view not running and closed, and puts a detail request for the current check in
  flight.\<close>
theorem terminal_event_closes_and_refreshes:
  fixes i :: jstr
  assumes "check_reachable h" "isCurrentSource n h" "ev_check_id e = activeCheckId h" "isTerminalEvent e"
  defines "t \<equiv> handleCheckMessage n i e h"
  shows "c_terminal t \<and> map_option cc_source (c_stream t) = Some None
    \<and> \<not> isRunning (c_state t) \<and> v_connectionStatus (c_state t) = Closed
    \<and> (detailRequest t, activeCheckId t) \<in> set (c_pending t)"
proof -
  from assms(2) obtain c where c: "c_stream h = Some c" by (auto simp: isCurrentSource_def split: option.splits)
  have "cc_check c = activeCheckId h"
    using check_reachable_inv [OF assms(1)] c by (simp add: check_inv_def check_stream_inv_def)
  with c assms(2-4) show ?thesis
    unfolding t_def
    by (auto simp: handleCheckMessage_def Let_def refreshDetail_def closeCurrentSource_def isTerminalEvent_def
        reduceSopQualityCheckEvent_def)
qed

theorem terminal_event_closes_and_refreshes_witness:
  "c_terminal (handleCheckMessage 0 [] (demo_event 4 Ev_Failed ''a'' ''b''\<lparr>ev_check_id := str ''c1''\<rparr>) demo_check)"
proof -
  let ?e = "demo_event 4 Ev_Failed ''a'' ''b''\<lparr>ev_check_id := str ''c1''\<rparr>"
  have "isCurrentSource 0 demo_check" "ev_check_id ?e = activeCheckId demo_check" "isTerminalEvent ?e"
    by (simp_all add: demo_check_defs demo_event_def isTerminalEvent_def)
  from terminal_event_closes_and_refreshes [OF demo_check_reachable this] show ?thesis by blast
qed

text \<open>Switching to another check while a non-terminal detail is shown opens an event source
  for the new check from cursor 0 and abandons it in the same step: the streaming effect of that
  render still sees the previous check's detail.\<close>
theorem switching_opens_abandoned_source:
  assumes "check_running (c_detail h)"
  shows "c_opened (check_change cid h) = c_opened h @ [(cid, 0)] \<and> c_stream (check_change cid h) = None"
  using assms change_opens [of cid h] by simp

theorem switching_opens_abandoned_source_witness:
  "c_opened (check_change (str ''c2'') demo_check) = [(str ''c1'', 3), (str ''c2'', 0)]"
proof -
  have "check_running (c_detail demo_check)" "c_opened demo_check = [(str ''c1'', 3)]"
    by (simp_all add: demo_check_defs check_running_def)
  with switching_opens_abandoned_source [OF this(1)] show ?thesis by simp
qed

end
