(* ===== verification/CheckDelivery.thy ===== *)
theory CheckDelivery
  imports SopCheckStream
begin

text \<open>
  The check hook against its server. The server keeps an append-only log of lifecycle events per
  check; the \<open>n\<close>-th event source, opened with cursor \<open>after\<close>, receives the events numbered above
  \<open>after\<close> in log order, each with its number as the SSE id, possibly cut off at any point
  (\<open>docs/streaming.md\<close>). The backend also broadcasts an event as soon as it is stored and does not
  advance its own cursor then (\<open>src/app/services/sop_quality.py\<close>, \<open>stream_events\<close>), so an event that
  was already covered may arrive again at any time. Unlike the reducer of the session transcript,
  \<open>reduceSopQualityCheckEvent\<close> does not look for an event it already has: what the hook holds
  depends on the cursor alone. A detail answer replaces the view and the cursor; nothing is assumed
  of the snapshot it carries. The result: since the last snapshot the hook has seen a prefix of
  the log above the snapshot's number, without gaps and in order, and all of it once the open
  source is drained.
\<close>

subsection \<open>First occurrences\<close>

definition firsts :: "'a list \<Rightarrow> 'a list" where
  "firsts xs = rev (remdups (rev xs))"

lemma firsts_simps [simp]:
  "firsts [] = []"
  "firsts (xs @ [x]) = (if x \<in> set xs then firsts xs else firsts xs @ [x])"
  "set (firsts xs) = set xs"
  by (simp_all add: firsts_def)

lemma firsts_distinct: "distinct xs \<Longrightarrow> firsts xs = xs"
  by (simp add: firsts_def distinct_remdups_id)

lemma max_from_set_cong: "set xs = set ys \<Longrightarrow> max_from z xs = max_from z ys"
  by (simp add: max_from_eq_Max)

subsection \<open>Client and server\<close>

record check_system =
  k_hook :: check_hook
  k_log :: "jstr \<Rightarrow> SopQualityCheckEvent list"
  k_sent :: "nat \<Rightarrow> nat" \<comment> \<open>events each source has delivered for the first time\<close>

definition event_log_ok :: "jstr \<Rightarrow> SopQualityCheckEvent list \<Rightarrow> bool" where
  "event_log_ok cid es \<longleftrightarrow> sorted_wrt (<) (map ev_sequence es)
     \<and> (\<forall>e \<in> set es. 0 < ev_sequence e \<and> ev_check_id e = cid)"

definition position :: "check_system \<Rightarrow> nat \<Rightarrow> nat" where
  \<comment> \<open>the events of the log that lie behind the \<open>n\<close>-th source\<close>
  "position S n = (let (cid, after) = c_opened (k_hook S) ! n
     in length (filter (\<lambda>e. ev_sequence e \<le> after) (k_log S cid)) + k_sent S n)"

definition source_log :: "check_system \<Rightarrow> nat \<Rightarrow> SopQualityCheckEvent list" where
  "source_log S n = k_log S (fst (c_opened (k_hook S) ! n))"

definition deliver_to :: "nat \<Rightarrow> SopQualityCheckEvent \<Rightarrow> check_hook \<Rightarrow> check_hook" where
  "deliver_to n e h = handleCheckMessage n (num_str (ev_sequence e)) e h"

inductive check_system_step :: "check_system \<Rightarrow> check_system \<Rightarrow> bool" where
  append: "event_log_ok cid (k_log S cid @ [e]) \<Longrightarrow>
     check_system_step S (S\<lparr>k_log := (k_log S)(cid := k_log S cid @ [e])\<rparr>)"
| deliver: "\<lbrakk>n < c_sources (k_hook S); position S n < length (source_log S n)\<rbrakk> \<Longrightarrow>
     check_system_step S (S\<lparr>k_hook := deliver_to n (source_log S n ! position S n) (k_hook S),
                            k_sent := (k_sent S)(n := Suc (k_sent S n))\<rparr>)"
| repeat: "\<lbrakk>n < c_sources (k_hook S); e \<in> set (take (position S n) (source_log S n))\<rbrakk> \<Longrightarrow>
     check_system_step S (S\<lparr>k_hook := deliver_to n e (k_hook S)\<rparr>)"
| answer: "\<lbrakk>c_mounted (k_hook S); (rid, cid) \<in> set (c_pending (k_hook S)); detail_ok cid r\<rbrakk> \<Longrightarrow>
     check_system_step S (S\<lparr>k_hook := detail_response rid cid r (k_hook S)\<rparr>)"
| change: "\<lbrakk>c_mounted (k_hook S); cid \<noteq> activeCheckId (k_hook S)\<rbrakk> \<Longrightarrow>
     check_system_step S (S\<lparr>k_hook := check_change cid (k_hook S)\<rparr>)"
| refresh: "c_mounted (k_hook S) \<Longrightarrow> check_system_step S (S\<lparr>k_hook := refreshDetail (k_hook S)\<rparr>)"
| opened: "check_system_step S (S\<lparr>k_hook := check_on_open n (k_hook S)\<rparr>)"
| error: "check_system_step S (S\<lparr>k_hook := check_on_error n b (k_hook S)\<rparr>)"
| timer: "check_system_step S (S\<lparr>k_hook := check_on_timer (k_hook S)\<rparr>)"
| unmounted: "check_system_step S (S\<lparr>k_hook := check_unmount (k_hook S)\<rparr>)"

inductive check_system_reachable :: "check_system \<Rightarrow> bool" where
  init: "check_system_reachable \<lparr>k_hook = check_mount cid, k_log = \<lambda>_. [], k_sent = \<lambda>_. 0\<rparr>"
| step: "check_system_reachable S \<Longrightarrow> check_system_step S S' \<Longrightarrow> check_system_reachable S'"

subsection \<open>The invariant\<close>

abbreviation base :: "SopQualityCheckDetail \<Rightarrow> int" where
  "base d \<equiv> ds_latest_sequence (display_state d)"

definition segment :: "int \<Rightarrow> SopQualityCheckEvent list \<Rightarrow> SopQualityCheckEvent list" where
  "segment a es = filter (\<lambda>e. a < ev_sequence e) es"

definition unstatus :: "SopQualityCheckViewState \<Rightarrow> SopQualityCheckViewState" where
  \<comment> \<open>the view but for the status of the connection\<close>
  "unstatus s = s\<lparr>v_connectionStatus := Idle\<rparr>"

definition received :: "SopQualityCheckDetail \<Rightarrow> check_hook \<Rightarrow> SopQualityCheckEvent list" where
  \<comment> \<open>the events above the snapshot, repetitions dropped\<close>
  "received d h = firsts (segment (base d) (events (c_state h)))"

definition seen_inv :: "check_hook \<Rightarrow> (jstr \<Rightarrow> SopQualityCheckEvent list) \<Rightarrow> bool" where
  "seen_inv h log \<longleftrightarrow> (\<forall>d. c_detail h = Some d \<longrightarrow>
     prefix (received d h) (segment (base d) (log (activeCheckId h)))
     \<and> set (events (c_state h)) \<subseteq> set (log (activeCheckId h))
     \<and> c_cursor h = max_from (base d) (map ev_sequence (received d h))
     \<and> unstatus (c_state h) = unstatus (foldl reduceSopQualityCheckEvent
         (hydrateFromDisplayState (display_state d)) (events (c_state h))))"

definition check_sent_inv :: "check_hook \<Rightarrow> (jstr \<Rightarrow> SopQualityCheckEvent list) \<Rightarrow> (nat \<Rightarrow> nat) \<Rightarrow> bool" where
  "check_sent_inv h log sent \<longleftrightarrow>
     (\<forall>c n d. c_stream h = Some c \<and> cc_source c = Some n \<and> c_detail h = Some d \<longrightarrow>
        (\<exists>after. c_opened h ! n = (activeCheckId h, after) \<and> base d \<le> after \<and> after \<le> c_cursor h \<and>
           length (received d h) = length (filter (\<lambda>e. ev_sequence e \<le> after)
             (segment (base d) (log (activeCheckId h)))) + sent n))"

definition check_system_inv :: "check_system \<Rightarrow> bool" where
  "check_system_inv S \<longleftrightarrow> check_inv (k_hook S) \<and> (\<forall>cid. event_log_ok cid (k_log S cid))
     \<and> seen_inv (k_hook S) (k_log S) \<and> check_sent_inv (k_hook S) (k_log S) (k_sent S)
     \<and> (\<forall>n. c_sources (k_hook S) \<le> n \<longrightarrow> k_sent S n = 0)"

lemma parseInt10_num_str: "0 \<le> i \<Longrightarrow> parseInt10 (num_str i) = Some i"
proof -
  assume "0 \<le> i"
  then have d: "num_str i \<noteq> []" "list_all is_digit (num_str i)" "dec_value (num_str i) = i"
    using num_str_digits by blast+
  then obtain u us where s: "num_str i = u # us" "is_digit u" by (cases "num_str i") auto
  then have "\<not> is_ws u" "u \<noteq> 45" "u \<noteq> 43"
    by (auto simp: is_digit_def is_ws_def word_le_nat_alt)
  moreover have tw: "takeWhile is_digit us = us"
    using d(2) s(1) by (simp add: list_all_iff)
  ultimately show ?thesis using d(3) s by (simp add: parseInt10_def Let_def tw)
qed

lemma unstatus_reduce:
  "unstatus s = unstatus t \<Longrightarrow> unstatus (reduceSopQualityCheckEvent s e) = unstatus (reduceSopQualityCheckEvent t e)"
proof -
  have "unstatus (reduceSopQualityCheckEvent s e) = unstatus (reduceSopQualityCheckEvent (unstatus s) e)" for s
    by (auto simp: unstatus_def reduceSopQualityCheckEvent_def Let_def updateEventNode_def current_node_def
        appendEventNodeMessage_def split: check_event_type.split option.split event_channel.split)
  then show "unstatus s = unstatus t \<Longrightarrow> ?thesis" by metis
qed

lemma unstatus_simps [simp]:
  "unstatus (s\<lparr>v_connectionStatus := x\<rparr>) = unstatus s"
  by (simp add: unstatus_def)

lemma segment_simps [simp]:
  "segment a [] = []"
  "segment a (xs @ [e]) = (if a < ev_sequence e then segment a xs @ [e] else segment a xs)"
  "e \<in> set (segment a xs) \<longleftrightarrow> e \<in> set xs \<and> a < ev_sequence e"
  by (auto simp: segment_def)

subsection \<open>Segments of the log\<close>

lemma segment_ordered:
  assumes "event_log_ok cid es"
  shows "sorted_wrt (<) (map ev_sequence (segment a es))" "\<forall>e \<in> set (segment a es). a < ev_sequence e"
  using assms by (auto simp: event_log_ok_def segment_def ordered_filter)

lemma segment_distinct: "event_log_ok cid es \<Longrightarrow> distinct (segment a es)"
  using segment_ordered(1) [of cid es a] by (simp add: strict_sorted_iff distinct_map)

lemma log_is_segment:
  assumes "event_log_ok cid es"
  shows "es = filter (\<lambda>e. ev_sequence e \<le> a) es @ segment a es"
  using ordered_split [of ev_sequence es a] assms by (simp add: event_log_ok_def segment_def)

lemma count_upto:
  "a \<le> b \<Longrightarrow> length (filter (\<lambda>e. ev_sequence e \<le> b) es)
     = length (filter (\<lambda>e. ev_sequence e \<le> a) es) + length (filter (\<lambda>e. ev_sequence e \<le> b) (segment a es))"
  by (induction es) (auto simp: segment_def)

lemma received_count:
  \<comment> \<open>the cursor counts what was received\<close>
  assumes "event_log_ok cid es" "prefix r (segment a es)"
  shows "length (filter (\<lambda>e. ev_sequence e \<le> max_from a (map ev_sequence r)) (segment a es)) = length r"
proof -
  have "r = take (length r) (segment a es)" "length r \<le> length (segment a es)"
    using assms(2) by (auto simp: prefix_def)
  then show ?thesis
    using ordered_max_prefix [OF segment_ordered [OF assms(1), of a], where k = "length r"] by (metis min.absorb1)
qed

lemma cursor_below_new:
  assumes "event_log_ok cid (es @ [e])" "prefix r (segment a es)" "b \<le> max_from a (map ev_sequence r)" "b < ev_sequence e \<or> a < ev_sequence e"
  shows "b < ev_sequence e"
proof -
  have "max_from a (map ev_sequence r) = a \<or> max_from a (map ev_sequence r) \<in> ev_sequence ` set es"
    using max_from_in [of a "map ev_sequence r"] set_mono_prefix [OF assms(2)] by fastforce
  then show ?thesis using assms(1,3,4) by (auto simp: event_log_ok_def sorted_wrt_append)
qed

subsection \<open>Steps that keep the view, and steps that connect\<close>

lemma events_unstatus: "unstatus s = unstatus t \<Longrightarrow> events s = events t"
  by (metis (no_types) SopQualityCheckViewState.select_convs(3) SopQualityCheckViewState.surjective
      SopQualityCheckViewState.update_convs(6) unstatus_def)

lemma seen_same:
  assumes "seen_inv h log" "c_detail h' = c_detail h" "activeCheckId h' = activeCheckId h"
    "c_cursor h' = c_cursor h" "unstatus (c_state h') = unstatus (c_state h)"
  shows "seen_inv h' log"
  using assms events_unstatus [OF assms(5)] by (simp add: seen_inv_def received_def)

lemma same_view_inv:
  assumes "check_system_inv S" "check_inv h'" "c_detail h' = c_detail (k_hook S)"
    and "activeCheckId h' = activeCheckId (k_hook S)" "c_cursor h' = c_cursor (k_hook S)"
    and "unstatus (c_state h') = unstatus (c_state (k_hook S))" "c_opened h' = c_opened (k_hook S)"
    and "\<And>c n. c_stream h' = Some c \<Longrightarrow> cc_source c = Some n \<Longrightarrow>
      \<exists>c'. c_stream (k_hook S) = Some c' \<and> cc_source c' = Some n"
  shows "check_system_inv (S\<lparr>k_hook := h'\<rparr>)"
proof -
  have r: "received d h' = received d (k_hook S)" for d
    using events_unstatus [OF assms(6)] by (simp add: received_def)
  have "c_sources h' = c_sources (k_hook S)"
    using assms(1,2,7) by (simp add: check_system_inv_def check_inv_def)
  moreover have "check_sent_inv h' (k_log S) (k_sent S)"
    using assms(1,3,4,5,7,8) unfolding check_system_inv_def check_sent_inv_def r by metis
  moreover have "seen_inv h' (k_log S)"
    by (rule seen_same [of "k_hook S"]) (use assms(1,3-6) in \<open>simp_all add: check_system_inv_def\<close>)
  ultimately show ?thesis using assms(1,2) by (simp add: check_system_inv_def)
qed

lemma no_source_inv:
  \<comment> \<open>after the step no source is open\<close>
  assumes "check_system_inv S" "check_inv h'" "seen_inv h' (k_log S)" "c_sources (k_hook S) \<le> c_sources h'"
    and "\<And>c. c_stream h' = Some c \<Longrightarrow> cc_source c = None"
  shows "check_system_inv (S\<lparr>k_hook := h'\<rparr>)"
  using assms by (auto simp: check_system_inv_def check_sent_inv_def)

lemma opened_inv:
  \<comment> \<open>the step opens the next source at the cursor\<close>
  assumes "check_system_inv S" "check_inv h'" "seen_inv h' (k_log S)"
    and "c_stream h' = Some \<lparr>cc_check = cid, cc_source = Some (c_sources (k_hook S)), cc_timer = b\<rparr>"
    and "c_opened h' = c_opened (k_hook S) @ [(activeCheckId h', c_cursor h')]"
  shows "check_system_inv (S\<lparr>k_hook := h'\<rparr>)"
proof -
  let ?n = "c_sources (k_hook S)"
  have len: "length (c_opened (k_hook S)) = ?n" "c_sources h' = Suc ?n"
    using assms(1,2,5) by (auto simp: check_system_inv_def check_inv_def)
  have "length (received d h') = length (filter (\<lambda>e. ev_sequence e \<le> c_cursor h')
      (segment (base d) (k_log S (activeCheckId h')))) \<and> base d \<le> c_cursor h'" if d: "c_detail h' = Some d" for d
  proof -
    have "prefix (received d h') (segment (base d) (k_log S (activeCheckId h')))"
      "c_cursor h' = max_from (base d) (map ev_sequence (received d h'))"
      using assms(3) d by (simp_all add: seen_inv_def)
    with received_count [of "activeCheckId h'"] assms(1) show ?thesis
      using max_from_ge [of "base d" "map ev_sequence (received d h')"]
      by (simp add: check_system_inv_def)
  qed
  moreover have "k_sent S ?n = 0" using assms(1) by (simp add: check_system_inv_def)
  ultimately have "check_sent_inv h' (k_log S) (k_sent S)"
    using assms(4,5) len by (auto simp: check_sent_inv_def nth_append)
  then show ?thesis using assms(1-3) len by (simp add: check_system_inv_def)
qed

subsection \<open>Delivery\<close>

lemma deliver_effect:
  assumes "check_inv h" "isCurrentSource n h" "ev_check_id e = activeCheckId h" "0 \<le> ev_sequence e"
  shows "c_cursor (deliver_to n e h) = max (c_cursor h) (ev_sequence e)"
    "c_state (deliver_to n e h) = reduceSopQualityCheckEvent (c_state h) e"
    "c_detail (deliver_to n e h) = c_detail h" "activeCheckId (deliver_to n e h) = activeCheckId h"
    "c_opened (deliver_to n e h) = c_opened h" "c_sources (deliver_to n e h) = c_sources h"
    "c_stream (deliver_to n e h) = c_stream h
      \<or> c_stream (deliver_to n e h) = map_option (\<lambda>c. c\<lparr>cc_source := None\<rparr>) (c_stream h)"
proof -
  have "map_option cc_check (c_stream h) = Some (ev_check_id e)"
    using assms(1-3) by (auto simp: check_inv_def check_stream_inv_def isCurrentSource_def split: option.splits)
  then show "c_cursor (deliver_to n e h) = max (c_cursor h) (ev_sequence e)"
    "c_state (deliver_to n e h) = reduceSopQualityCheckEvent (c_state h) e"
    "c_detail (deliver_to n e h) = c_detail h" "activeCheckId (deliver_to n e h) = activeCheckId h"
    "c_opened (deliver_to n e h) = c_opened h" "c_sources (deliver_to n e h) = c_sources h"
    "c_stream (deliver_to n e h) = c_stream h
      \<or> c_stream (deliver_to n e h) = map_option (\<lambda>c. c\<lparr>cc_source := None\<rparr>) (c_stream h)"
    using assms(2-4) by (auto simp: deliver_to_def handleCheckMessage_def Let_def refreshDetail_def
        closeCurrentSource_def nextCursor_def parseInt10_num_str)
qed

lemma deliver_other: "\<not> isCurrentSource n h \<Longrightarrow> deliver_to n e h = h"
  by (simp add: deliver_to_def handleCheckMessage_def)

lemma current_state:
  assumes "check_system_inv S" "isCurrentSource n (k_hook S)"
  obtains c d after where "c_stream (k_hook S) = Some c" "cc_source c = Some n" "c_detail (k_hook S) = Some d"
    "c_opened (k_hook S) ! n = (activeCheckId (k_hook S), after)" "base d \<le> after" "after \<le> c_cursor (k_hook S)"
    "length (received d (k_hook S)) = length (filter (\<lambda>e. ev_sequence e \<le> after)
       (segment (base d) (k_log S (activeCheckId (k_hook S))))) + k_sent S n"
proof -
  from assms(2) obtain c where c: "c_stream (k_hook S) = Some c" "cc_source c = Some n"
    by (auto simp: isCurrentSource_def split: option.splits)
  with assms(1) obtain d where d: "c_detail (k_hook S) = Some d"
    by (auto simp: check_system_inv_def check_inv_def check_stream_inv_def)
  from assms(1) c d show ?thesis unfolding check_system_inv_def check_sent_inv_def by (blast intro: that)
qed

lemma current_position:
  assumes "check_system_inv S" "isCurrentSource n (k_hook S)" "c_detail (k_hook S) = Some d"
  shows "source_log S n = k_log S (activeCheckId (k_hook S))"
    "position S n = length (filter (\<lambda>e. ev_sequence e \<le> base d) (source_log S n)) + length (received d (k_hook S))"
proof -
  obtain d' after where a: "c_detail (k_hook S) = Some d'"
    "c_opened (k_hook S) ! n = (activeCheckId (k_hook S), after)" "base d' \<le> after"
    "length (received d' (k_hook S)) = length (filter (\<lambda>e. ev_sequence e \<le> after)
       (segment (base d') (k_log S (activeCheckId (k_hook S))))) + k_sent S n"
    using assms(1,2) by (rule current_state)
  then show "source_log S n = k_log S (activeCheckId (k_hook S))" by (simp add: source_log_def)
  with a assms(3) show "position S n = length (filter (\<lambda>e. ev_sequence e \<le> base d) (source_log S n)) + length (received d (k_hook S))"
    using count_upto [of "base d" after "k_log S (activeCheckId (k_hook S))"] by (simp add: position_def)
qed

lemma source_event:
  assumes "check_system_inv S" "isCurrentSource n (k_hook S)" "e \<in> set (source_log S n)"
  shows "ev_check_id e = activeCheckId (k_hook S)" "0 \<le> ev_sequence e"
    "events (c_state (deliver_to n e (k_hook S))) = events (c_state (k_hook S)) @ [e]"
proof -
  obtain d where "c_detail (k_hook S) = Some d" using assms(1,2) by (rule current_state)
  with assms(1,2) have "source_log S n = k_log S (activeCheckId (k_hook S))" by (rule current_position)
  with assms(1,3) show e: "ev_check_id e = activeCheckId (k_hook S)" "0 \<le> ev_sequence e"
    by (fastforce simp: check_system_inv_def event_log_ok_def)+
  show "events (c_state (deliver_to n e (k_hook S))) = events (c_state (k_hook S)) @ [e]"
    using assms(1,2) e by (simp add: deliver_effect(2) check_system_inv_def reduce_keeps)
qed

lemma received_step:
  assumes "events (c_state h') = events (c_state h) @ [e]"
  shows "received d h' = (if base d < ev_sequence e \<and> e \<notin> set (received d h) then received d h @ [e] else received d h)"
  using assms by (auto simp: received_def)

lemma deliver_seen:
  \<comment> \<open>an event that is either repeated or the next of the log\<close>
  assumes inv: "check_system_inv S" and cur: "isCurrentSource n (k_hook S)" and d: "c_detail (k_hook S) = Some d"
    and e: "e \<in> set (source_log S n)" and pre: "prefix (received d (deliver_to n e (k_hook S))) (segment (base d) (source_log S n))"
  shows "seen_inv (deliver_to n e (k_hook S)) (k_log S)"
proof -
  let ?h = "k_hook S" and ?h' = "deliver_to n e (k_hook S)"
  have L: "source_log S n = k_log S (activeCheckId ?h)" using inv cur d by (rule current_position)
  from source_event [OF inv cur e] inv cur have eff: "c_cursor ?h' = max (c_cursor ?h) (ev_sequence e)" "c_detail ?h' = c_detail ?h"
    "c_state ?h' = reduceSopQualityCheckEvent (c_state ?h) e" "activeCheckId ?h' = activeCheckId ?h"
    using deliver_effect [of ?h n e] by (simp_all add: check_system_inv_def)
  note ev = source_event(3) [OF inv cur e]
  have old: "c_cursor ?h = max_from (base d) (map ev_sequence (received d ?h))"
    "unstatus (c_state ?h) = unstatus (foldl reduceSopQualityCheckEvent
       (hydrateFromDisplayState (display_state d)) (events (c_state ?h)))"
    using inv d by (simp_all add: check_system_inv_def seen_inv_def)
  have "c_cursor ?h' = max_from (base d) (map ev_sequence (received d ?h'))"
    using max_from_ge [of "base d" "map ev_sequence (received d ?h)"]
    by (auto simp: received_step [OF ev] eff(1) old(1) max_from_append)
  moreover have "unstatus (c_state ?h') = unstatus (foldl reduceSopQualityCheckEvent
       (hydrateFromDisplayState (display_state d)) (events (c_state ?h')))"
    unfolding ev using unstatus_reduce [OF old(2), of e] by (simp add: eff(3))
  moreover have "set (events (c_state ?h')) \<subseteq> set (k_log S (activeCheckId ?h))"
    using inv d e L by (simp add: ev check_system_inv_def seen_inv_def)
  ultimately show ?thesis using pre d by (simp add: seen_inv_def eff L)
qed

lemma next_is_new:
  assumes inv: "check_system_inv S" and cur: "isCurrentSource n (k_hook S)" and d: "c_detail (k_hook S) = Some d"
    and more: "position S n < length (source_log S n)"
  defines "r \<equiv> received d (k_hook S)" and "sg \<equiv> segment (base d) (source_log S n)"
  shows "source_log S n ! position S n = sg ! length r" "length r < length sg"
    "sg ! length r \<notin> set r" "prefix (r @ [sg ! length r]) sg" "base d < ev_sequence (sg ! length r)"
proof -
  let ?L = "source_log S n"
  have L: "?L = k_log S (activeCheckId (k_hook S))"
    "position S n = length (filter (\<lambda>e. ev_sequence e \<le> base d) ?L) + length r"
    unfolding r_def using inv cur d by (rule current_position)+
  then have ok: "event_log_ok (activeCheckId (k_hook S)) ?L" using inv by (simp add: check_system_inv_def)
  note split = log_is_segment [OF ok, of "base d", folded sg_def]
  show "?L ! position S n = sg ! length r" unfolding L(2) by (subst split) (rule nth_append_length_plus)
  show len: "length r < length sg" using more L(2) split by (metis length_append nat_add_left_cancel_less)
  have pre: "prefix r sg" using inv d L(1) by (simp add: check_system_inv_def seen_inv_def r_def sg_def)
  then have r: "r = take (length r) sg" by (auto simp: prefix_def)
  have "distinct sg" unfolding sg_def using ok by (rule segment_distinct)
  with len have "sg ! length r \<notin> set (take (length r) sg)" by (auto simp: in_set_conv_nth distinct_conv_nth)
  with r show "sg ! length r \<notin> set r" by simp
  show "prefix (r @ [sg ! length r]) sg" using take_Suc_conv_app_nth [OF len] r by (metis take_is_prefix)
  show "base d < ev_sequence (sg ! length r)"
    using segment_ordered(2) [OF ok, of "base d"] len nth_mem unfolding sg_def by blast
qed

lemma old_is_seen:
  assumes inv: "check_system_inv S" and cur: "isCurrentSource n (k_hook S)" and d: "c_detail (k_hook S) = Some d"
    and e: "e \<in> set (take (position S n) (source_log S n))"
  shows "base d < ev_sequence e \<Longrightarrow> e \<in> set (received d (k_hook S))"
proof -
  let ?L = "source_log S n" and ?r = "received d (k_hook S)"
  have L: "?L = k_log S (activeCheckId (k_hook S))"
    "position S n = length (filter (\<lambda>e. ev_sequence e \<le> base d) ?L) + length ?r"
    using inv cur d by (rule current_position)+
  then have ok: "event_log_ok (activeCheckId (k_hook S)) ?L" using inv by (simp add: check_system_inv_def)
  have "prefix ?r (segment (base d) ?L)" using inv d L(1) by (simp add: check_system_inv_def seen_inv_def)
  then have "take (length ?r) (segment (base d) ?L) = ?r" by (auto simp: prefix_def)
  then have "take (position S n) ?L = filter (\<lambda>e. ev_sequence e \<le> base d) ?L @ ?r"
    unfolding L(2) by (subst log_is_segment [OF ok, of "base d"]) simp
  with e show "base d < ev_sequence e \<Longrightarrow> e \<in> set ?r" by auto
qed

lemma deliver_sources_inv:
  assumes inv: "check_system_inv S" and cur: "isCurrentSource n (k_hook S)" and d: "c_detail (k_hook S) = Some d"
    and e: "e \<in> set (source_log S n)" and seen: "seen_inv (deliver_to n e (k_hook S)) (k_log S)"
    and len: "length (received d (deliver_to n e (k_hook S))) = length (received d (k_hook S)) + k"
  shows "check_system_inv (S\<lparr>k_hook := deliver_to n e (k_hook S), k_sent := (k_sent S)(n := k_sent S n + k)\<rparr>)"
proof -
  let ?h = "k_hook S" and ?h' = "deliver_to n e (k_hook S)"
  obtain c d' after where c: "c_stream ?h = Some c" "cc_source c = Some n" "c_detail ?h = Some d'"
    "c_opened ?h ! n = (activeCheckId ?h, after)" "base d' \<le> after" "after \<le> c_cursor ?h"
    "length (received d' ?h) = length (filter (\<lambda>e. ev_sequence e \<le> after)
       (segment (base d') (k_log S (activeCheckId ?h)))) + k_sent S n"
    using inv cur by (rule current_state)
  have ci: "check_inv ?h" using inv by (simp add: check_system_inv_def)
  then have eff: "c_cursor ?h' = max (c_cursor ?h) (ev_sequence e)" "c_detail ?h' = c_detail ?h"
    "activeCheckId ?h' = activeCheckId ?h" "c_opened ?h' = c_opened ?h" "c_sources ?h' = c_sources ?h"
    "c_stream ?h' = c_stream ?h \<or> c_stream ?h' = map_option (\<lambda>c. c\<lparr>cc_source := None\<rparr>) (c_stream ?h)"
    using deliver_effect [OF _ cur source_event(1,2) [OF inv cur e]] by blast+
  have "check_sent_inv ?h' (k_log S) ((k_sent S)(n := k_sent S n + k))"
    using c d len eff by (auto simp: check_sent_inv_def)
  moreover have "check_inv ?h'" unfolding deliver_to_def using ci by (rule check_message_inv)
  moreover have "Suc n = c_sources ?h" using ci c(1,2) by (simp add: check_inv_def check_stream_inv_def)
  ultimately show ?thesis using inv seen eff(5) by (auto simp: check_system_inv_def)
qed

lemma delivered_inv:
  assumes inv: "check_system_inv S" and n: "n < c_sources (k_hook S)" and more: "position S n < length (source_log S n)"
  shows "check_system_inv (S\<lparr>k_hook := deliver_to n (source_log S n ! position S n) (k_hook S),
                            k_sent := (k_sent S)(n := Suc (k_sent S n))\<rparr>)"
proof (cases "isCurrentSource n (k_hook S)")
  case cur: True
  obtain d where d: "c_detail (k_hook S) = Some d" using inv cur by (rule current_state)
  let ?e = "source_log S n ! position S n"
  note new = next_is_new [OF inv cur d more]
  note ev = source_event(3) [OF inv cur nth_mem [OF more]]
  have r: "received d (deliver_to n ?e (k_hook S)) = received d (k_hook S) @ [?e]"
    using new(3,5) by (subst received_step [OF ev]) (simp add: new(1))
  have "seen_inv (deliver_to n ?e (k_hook S)) (k_log S)"
    using inv cur d nth_mem [OF more] by (rule deliver_seen) (unfold r, unfold new(1), rule new(4))
  from deliver_sources_inv [OF inv cur d _ this, of 1] r more show ?thesis by simp
next
  case False
  then have "j \<noteq> n" if "c_stream (k_hook S) = Some c" "cc_source c = Some j" for c j
    using inv that by (auto simp: isCurrentSource_def check_system_inv_def check_inv_def check_stream_inv_def)
  then have "check_sent_inv (k_hook S) (k_log S) ((k_sent S)(n := Suc (k_sent S n)))"
    using inv by (auto simp: check_system_inv_def check_sent_inv_def)
  with inv n False show ?thesis by (auto simp: deliver_other check_system_inv_def)
qed

lemma repeat_inv:
  assumes inv: "check_system_inv S" and e: "e \<in> set (take (position S n) (source_log S n))"
  shows "check_system_inv (S\<lparr>k_hook := deliver_to n e (k_hook S)\<rparr>)"
proof (cases "isCurrentSource n (k_hook S)")
  case cur: True
  obtain d where d: "c_detail (k_hook S) = Some d" using inv cur by (rule current_state)
  have L: "source_log S n = k_log S (activeCheckId (k_hook S))" using inv cur d by (rule current_position)
  have e': "e \<in> set (source_log S n)" using e by (rule in_set_takeD)
  note ev = source_event(3) [OF inv cur e']
  have r: "received d (deliver_to n e (k_hook S)) = received d (k_hook S)"
    using old_is_seen [OF inv cur d e] by (auto simp: received_step [OF ev])
  have "seen_inv (deliver_to n e (k_hook S)) (k_log S)"
    using inv cur d e' by (rule deliver_seen) (use inv d L r in \<open>simp add: check_system_inv_def seen_inv_def\<close>)
  from deliver_sources_inv [OF inv cur d e' this, of 0] r show ?thesis by simp
qed (use inv in \<open>simp add: deliver_other\<close>)

subsection \<open>The other steps\<close>

lemma append_segment:
  assumes "check_system_inv S" "event_log_ok cid (k_log S cid @ [e])"
  shows "check_system_inv (S\<lparr>k_log := (k_log S)(cid := k_log S cid @ [e])\<rparr>)"
proof -
  let ?h = "k_hook S" and ?log' = "(k_log S)(cid := k_log S cid @ [e])"
  have "prefix (segment a (k_log S i)) (segment a (?log' i))" for a i
    by (cases "i = cid") (auto simp: prefix_def)
  moreover have "set (k_log S i) \<subseteq> set (?log' i)" for i by auto
  ultimately have "seen_inv ?h ?log'"
    using assms(1) unfolding check_system_inv_def seen_inv_def by (meson prefix_order.trans subset_trans)
  moreover have "check_sent_inv ?h ?log' (k_sent S)"
    unfolding check_sent_inv_def
  proof (intro allI impI)
    fix c n d assume c: "c_stream ?h = Some c \<and> cc_source c = Some n \<and> c_detail ?h = Some d"
    then obtain after where a: "c_opened ?h ! n = (activeCheckId ?h, after)" "base d \<le> after" "after \<le> c_cursor ?h"
      "length (received d ?h) = length (filter (\<lambda>e. ev_sequence e \<le> after)
         (segment (base d) (k_log S (activeCheckId ?h)))) + k_sent S n"
      using assms(1) unfolding check_system_inv_def check_sent_inv_def by blast
    have "prefix (received d ?h) (segment (base d) (k_log S (activeCheckId ?h)))"
      "c_cursor ?h = max_from (base d) (map ev_sequence (received d ?h))"
      using assms(1) c by (simp_all add: check_system_inv_def seen_inv_def)
    with a(3) assms(2) have "base d < ev_sequence e \<Longrightarrow> after < ev_sequence e" if "activeCheckId ?h = cid"
      using that cursor_below_new by metis
    with a show "\<exists>after. c_opened ?h ! n = (activeCheckId ?h, after) \<and> base d \<le> after \<and> after \<le> c_cursor ?h \<and>
        length (received d ?h) = length (filter (\<lambda>e. ev_sequence e \<le> after)
          (segment (base d) (?log' (activeCheckId ?h)))) + k_sent S n"
      by (intro exI [of _ after]) auto
  qed
  ultimately show ?thesis using assms by (simp add: check_system_inv_def)
qed

lemma hydrate_seen:
  \<comment> \<open>the view right after a snapshot\<close>
  assumes "c_detail h = Some d" "c_cursor h = base d"
    "unstatus (c_state h) = unstatus (hydrateFromDisplayState (display_state d))"
  shows "seen_inv h log"
proof -
  have "events (c_state h) = []"
    using events_unstatus [OF assms(3)] by (simp add: hydrateFromDisplayState_def createInitialSopQualityCheckViewState_def)
  with assms show ?thesis by (simp add: seen_inv_def received_def)
qed

lemma answer_inv:
  assumes inv: "check_system_inv S" and p: "(rid, cid) \<in> set (c_pending (k_hook S))" and ok: "detail_ok cid r"
  shows "check_system_inv (S\<lparr>k_hook := detail_response rid cid r (k_hook S)\<rparr>)"
proof -
  let ?h = "k_hook S" and ?h' = "detail_response rid cid r (k_hook S)"
  have ci: "check_inv ?h'" using inv p ok by (intro check_response_inv) (simp_all add: check_system_inv_def)
  show ?thesis
  proof (cases "(detailRequest ?h = rid \<and> activeCheckId ?h = cid) \<and> \<not> isl r")
    case True
    then obtain d where r: "r = Inr d" by (cases r) auto
    have h': "c_detail ?h' = Some d" "c_cursor ?h' = base d" "c_terminal ?h' = is_terminal_status (check_status d)"
      "unstatus (c_state ?h') = unstatus (hydrateFromDisplayState (display_state d))"
      using True r by (auto simp: detail_response_def Let_def check_stream_effect_def check_connect_def check_set_status_def)
    then have seen: "seen_inv ?h' (k_log S)" by (intro hydrate_seen)
    show ?thesis
    proof (cases "is_terminal_status (check_status d)")
      case True
      with \<open>_ \<and> \<not> isl r\<close> r show ?thesis using inv ci seen
        by (intro no_source_inv) (auto simp: detail_response_def Let_def check_stream_effect_def)
    next
      case False
      with \<open>_ \<and> \<not> isl r\<close> r show ?thesis
        by (intro opened_inv [OF inv ci seen, where cid = cid and b = False])
          (auto simp: detail_response_def Let_def check_stream_effect_def check_connect_def check_set_status_def)
    qed
  next
    case False
    then have keep: "c_detail ?h' = c_detail ?h \<and> activeCheckId ?h' = activeCheckId ?h \<and> c_cursor ?h' = c_cursor ?h
        \<and> c_state ?h' = c_state ?h \<and> c_opened ?h' = c_opened ?h \<and> c_stream ?h' = c_stream ?h"
      by (cases r) (simp_all add: detail_response_def Let_def)
    from inv ci show ?thesis by (rule same_view_inv) (simp_all add: keep)
  qed
qed

lemma change_view_inv:
  assumes "check_system_inv S"
  shows "check_system_inv (S\<lparr>k_hook := check_change cid (k_hook S)\<rparr>)"
proof (rule no_source_inv [OF assms])
  have ci: "check_inv (k_hook S)" using assms by (simp add: check_system_inv_def)
  then show ci': "check_inv (check_change cid (k_hook S))" by (rule check_change_inv)
  have "c_detail (check_change cid (k_hook S)) = None" by (auto simp: check_defs Let_def split: option.splits)
  then show "seen_inv (check_change cid (k_hook S)) (k_log S)" by (simp add: seen_inv_def)
  show "c_sources (k_hook S) \<le> c_sources (check_change cid (k_hook S))"
    by (auto simp: check_defs Let_def split: option.splits)
qed (use change_opens [of cid "k_hook S"] in simp)

lemma quiet_inv:
  assumes inv: "check_system_inv S"
  shows "check_system_inv (S\<lparr>k_hook := refreshDetail (k_hook S)\<rparr>)"
    "check_system_inv (S\<lparr>k_hook := check_on_open n (k_hook S)\<rparr>)"
    "check_system_inv (S\<lparr>k_hook := check_on_error n b (k_hook S)\<rparr>)"
    "check_system_inv (S\<lparr>k_hook := check_unmount (k_hook S)\<rparr>)"
proof -
  have ci: "check_inv (k_hook S)" using inv by (simp add: check_system_inv_def)
  show "check_system_inv (S\<lparr>k_hook := refreshDetail (k_hook S)\<rparr>)"
    using inv check_refresh_inv [OF ci] by (rule same_view_inv) (auto simp: refreshDetail_def)
  show "check_system_inv (S\<lparr>k_hook := check_on_open n (k_hook S)\<rparr>)"
    using inv check_open_inv [OF ci] by (rule same_view_inv) (auto simp: check_on_open_def check_set_status_def split: if_splits)
  show "check_system_inv (S\<lparr>k_hook := check_on_error n b (k_hook S)\<rparr>)"
    using inv check_error_inv [OF ci]
    by (rule same_view_inv) (auto simp: check_on_error_def check_set_status_def split: if_splits)
  show "check_system_inv (S\<lparr>k_hook := check_unmount (k_hook S)\<rparr>)"
    using inv check_unmount_inv [OF ci] by (rule same_view_inv) (auto simp: check_unmount_def)
qed

lemma timer_view_inv:
  assumes inv: "check_system_inv S"
  shows "check_system_inv (S\<lparr>k_hook := check_on_timer (k_hook S)\<rparr>)"
proof -
  let ?h' = "check_on_timer (k_hook S)"
  have ci: "check_inv (k_hook S)" using inv by (simp add: check_system_inv_def)
  note ci' = check_timer_inv [OF ci]
  show ?thesis
  proof (cases "\<exists>c. c_stream (k_hook S) = Some c \<and> cc_timer c")
    case True
    then obtain c where c: "c_stream (k_hook S) = Some c" "cc_timer c" by blast
    with ci have k: "cc_check c = activeCheckId (k_hook S)" "\<not> c_terminal (k_hook S)"
      by (auto simp: check_inv_def check_stream_inv_def)
    have h': "c_stream ?h' = Some (c\<lparr>cc_timer := False, cc_source := Some (c_sources (k_hook S))\<rparr>)"
      using c k by (simp add: check_on_timer_def check_connect_def)
    have "seen_inv ?h' (k_log S)"
      by (rule seen_same [of "k_hook S"]) (use inv c k in \<open>simp_all add: check_system_inv_def check_on_timer_def check_connect_def\<close>)
    from inv ci' this show ?thesis
      by (rule opened_inv [where cid = "cc_check c" and b = False]) (use c k in \<open>simp_all add: check_on_timer_def check_connect_def\<close>)
  next
    case False
    then have "?h' = k_hook S" by (auto simp: check_on_timer_def split: option.splits)
    with inv show ?thesis by simp
  qed
qed

lemma check_system_init_inv: "check_system_inv \<lparr>k_hook = check_mount cid, k_log = \<lambda>_. [], k_sent = \<lambda>_. 0\<rparr>"
  using check_mount_inv [of cid]
  by (auto simp: check_system_inv_def event_log_ok_def seen_inv_def check_sent_inv_def) (simp_all add: check_defs)

lemma check_system_step_inv: "check_system_step S S' \<Longrightarrow> check_system_inv S \<Longrightarrow> check_system_inv S'"
  by (induction rule: check_system_step.induct)
    (blast intro: append_segment delivered_inv repeat_inv answer_inv change_view_inv quiet_inv timer_view_inv)+

lemma check_system_reachable_inv: "check_system_reachable S \<Longrightarrow> check_system_inv S"
  by (induction rule: check_system_reachable.induct) (auto simp: check_system_init_inv intro: check_system_step_inv)

lemma drained_received:
  assumes "check_system_inv S" "isCurrentSource n (k_hook S)" "c_detail (k_hook S) = Some d"
    and "position S n = length (source_log S n)"
  shows "received d (k_hook S) = segment (base d) (k_log S (activeCheckId (k_hook S)))"
proof -
  let ?L = "k_log S (activeCheckId (k_hook S))" and ?r = "received d (k_hook S)"
  have ok: "event_log_ok (activeCheckId (k_hook S)) ?L" and pre: "prefix ?r (segment (base d) ?L)"
    using assms(1,3) by (simp_all add: check_system_inv_def seen_inv_def)
  have "length (filter (\<lambda>e. ev_sequence e \<le> base d) ?L) + length ?r = length ?L"
    using current_position [OF assms(1-3)] assms(4) by simp
  then have "length ?r = length (segment (base d) ?L)"
    using log_is_segment [OF ok, of "base d"] by (metis add_left_cancel length_append)
  with pre show ?thesis by (metis append_eq_conv_conj prefix_def take_all order_refl)
qed

lemma deliver_keeps_current:
  assumes "check_system_inv S" "isCurrentSource n (k_hook S)" "e \<in> set (source_log S n)"
  shows "isCurrentSource n (deliver_to n e (k_hook S))
    \<or> c_terminal (deliver_to n e (k_hook S)) \<and> isTerminalEvent e
      \<and> (detailRequest (deliver_to n e (k_hook S)), activeCheckId (deliver_to n e (k_hook S)))
         \<in> set (c_pending (deliver_to n e (k_hook S)))"
proof -
  have "map_option cc_check (c_stream (k_hook S)) = Some (ev_check_id e)"
    using assms source_event(1) [OF assms]
    by (auto simp: check_system_inv_def check_inv_def check_stream_inv_def isCurrentSource_def split: option.splits)
  with assms(2) show ?thesis
    by (auto simp: deliver_to_def handleCheckMessage_def Let_def refreshDetail_def closeCurrentSource_def
        isCurrentSource_def)
qed

abbreviation deliver_next :: "nat \<Rightarrow> check_system \<Rightarrow> check_system" where
  "deliver_next n S \<equiv> S\<lparr>k_hook := deliver_to n (source_log S n ! position S n) (k_hook S),
                        k_sent := (k_sent S)(n := Suc (k_sent S n))\<rparr>"

lemma position_next:
  assumes "c_opened (k_hook T) = c_opened (k_hook S)" "k_log T = k_log S" "k_sent T n = Suc (k_sent S n)"
  shows "position T n = Suc (position S n)" "source_log T n = source_log S n"
  using assms by (simp_all add: position_def source_log_def split: prod.split)

lemma deliver_next_step:
  assumes "check_system_inv S" "isCurrentSource n (k_hook S)" "position S n < length (source_log S n)"
  shows "check_system_step S (deliver_next n S)" "position (deliver_next n S) n = Suc (position S n)"
    "source_log (deliver_next n S) n = source_log S n"
    "c_detail (k_hook (deliver_next n S)) = c_detail (k_hook S)"
    "activeCheckId (k_hook (deliver_next n S)) = activeCheckId (k_hook S)"
proof -
  have ci: "check_inv (k_hook S)" using assms(1) by (simp add: check_system_inv_def)
  then have "n < c_sources (k_hook S)"
    using assms(2) by (auto simp: check_inv_def check_stream_inv_def isCurrentSource_def split: option.splits)
  then show "check_system_step S (deliver_next n S)" using assms(3) by (rule check_system_step.deliver)
  note eff = deliver_effect [OF ci assms(2) source_event(1,2) [OF assms(1,2) nth_mem [OF assms(3)]]]
  show "position (deliver_next n S) n = Suc (position S n)" "source_log (deliver_next n S) n = source_log S n"
    by (rule position_next; simp add: eff(5))+
  show "c_detail (k_hook (deliver_next n S)) = c_detail (k_hook S)"
    "activeCheckId (k_hook (deliver_next n S)) = activeCheckId (k_hook S)" using eff(3,4) by simp_all
qed

lemma catch_up:
  assumes "check_system_inv S" "isCurrentSource n (k_hook S)" "c_detail (k_hook S) = Some d"
  shows "\<exists>S'. check_system_step\<^sup>*\<^sup>* S S' \<and> k_log S' = k_log S \<and> c_detail (k_hook S') = Some d
    \<and> activeCheckId (k_hook S') = activeCheckId (k_hook S)
    \<and> (received d (k_hook S') = segment (base d) (k_log S (activeCheckId (k_hook S)))
       \<or> c_terminal (k_hook S')
         \<and> (detailRequest (k_hook S'), activeCheckId (k_hook S')) \<in> set (c_pending (k_hook S')))"
  using assms
proof (induction "length (source_log S n) - position S n" arbitrary: S)
  case 0
  have "position S n \<le> length (source_log S n)"
  proof -
    have "prefix (received d (k_hook S)) (segment (base d) (source_log S n))"
      and ok: "event_log_ok (activeCheckId (k_hook S)) (source_log S n)"
      using 0(2,4) current_position(1) [OF 0(2-4)] by (simp_all add: check_system_inv_def seen_inv_def)
    from prefix_length_le [OF this(1)] show ?thesis
      using current_position(2) [OF 0(2-4)] log_is_segment [OF ok, of "base d"]
      by (metis add_left_mono length_append)
  qed
  with 0(1) have "position S n = length (source_log S n)" by simp
  with 0(2-4) have "received d (k_hook S) = segment (base d) (k_log S (activeCheckId (k_hook S)))"
    by (rule drained_received)
  with 0(4) show ?case by blast
next
  case (Suc k)
  have more: "position S n < length (source_log S n)" using Suc.hyps(2) by simp
  note nxt = deliver_next_step [OF Suc.prems(1,2) more]
  have inv: "check_system_inv (deliver_next n S)" using nxt(1) Suc.prems(1) by (rule check_system_step_inv)
  have log: "k_log (deliver_next n S) = k_log S" by simp
  from deliver_keeps_current [OF Suc.prems(1,2) nth_mem [OF more]]
  consider "isCurrentSource n (k_hook (deliver_next n S))"
    | "c_terminal (k_hook (deliver_next n S))" "(detailRequest (k_hook (deliver_next n S)),
        activeCheckId (k_hook (deliver_next n S))) \<in> set (c_pending (k_hook (deliver_next n S)))" by auto
  then show ?case
  proof cases
    case 1
    have "k = length (source_log (deliver_next n S) n) - position (deliver_next n S) n"
      unfolding nxt(2,3) using Suc.hyps(2) by simp
    from Suc.hyps(1) [OF this inv 1] nxt(4) Suc.prems(3) obtain S' where S': "check_system_step\<^sup>*\<^sup>* (deliver_next n S) S'"
      "k_log S' = k_log S" "c_detail (k_hook S') = Some d" "activeCheckId (k_hook S') = activeCheckId (k_hook S)"
      "received d (k_hook S') = segment (base d) (k_log S (activeCheckId (k_hook S)))
       \<or> c_terminal (k_hook S') \<and> (detailRequest (k_hook S'), activeCheckId (k_hook S')) \<in> set (c_pending (k_hook S'))"
      unfolding nxt(5) log by auto
    from nxt(1) S'(1) have "check_system_step\<^sup>*\<^sup>* S S'" by (rule converse_rtranclp_into_rtranclp)
    with S' show ?thesis by blast
  next
    case 2
    from nxt(1) have "check_system_step\<^sup>*\<^sup>* S (deliver_next n S)" by (rule r_into_rtranclp)
    with 2 log nxt(4,5) Suc.prems(3) show ?thesis by metis
  qed
qed

subsection \<open>Properties\<close>

abbreviation check_event :: "int \<Rightarrow> SopQualityCheckEvent" where
  "check_event q \<equiv> demo_event q Ev_Updates ''a'' ''b''\<lparr>ev_check_id := str ''c1''\<rparr>"

definition demo_check_system :: check_system where
  \<comment> \<open>a snapshot at 3, event 4 on the first connection and again on the second, then event 5\<close>
  "demo_check_system = \<lparr>k_hook = deliver_to 1 (check_event 5) (deliver_to 1 (check_event 4)
       (check_on_timer (check_on_error 0 False (deliver_to 0 (check_event 4) demo_check)))),
     k_log = (\<lambda>_. [])(str ''c1'' := [check_event 4, check_event 5]),
     k_sent = (\<lambda>_. 0)(0 := 1, 1 := 1)\<rparr>"

lemmas demo_check_system_defs = demo_check_system_def demo_check_defs deliver_to_def demo_event_def nextCursor_def
  parseInt10_num_str isTerminalEvent_def position_def source_log_def

lemma demo_check_system_reachable: "check_system_reachable demo_check_system"
proof -
  let ?e = check_event
  let ?log = "(\<lambda>_. [])(str ''c1'' := [?e 4, ?e 5]) :: jstr \<Rightarrow> SopQualityCheckEvent list"
  let ?s = "\<lambda>h log sent. \<lparr>k_hook = h, k_log = log, k_sent = sent\<rparr>"
  let ?h1 = "deliver_to 0 (?e 4) demo_check" let ?h2 = "check_on_timer (check_on_error 0 False ?h1)"
  have 1: "check_system_reachable (?s (check_mount (str ''c1'')) ((\<lambda>_. [])(str ''c1'' := [?e 4])) (\<lambda>_. 0))"
    using check_system_reachable.step [OF check_system_reachable.init check_system_step.append [of "str ''c1''" _ "?e 4"]]
    by (simp add: event_log_ok_def demo_event_def)
  have 2: "check_system_reachable (?s (check_mount (str ''c1'')) ?log (\<lambda>_. 0))"
    using check_system_reachable.step [OF 1 check_system_step.append [of "str ''c1''" _ "?e 5"]]
    by (simp add: event_log_ok_def demo_event_def)
  have 3: "check_system_reachable (?s demo_check ?log (\<lambda>_. 0))"
    using check_system_reachable.step [OF 2 check_system_step.answer [of _ 1 "str ''c1''" "Inr (demo_detail Check_Running 3)"]]
    by (simp add: demo_check_defs)
  have 4: "check_system_reachable (?s ?h1 ?log ((\<lambda>_. 0)(0 := 1)))"
    using check_system_reachable.step [OF 3 check_system_step.deliver [of 0]] by (simp add: demo_check_system_defs)
  have 5: "check_system_reachable (?s ?h2 ?log ((\<lambda>_. 0)(0 := 1)))"
    using check_system_reachable.step [OF check_system_reachable.step [OF 4 check_system_step.error [of _ 0 False]]
        check_system_step.timer] by simp
  have 6: "check_system_reachable (?s (deliver_to 1 (?e 4) ?h2) ?log ((\<lambda>_. 0)(0 := 1)))"
    using check_system_reachable.step [OF 5 check_system_step.repeat [of 1 _ "?e 4"]]
    by (simp add: demo_check_system_defs)
  show ?thesis
    using check_system_reachable.step [OF 6 check_system_step.deliver [of 1]] by (simp add: demo_check_system_defs)
qed

text \<open>C3. The check view follows the log: in every reachable state of the check hook and its
  server, across answers, refused requests, lost connections, repeated events and changes of the
  check, the events the hook received since its last snapshot are, repetitions dropped, a prefix
  of the events the server has above the number of the snapshot, in order and without gaps; the
  cursor is the greatest number among them; and but for the connection status the view is what
  the reducer makes of the snapshot and those events. When the server repeats nothing, they are
  that prefix exactly.\<close>
theorem check_view_follows_log:
  assumes "check_system_reachable S" "c_detail (k_hook S) = Some d"
  shows "prefix (received d (k_hook S)) (segment (base d) (k_log S (activeCheckId (k_hook S))))
    \<and> set (events (c_state (k_hook S))) \<subseteq> set (k_log S (activeCheckId (k_hook S)))
    \<and> c_cursor (k_hook S) = max_from (base d) (map ev_sequence (received d (k_hook S)))
    \<and> unstatus (c_state (k_hook S)) = unstatus (foldl reduceSopQualityCheckEvent
        (hydrateFromDisplayState (display_state d)) (events (c_state (k_hook S))))
    \<and> (distinct (events (c_state (k_hook S))) \<and> (\<forall>e \<in> set (events (c_state (k_hook S))). base d < ev_sequence e) \<longrightarrow>
        prefix (events (c_state (k_hook S))) (segment (base d) (k_log S (activeCheckId (k_hook S)))))"
proof -
  let ?es = "events (c_state (k_hook S))"
  note seen = check_system_reachable_inv [OF assms(1), unfolded check_system_inv_def seen_inv_def]
  have "received d (k_hook S) = ?es" if "distinct ?es" "\<forall>e \<in> set ?es. base d < ev_sequence e"
  proof -
    have "segment (base d) ?es = ?es" using that(2) by (simp add: segment_def filter_id_conv)
    with that(1) show ?thesis by (simp add: received_def firsts_distinct)
  qed
  with seen assms(2) show ?thesis by metis
qed

theorem check_view_follows_log_witness:
  "map ev_sequence (events (c_state (k_hook demo_check_system))) = [4, 4, 5]
   \<and> prefix (received (demo_detail Check_Running 3) (k_hook demo_check_system)) [check_event 4, check_event 5]"
proof -
  have "c_detail (k_hook demo_check_system) = Some (demo_detail Check_Running 3)"
    "activeCheckId (k_hook demo_check_system) = str ''c1''"
    by (simp_all add: demo_check_system_defs)
  with check_view_follows_log [OF demo_check_system_reachable this(1)]
  have "prefix (received (demo_detail Check_Running 3) (k_hook demo_check_system)) [check_event 4, check_event 5]"
    by (simp add: demo_check_system_def demo_detail_def segment_def demo_event_def)
  then show ?thesis by (simp add: demo_check_system_defs reduce_keeps)
qed



end
