(* ===== verification/SequencedViews.thy ===== *)
theory SequencedViews
  imports Sessions SopChecks
begin

text \<open>
  What the two stream reducers share. A sequenced view folds events that may carry a sequence
  number into a state that remembers the largest one. The laws are stated once as the locale
  \<open>sequenced_view\<close> and hold for the session reducer and for the quality-check reducer.
\<close>

locale sequenced_view =
  fixes reduce :: "'s \<Rightarrow> 'e \<Rightarrow> 's"
    and latest :: "'s \<Rightarrow> int"
    and numbered :: "'e \<Rightarrow> int option"
    and inv :: "'s \<Rightarrow> bool"
  assumes reduce_inv: "inv s \<Longrightarrow> inv (reduce s e)"
    and reduce_latest: "inv s \<Longrightarrow> latest (reduce s e) = (case numbered e of None \<Rightarrow> latest s | Some n \<Rightarrow> max (latest s) n)"
begin

lemma fold_inv: "inv s \<Longrightarrow> inv (foldl reduce s es)"
  by (induction es arbitrary: s) (auto simp: reduce_inv)

lemma fold_latest:
  "inv s \<Longrightarrow> latest (foldl reduce s es) = max_from (latest s) (List.map_filter numbered es)"
  by (induction es arbitrary: s) (auto simp: reduce_inv reduce_latest map_filter_simps split: option.split)

lemma fold_monotone: "inv s \<Longrightarrow> latest s \<le> latest (foldl reduce s es)"
  using max_from_ge by (simp add: fold_latest)

lemma fold_bound: "inv s \<Longrightarrow> e \<in> set es \<Longrightarrow> numbered e = Some n \<Longrightarrow> n \<le> latest (foldl reduce s es)"
proof -
  assume "inv s" "e \<in> set es" "numbered e = Some n"
  then have "n \<in> set (List.map_filter numbered es)" by (force simp: map_filter_def)
  with \<open>inv s\<close> show ?thesis using max_from_ge by (simp add: fold_latest)
qed

end

fun message_number :: "SessionStreamEvent \<Rightarrow> int option" where
  "message_number (Message s n role c kw cr) = Some n"
| "message_number _ = None"

interpretation session_view: sequenced_view reduceSessionStreamEvent latestSequence message_number view_ok
proof
  fix s e assume ok: "view_ok s"
  then show "view_ok (reduceSessionStreamEvent s e)" by (rule reduce_view_ok)
  show "latestSequence (reduceSessionStreamEvent s e)
      = (case message_number e of None \<Rightarrow> latestSequence s | Some n \<Rightarrow> max (latestSequence s) n)"
  proof (cases e)
    case (Message sid n role c kw cr)
    have "n \<in> set (map msg_sequence (messages s)) \<Longrightarrow> n \<le> latestSequence s"
      using ok max_from_ge [of 0 "map msg_sequence (messages s)"] by (auto simp: view_ok_def)
    with Message show ?thesis by (auto simp: Let_def has_sequence_iff)
  qed (auto simp: Let_def)
qed

interpretation check_view: sequenced_view reduceSopQualityCheckEvent v_latestSequence
  "\<lambda>e. Some (ev_sequence e)" nodes_ok
  by unfold_locales (simp_all add: reduce_nodes_ok reduce_keeps)

end
