(* ===== verification/Observer.thy ===== *)
theory Observer
  imports SopCheckStream
begin

text \<open>
  The observer of a quality check, \<open>features/sop-quality-checks/components/SopQualityCheckObserver.tsx\<close>:
  what it renders for the result of \<open>useSopQualityCheck\<close>, as a value of a view type without the
  styling, the error it picks from the check's events and the element it scrolls. The ancestors of an
  element are a list, nearest first, with their computed \<open>overflow-y\<close>.
\<close>

subsection \<open>Labels\<close>

definition DEFAULT_REGISTERED_NODE_IDS :: "jstr list" where
  "DEFAULT_REGISTERED_NODE_IDS = [str ''load_sop'', str ''review_sop'', str ''summarize_result'', str ''submit_result'']"

definition NODE_LABELS :: "jstr js_obj" where
  "NODE_LABELS = [(str ''load_sop'', [0x8BFB, 0x53D6] @ str '' SOP''), (str ''review_sop'', [0x8D28, 0x68C0, 0x5206, 0x6790]),
     (str ''summarize_result'', [0x751F, 0x6210, 0x603B, 0x7ED3]), (str ''submit_result'', [0x63D0, 0x4EA4, 0x7ED3, 0x679C])]"

definition nodeLabel :: "jstr \<Rightarrow> jstr option" where
  \<comment> \<open>\<open>None\<close>: the lookup finds a member of \<open>Object.prototype\<close>, which is not a string\<close>
  "nodeLabel nodeId = (case obj_get nodeId NODE_LABELS of
     Some l \<Rightarrow> Some l
   | None \<Rightarrow> if nodeId \<in> set object_prototype_keys then None else Some nodeId)"

fun statusLabel :: "SopQualityCheckStatus \<Rightarrow> jstr" where
  "statusLabel Check_Running = [0x8FDB, 0x884C, 0x4E2D]"
| "statusLabel Check_Succeeded = [0x6210, 0x529F]"
| "statusLabel Check_Failed = [0x5931, 0x8D25]"
| "statusLabel Check_Cancelled = [0x5DF2, 0x53D6, 0x6D88]"
| "statusLabel Check_Interrupted = [0x5DF2, 0x4E2D, 0x65AD]"
| "statusLabel Check_Pending = [0x7B49, 0x5F85, 0x4E2D]"

fun connectionLabel :: "ConnectionStatus \<Rightarrow> jstr" where
  "connectionLabel Idle = [0x7B49, 0x5F85, 0x8FDE, 0x63A5]"
| "connectionLabel Connecting = [0x8FDE, 0x63A5, 0x4E2D]"
| "connectionLabel Reconnecting = [0x91CD, 0x65B0, 0x8FDE, 0x63A5, 0x4E2D]"
| "connectionLabel Closed = [0x5DF2, 0x65AD, 0x5F00]"
| "connectionLabel Open = str ''open''"

definition NodeStatusChip :: "node_status \<Rightarrow> bool \<Rightarrow> jstr" where
  "NodeStatusChip status running =
     (if running then [0x6D41, 0x5F0F, 0x8F93, 0x51FA, 0x4E2D]
      else case status of
        Node_Done \<Rightarrow> [0x5DF2, 0x5B8C, 0x6210]
      | Node_Error \<Rightarrow> [0x5931, 0x8D25]
      | Node_Interrupted \<Rightarrow> [0x5DF2, 0x4E2D, 0x65AD]
      | Node_Idle \<Rightarrow> [0x7B49, 0x5F85, 0x4E2D]
      | Node_Running \<Rightarrow> [0x8FD0, 0x884C, 0x4E2D])"

subsection \<open>Turns\<close>

datatype turn_body = Body_Markdown jstr bool | Body_Typing | Body_None | Body_No_Output

record turn =
  tn_node :: jstr
  tn_label :: "jstr option"
  tn_chip :: jstr
  tn_thinking :: "jstr option"
  tn_body :: turn_body
  tn_error :: "jstr option"

definition AssistantTurn :: "jstr \<Rightarrow> SopQualityNodeState \<Rightarrow> bool \<Rightarrow> turn" where
  "AssistantTurn nodeId node running =
     \<lparr>tn_node = nodeId, tn_label = nodeLabel nodeId, tn_chip = NodeStatusChip (node_status node) running,
      tn_thinking = (case thinkingText node of None \<Rightarrow> None | Some t \<Rightarrow> if trim t = [] then None else Some t),
      tn_body = (if trim (streamText node) \<noteq> [] then Body_Markdown (streamText node) running
                 else if running then Body_Typing
                 else if node_status node = Node_Error then Body_None else Body_No_Output),
      tn_error = Option.bind (node_error node) nonempty\<rparr>"

definition HumanTurn :: "SopQualityCheckDetail \<Rightarrow> jstr" where
  "HumanTurn detail = [0x8BF7, 0x5BF9] @ str '' SOP '' @ [96] @ check_sop_id detail @ [96]
     @ str '' '' @ [0x6267, 0x884C, 0x4E00, 0x6B21, 0x8D28, 0x91CF, 0x68C0, 0x67E5, 0x3002]"

definition ObserverFootnote :: "SopQualityCheckDetail \<Rightarrow> SopQualityCheckViewState \<Rightarrow> jstr" where
  "ObserverFootnote detail s =
     (let parts = [statusLabel (check_status detail)]
        @ (if isRunning s \<and> v_connectionStatus s \<noteq> Open then [connectionLabel (v_connectionStatus s)] else [])
      in join (str '' '' @ [0x00B7] @ str '' '') (filter (\<lambda>x. x \<noteq> []) parts))"

subsection \<open>The error of a check\<close>

definition is_check_failure :: "SopQualityCheckEvent \<Rightarrow> bool" where
  "is_check_failure event \<longleftrightarrow> ev_type event = Ev_Failed \<and> (ev_node event = None \<or> ev_node event = Some [])
     \<and> ev_message event \<noteq> None \<and> ev_message event \<noteq> Some []"

fun failure_before :: "SopQualityCheckEvent list \<Rightarrow> nat \<Rightarrow> jstr option" where
  \<comment> \<open>the loop from index \<open>i - 1\<close> down to \<open>0\<close>\<close>
  "failure_before es 0 = None"
| "failure_before es (Suc i) = (if is_check_failure (es ! i) then ev_message (es ! i) else failure_before es i)"

definition collectCheckError :: "SopQualityCheckViewState \<Rightarrow> SopQualityCheckDetail \<Rightarrow> jstr option" where
  "collectCheckError s detail =
     (case Option.bind (check_error detail) (\<lambda>e. json_str (obj_get (str ''message'') e)) of
        Some m \<Rightarrow> Some m
      | None \<Rightarrow> failure_before (events s) (length (events s)))"

subsection \<open>The view\<close>

record observer_view =
  ov_human :: jstr
  ov_turns :: "turn list"
  ov_placeholder :: bool
  ov_error :: "jstr option"
  ov_footnote :: jstr

definition SopQualityCheckObserverView ::
  "(jstr \<Rightarrow> jstr \<Rightarrow> int) \<Rightarrow> jstr list \<Rightarrow> SopQualityCheckDetail \<Rightarrow> SopQualityCheckViewState \<Rightarrow> observer_view" where
  "SopQualityCheckObserverView localeCompare registeredNodeIds detail s =
     (let orderedNodeIds = getOrderedNodeIds localeCompare s registeredNodeIds;
          checkError = Option.bind (collectCheckError s detail) nonempty
      in \<lparr>ov_human = HumanTurn detail,
          ov_turns = List.map_filter (\<lambda>nodeId. map_option (\<lambda>node.
            AssistantTurn nodeId node (isRunning s \<and> node_status node = Node_Running)) (obj_get nodeId (nodes s))) orderedNodeIds,
          ov_placeholder = (orderedNodeIds = [] \<and> checkError = None \<and> isRunning s),
          ov_error = checkError,
          ov_footnote = ObserverFootnote detail s\<rparr>)"

datatype observer_screen = Obs_Alert jstr | Obs_Text jstr | Obs_View observer_view | Obs_Throws js_exn

definition loading_text :: jstr where
  "loading_text = [0x6B63, 0x5728, 0x52A0, 0x8F7D, 0x8D28, 0x68C0] @ str ''...''"

definition expired_text :: jstr where
  "expired_text = [0x8D28, 0x68C0, 0x4E0D, 0x5B58, 0x5728, 0x6216, 0x5DF2, 0x8FC7, 0x671F, 0x3002]"

definition SopQualityCheckObserver ::
  "(jstr \<Rightarrow> jstr \<Rightarrow> int) \<Rightarrow> jstr list \<Rightarrow> check_hook \<Rightarrow> SessionViewState \<Rightarrow> observer_screen" where
  "SopQualityCheckObserver localeCompare registeredNodeIds h sessionState =
     (case effectiveState h sessionState of
        Inl x \<Rightarrow> Obs_Throws x
      | Inr s \<Rightarrow>
          (case visibleError h of
             Some e \<Rightarrow> Obs_Alert (error_message e)
           | None \<Rightarrow>
               (case visibleDetail h of
                  None \<Rightarrow> Obs_Text (if check_is_loading h then loading_text else expired_text)
                | Some detail \<Rightarrow> Obs_View (SopQualityCheckObserverView localeCompare registeredNodeIds detail s))))"

subsection \<open>Scrolling\<close>

fun findScrollParent :: "('elem \<times> jstr) list \<Rightarrow> 'elem option" where
  "findScrollParent [] = None"
| "findScrollParent ((parent, overflowY) # rest) =
     (if overflowY = str ''auto'' \<or> overflowY = str ''scroll'' then Some parent else findScrollParent rest)"

datatype 'elem scroll = Scroll_Top_To_Height 'elem | Scroll_Into_View | Scroll_Nothing

definition scrollToBottom :: "('elem \<times> jstr) list \<Rightarrow> bool \<Rightarrow> 'elem scroll" where
  \<comment> \<open>\<open>can\<close>: the target has a \<open>scrollIntoView\<close> method\<close>
  "scrollToBottom ancestors can = (case findScrollParent ancestors of
     Some p \<Rightarrow> Scroll_Top_To_Height p | None \<Rightarrow> if can then Scroll_Into_View else Scroll_Nothing)"

subsection \<open>Properties\<close>

lemma failure_before_find: "n \<le> length es \<Longrightarrow> failure_before es n = Option.bind (find is_check_failure (rev (take n es))) ev_message"
proof (induction n)
  case (Suc n)
  then have "take (Suc n) es = take n es @ [es ! n]" by (simp add: take_Suc_conv_app_nth)
  with Suc show ?case by simp
qed simp

text \<open>The error shown for a check: the message of the detail's error when it has one that is a
  string, and otherwise the message of the last event that reports a failure of the whole check
  with a message; the backward loop ends and finds exactly that event, however many there are.\<close>
theorem check_error_is_last_failure:
  "collectCheckError s detail =
     (case check_error detail of
        Some e \<Rightarrow> (case obj_get (str ''message'') e of
            Some (JStr m) \<Rightarrow> Some m
          | _ \<Rightarrow> Option.bind (find is_check_failure (rev (events s))) ev_message)
      | None \<Rightarrow> Option.bind (find is_check_failure (rev (events s))) ev_message)"
  by (simp add: collectCheckError_def failure_before_find split: option.split json.split)

lemma map_filter_total: "(\<forall>x \<in> set xs. g x \<noteq> None) \<Longrightarrow> map f (List.map_filter g xs) = map (\<lambda>x. f (the (g x))) xs"
  by (induction xs) (auto simp: map_filter_simps)

lemma turns_are_nodes:
  assumes "set registered \<inter> set object_prototype_keys = {}"
  shows "ov_turns (SopQualityCheckObserverView lc registered detail s)
    = map (\<lambda>k. AssistantTurn k (the (obj_get k (nodes s))) (isRunning s \<and> node_status (the (obj_get k (nodes s))) = Node_Running))
        (getOrderedNodeIds lc s registered)"
proof -
  let ?g = "\<lambda>k. map_option (\<lambda>n. AssistantTurn k n (isRunning s \<and> node_status n = Node_Running)) (obj_get k (nodes s))"
  have own: "obj_get k (nodes s) \<noteq> None" if "k \<in> set (getOrderedNodeIds lc s registered)" for k
    using that ordered_ids_set [OF assms] by (auto simp: obj_get_None_iff)
  then have "map id (List.map_filter ?g (getOrderedNodeIds lc s registered)) = map (\<lambda>k. id (the (?g k))) (getOrderedNodeIds lc s registered)"
    by (intro map_filter_total) auto
  also have "\<dots> = map (\<lambda>k. AssistantTurn k (the (obj_get k (nodes s))) (isRunning s \<and> node_status (the (obj_get k (nodes s))) = Node_Running))
      (getOrderedNodeIds lc s registered)"
  proof (rule map_cong [OF HOL.refl])
    fix k assume "k \<in> set (getOrderedNodeIds lc s registered)"
    then obtain n where "obj_get k (nodes s) = Some n" using own by blast
    then show "id (the (?g k)) = AssistantTurn k (the (obj_get k (nodes s)))
      (isRunning s \<and> node_status (the (obj_get k (nodes s))) = Node_Running)" by simp
  qed
  finally show ?thesis by (simp add: SopQualityCheckObserverView_def Let_def)
qed

text \<open>C26. The observer shows every node of the check as exactly one turn, in display order, with
  the node's own status, text and error; the text of a node is never hidden and never altered. A
  typing indicator is shown exactly for a running node of a running check without visible text, and
  the placeholder exactly while a running check has neither a node nor an error.\<close>
theorem observer_shows_every_node:
  fixes lc :: "jstr \<Rightarrow> jstr \<Rightarrow> int" and detail :: SopQualityCheckDetail
  assumes "set registered \<inter> set object_prototype_keys = {}" "distinct registered" "nodes_ok s"
  defines "v \<equiv> SopQualityCheckObserverView lc registered detail s"
  shows "map tn_node (ov_turns v) = getOrderedNodeIds lc s registered
    \<and> distinct (map tn_node (ov_turns v)) \<and> set (map tn_node (ov_turns v)) = set (obj_keys (nodes s))
    \<and> (t \<in> set (ov_turns v) \<and> obj_get (tn_node t) (nodes s) = Some n \<longrightarrow>
        (trim (streamText n) \<noteq> [] \<longrightarrow> (\<exists>b. tn_body t = Body_Markdown (streamText n) b))
        \<and> (tn_body t = Body_Typing \<longleftrightarrow> trim (streamText n) = [] \<and> isRunning s \<and> node_status n = Node_Running))
    \<and> (ov_placeholder v \<longleftrightarrow> nodes s = [] \<and> ov_error v = None \<and> isRunning s)"
proof -
  note turns = turns_are_nodes [OF assms(1), of lc detail s, folded v_def]
  have ids: "map tn_node (ov_turns v) = getOrderedNodeIds lc s registered"
    by (simp add: turns AssistantTurn_def comp_def)
  have "obj_ok (nodes s)" using assms(3) by (simp add: nodes_ok_def)
  then have "distinct (getOrderedNodeIds lc s registered)" using ordered_ids_distinct [OF assms(1,2)] by simp
  moreover have "set (getOrderedNodeIds lc s registered) = set (obj_keys (nodes s))" by (rule ordered_ids_set [OF assms(1)])
  moreover from this have "getOrderedNodeIds lc s registered = [] \<longleftrightarrow> nodes s = []" by (auto simp: obj_keys_def)
  moreover have "(trim (streamText n) \<noteq> [] \<longrightarrow> (\<exists>b. tn_body t = Body_Markdown (streamText n) b))
      \<and> (tn_body t = Body_Typing \<longleftrightarrow> trim (streamText n) = [] \<and> isRunning s \<and> node_status n = Node_Running)"
    if tn: "t \<in> set (ov_turns v)" "obj_get (tn_node t) (nodes s) = Some n"
  proof -
    obtain k where "t = AssistantTurn k (the (obj_get k (nodes s))) (isRunning s \<and> node_status (the (obj_get k (nodes s))) = Node_Running)"
      using tn(1) unfolding turns set_map by blast
    with tn(2) have "t = AssistantTurn k n (isRunning s \<and> node_status n = Node_Running)" by (simp add: AssistantTurn_def)
    then show ?thesis by (simp add: AssistantTurn_def)
  qed
  ultimately show ?thesis using ids by (auto simp: v_def SopQualityCheckObserverView_def Let_def)
qed

theorem observer_shows_every_node_witness:
  "map tn_node (ov_turns (SopQualityCheckObserverView (\<lambda>_ _. 0) [str ''load''] (demo_detail Check_Running 0) demo_check_state))
   = getOrderedNodeIds (\<lambda>_ _. 0) demo_check_state [str ''load'']"
proof -
  have "nodes_ok demo_check_state" unfolding demo_check_state_def by (simp add: reduce_nodes_ok)
  moreover have "set [str ''load''] \<inter> set object_prototype_keys = {}" "distinct [str ''load'']"
    by (simp_all add: object_prototype_keys_def)
  ultimately show ?thesis
    using observer_shows_every_node [where registered = "[str ''load'']" and s = demo_check_state and lc = "\<lambda>_ _. 0" and detail = "demo_detail Check_Running 0"] by blast
qed

text \<open>The text that says a check does not exist or has expired is never shown: the hook reports
  loading whenever it has neither a detail nor an error.\<close>
lemma expired_text_is_never_shown:
  "SopQualityCheckObserver lc registered h st \<noteq> Obs_Text expired_text"
proof -
  have "loading_text \<noteq> expired_text" by (simp add: loading_text_def expired_text_def)
  then show ?thesis
    by (auto simp: SopQualityCheckObserver_def check_is_loading_def split: sum.splits option.splits)
qed

lemma scroll_parent_is_nearest:
  "findScrollParent ancestors = map_option fst (find (\<lambda>(e, ov). ov = str ''auto'' \<or> ov = str ''scroll'') ancestors)"
  by (induction ancestors rule: findScrollParent.induct) auto

end
