(* ===== verification/KeyValue.thy ===== *)
theory KeyValue
  imports Prelude
begin

text \<open>
  The text formats of the configuration forms: \<open>KEY=VALUE\<close> lines for environments, headers and
  queries, one argument per line, one model per line
  (\<open>features/mcp/components/McpServerForm.tsx\<close> and
  \<open>features/llmProviders/components/LlmProviderForm.tsx\<close>). The locale \<open>text_format\<close> states
  what a form relies on, that printing a well-formed value and parsing it again gives the value
  back and that parsing yields only well-formed values; each of the four formats is an
  interpretation of it.
\<close>

subsection \<open>The interface\<close>

locale text_format =
  fixes print :: "'a \<Rightarrow> jstr"
    and parse :: "jstr \<Rightarrow> 'a option"
    and ok :: "'a \<Rightarrow> bool"
  assumes parse_print: "ok x \<Longrightarrow> parse (print x) = Some x"
    and parse_ok: "parse t = Some x \<Longrightarrow> ok x"
begin

definition normalize :: "jstr \<Rightarrow> jstr option" where
  "normalize t = map_option print (parse t)"

lemma print_inject: "ok x \<Longrightarrow> ok y \<Longrightarrow> print x = print y \<Longrightarrow> x = y"
  by (metis option.inject parse_print)

lemma reparse: "parse t = Some x \<Longrightarrow> parse (print x) = Some x"
  using parse_ok parse_print by blast

lemma normalize_idempotent: "normalize t = Some u \<Longrightarrow> normalize u = Some u"
  by (auto simp: normalize_def reparse)

end

subsection \<open>Lines\<close>

datatype kv_line = Blank | No_Separator | Empty_Key | Entry jstr jstr

definition kv_line :: "jstr \<Rightarrow> kv_line" where
  "kv_line rawLine =
     (let line = trim rawLine in
      if line = [] then Blank
      else
        let separatorIndex = indexOf 61 line in
        if separatorIndex \<le> 0 then No_Separator
        else
          let key = trim (take (nat separatorIndex) line);
              item = trim (drop (nat separatorIndex + 1) line)
          in if key = [] then Empty_Key else Entry key item)"

definition assign_entry :: "jstr \<Rightarrow> jstr \<Rightarrow> jstr js_obj \<Rightarrow> jstr js_obj" where
  \<comment> \<open>\<open>ob[k] = v\<close> with a string \<open>v\<close>: assigning to \<open>__proto__\<close> has no effect\<close>
  "assign_entry k v ob = (if k = str ''__proto__'' then ob else obj_set k v ob)"

definition keyValueMapToText :: "jstr js_obj \<Rightarrow> jstr" where
  "keyValueMapToText value = join [10] (map (\<lambda>(k, v). k @ [61] @ v) value)"

record kv_result =
  kv_error :: "jstr option"
  kv_value :: "jstr js_obj"

definition kv_format_text :: jstr where
  "kv_format_text = [0x9700, 0x8981, 0x4F7F, 0x7528, 32] @ str ''KEY=VALUE'' @ [32, 0x683C, 0x5F0F, 0x3002]"

definition mcp_line_error :: "jstr \<Rightarrow> int \<Rightarrow> jstr" where
  "mcp_line_error label index =
     label @ [32, 0x7B2C, 32] @ num_str (index + 1) @ [32, 0x884C] @ kv_format_text"

fun mcp_parse_lines :: "jstr \<Rightarrow> int \<Rightarrow> jstr js_obj \<Rightarrow> jstr list \<Rightarrow> kv_result" where
  "mcp_parse_lines label index parsed [] = \<lparr>kv_error = None, kv_value = parsed\<rparr>"
| "mcp_parse_lines label index parsed (l # ls) =
     (case kv_line l of
        Blank \<Rightarrow> mcp_parse_lines label (index + 1) parsed ls
      | Entry k v \<Rightarrow> mcp_parse_lines label (index + 1) (assign_entry k v parsed) ls
      | _ \<Rightarrow> \<lparr>kv_error = Some (mcp_line_error label index), kv_value = []\<rparr>)"

definition mcp_parseKeyValueText :: "jstr \<Rightarrow> jstr \<Rightarrow> kv_result" where
  "mcp_parseKeyValueText label value = mcp_parse_lines label 0 [] (split_lines value)"

fun llm_parse_lines :: "jstr \<Rightarrow> jstr js_obj \<Rightarrow> jstr list \<Rightarrow> kv_result" where
  "llm_parse_lines label value [] = \<lparr>kv_error = None, kv_value = value\<rparr>"
| "llm_parse_lines label value (l # ls) =
     (case kv_line l of
        Blank \<Rightarrow> llm_parse_lines label value ls
      | Entry k v \<Rightarrow> llm_parse_lines label (assign_entry k v value) ls
      | No_Separator \<Rightarrow> \<lparr>kv_error = Some (label @ [32] @ kv_format_text), kv_value = value\<rparr>
      | Empty_Key \<Rightarrow> \<lparr>kv_error = Some (label @ [32, 0x5B58, 0x5728, 0x7A7A, 32] @ str ''key'' @ [0x3002]), kv_value = value\<rparr>)"

definition llm_parseKeyValueText :: "jstr \<Rightarrow> jstr \<Rightarrow> kv_result" where
  "llm_parseKeyValueText label text = llm_parse_lines label [] (split_lines text)"

definition argsToText :: "jstr list \<Rightarrow> jstr" where
  "argsToText args = join [10] args"

definition parseArgsText :: "jstr \<Rightarrow> jstr list" where
  "parseArgsText value = filter (\<lambda>line. 0 < length line) (map trim (split_lines value))"

definition modelsToText :: "jstr list \<Rightarrow> jstr" where
  "modelsToText value = join [10] value"

fun models_loop :: "jstr list \<Rightarrow> jstr list \<Rightarrow> jstr list" where
  \<comment> \<open>\<open>seen\<close> holds exactly the members of \<open>models\<close>\<close>
  "models_loop models [] = models"
| "models_loop models (rawLine # ls) =
     (let model = trim rawLine in
      if model = [] \<or> List.member models model then models_loop models ls
      else models_loop (models @ [model]) ls)"

definition parseModelsText :: "jstr \<Rightarrow> jstr list" where
  "parseModelsText text = models_loop [] (split_lines text)"

subsection \<open>Well-formed values\<close>

definition text_ok :: "jstr \<Rightarrow> bool" where
  "text_ok s \<longleftrightarrow> trimmed s \<and> 10 \<notin> set s"

definition key_ok :: "jstr \<Rightarrow> bool" where
  "key_ok k \<longleftrightarrow> text_ok k \<and> k \<noteq> [] \<and> 61 \<notin> set k \<and> k \<noteq> str ''__proto__''"

definition kv_ok :: "jstr js_obj \<Rightarrow> bool" where
  "kv_ok ob \<longleftrightarrow> obj_ok ob \<and> (\<forall>(k, v) \<in> set ob. key_ok k \<and> text_ok v)"

definition lines_ok :: "jstr list \<Rightarrow> bool" where
  "lines_ok ls \<longleftrightarrow> (\<forall>l \<in> set ls. text_ok l \<and> l \<noteq> [])"

lemma no_newline_trim: "10 \<notin> set s \<Longrightarrow> text_ok (trim s)"
  using set_trim by (auto simp: text_ok_def)

lemma kv_line_not_Empty_Key: "kv_line l \<noteq> Empty_Key"
proof -
  let ?line = "trim l" and ?i = "nat (indexOf 61 (trim l))"
  have "trim (take ?i ?line) \<noteq> []" if "?line \<noteq> []" "0 < indexOf 61 ?line"
  proof -
    from that obtain c cs where c: "?line = c # cs" by (cases ?line) auto
    with trimmed_trim [of l] have "\<not> is_ws c" by (simp add: trimmed_def)
    moreover from that(2) c obtain ds where "take ?i ?line = c # ds" by (cases ?i) auto
    ultimately have "dropWhile is_ws (take ?i ?line) = c # ds" by simp
    then have "trim (take ?i ?line) = rev (dropWhile is_ws (rev (c # ds)))" by (simp only: trim_def)
    moreover have "c \<in> set (rev (dropWhile is_ws (rev (c # ds))))"
      using \<open>\<not> is_ws c\<close> by (simp add: dropWhile_append)
    ultimately show ?thesis by (metis empty_iff list.set(1))
  qed
  then show ?thesis by (auto simp: kv_line_def Let_def)
qed

lemma kv_line_Entry:
  assumes "kv_line l = Entry k v" "10 \<notin> set l"
  shows "text_ok k \<and> k \<noteq> [] \<and> 61 \<notin> set k \<and> text_ok v"
proof -
  let ?line = "trim l"
  let ?i = "nat (indexOf 61 ?line)"
  from assms(1) have i: "0 \<le> indexOf 61 ?line" and kv: "k = trim (take ?i ?line)" "v = trim (drop (?i + 1) ?line)" "k \<noteq> []"
    by (auto simp: kv_line_def Let_def split: if_splits)
  have nl: "10 \<notin> set ?line" using assms(2) set_trim by blast
  have "61 \<notin> set (take ?i ?line)" using indexOf_split [OF i] by blast
  then have "61 \<notin> set k" using kv(1) set_trim by blast
  moreover have "10 \<notin> set (take ?i ?line)" "10 \<notin> set (drop (?i + 1) ?line)"
    using nl by (auto dest: in_set_takeD in_set_dropD)
  ultimately show ?thesis using kv no_newline_trim by metis
qed

lemma trimmed_entry:
  assumes "trimmed k" "k \<noteq> []" "trimmed v"
  shows "trimmed (k @ [61] @ v)"
  using assms by (auto simp: trimmed_def)

lemma kv_line_print:
  assumes "trimmed k" "k \<noteq> []" "61 \<notin> set k" "trimmed v"
  shows "kv_line (k @ [61] @ v) = Entry k v"
proof -
  have "trim (k @ [61] @ v) = k @ 61 # v" using trim_id [OF trimmed_entry [OF assms(1,2,4)]] by simp
  moreover have "indexOf 61 (k @ 61 # v) = int (length k)" by (rule indexOf_append [OF assms(3)])
  ultimately show ?thesis using assms by (simp add: kv_line_def Let_def trim_id)
qed

lemma kv_line_Nil [simp]: "kv_line [] = Blank"
  by (simp add: kv_line_def trim_def)

lemma assign_entry_ok: "obj_ok ob \<Longrightarrow> obj_ok (assign_entry k v ob)"
  by (simp add: assign_entry_def)

lemma set_obj_insert: "set (obj_insert k v ob) = insert (k, v) (set ob)"
  by (induction k v ob rule: obj_insert.induct) auto

lemma set_obj_set_subset: "set (obj_set k v ob) \<subseteq> insert (k, v) (set ob)"
  by (auto simp: obj_set_def set_obj_insert split: if_splits)

lemma assign_entry_kv_ok:
  assumes "kv_ok ob" "text_ok k" "k \<noteq> []" "61 \<notin> set k" "text_ok v"
  shows "kv_ok (assign_entry k v ob)"
  using assms set_obj_set_subset [of k v ob]
  by (auto simp: kv_ok_def key_ok_def assign_entry_def)

lemma mcp_parse_lines_ok:
  "\<lbrakk>kv_ok ob; \<forall>l \<in> set ls. 10 \<notin> set l\<rbrakk> \<Longrightarrow> kv_ok (kv_value (mcp_parse_lines lb i ob ls))"
proof (induction lb i ob ls rule: mcp_parse_lines.induct)
  case (2 lb i ob l ls)
  show ?case
  proof (cases "kv_line l")
    case (Entry k v)
    with 2 kv_line_Entry [OF Entry] show ?thesis by (simp add: assign_entry_kv_ok)
  qed (use 2 in \<open>auto simp: kv_ok_def\<close>)
qed simp

lemma parsers_agree:
  "kv_error (mcp_parse_lines lb i ob ls) = None \<longleftrightarrow> kv_error (llm_parse_lines lb' ob ls) = None"
  "kv_error (mcp_parse_lines lb i ob ls) = None \<Longrightarrow> kv_value (mcp_parse_lines lb i ob ls) = kv_value (llm_parse_lines lb' ob ls)"
  by (induction lb i ob ls rule: mcp_parse_lines.induct) (auto split: kv_line.split)

lemma assign_entry_last:
  "kv_ok (ob @ [(k, v)]) \<Longrightarrow> assign_entry k v ob = ob @ [(k, v)]"
  using obj_set_last by (auto simp: kv_ok_def key_ok_def assign_entry_def)

lemma mcp_parse_entries:
  "kv_ok (ob @ es) \<Longrightarrow> mcp_parse_lines lb i ob (map (\<lambda>(k, v). k @ [61] @ v) es) = \<lparr>kv_error = None, kv_value = ob @ es\<rparr>"
proof (induction es arbitrary: ob i)
  case (Cons e es)
  obtain k v where [simp]: "e = (k, v)" by (cases e)
  have line: "kv_line (k @ [61] @ v) = Entry k v"
    using Cons.prems by (intro kv_line_print) (auto simp: kv_ok_def key_ok_def text_ok_def)
  have "kv_ok (ob @ [(k, v)])"
    using Cons.prems obj_ok_append1 [of "ob @ [(k, v)]" es] by (auto simp: kv_ok_def)
  then have "assign_entry k v ob = ob @ [(k, v)]" by (rule assign_entry_last)
  with line Cons.IH [of "ob @ [(k, v)]"] Cons.prems show ?case by simp
qed simp

lemma entry_line_ok: "key_ok k \<Longrightarrow> text_ok v \<Longrightarrow> line_ok (k @ [61] @ v)"
  using trimmed_entry by (intro trimmed_line_ok) (auto simp: key_ok_def text_ok_def)

lemma keyValueMapToText_lines:
  "kv_ok ob \<Longrightarrow> ob \<noteq> [] \<Longrightarrow> split_lines (keyValueMapToText ob) = map (\<lambda>(k, v). k @ [61] @ v) ob"
  unfolding keyValueMapToText_def
  by (rule split_lines_join) (use entry_line_ok in \<open>auto simp: kv_ok_def\<close>)

lemma mcp_round_trip:
  assumes "kv_ok ob"
  shows "mcp_parseKeyValueText lb (keyValueMapToText ob) = \<lparr>kv_error = None, kv_value = ob\<rparr>"
proof (cases "ob = []")
  case True
  then show ?thesis by (simp add: mcp_parseKeyValueText_def keyValueMapToText_def)
next
  case False
  with mcp_parse_entries [of "[]" ob] assms show ?thesis
    by (simp add: mcp_parseKeyValueText_def keyValueMapToText_lines)
qed

lemma mcp_parse_ok: "kv_ok (kv_value (mcp_parseKeyValueText lb t))"
  unfolding mcp_parseKeyValueText_def
  by (rule mcp_parse_lines_ok) (auto simp: kv_ok_def dest: split_lines_no_newline)

lemma llm_as_mcp:
  "kv_error (llm_parseKeyValueText lb t) = None \<longleftrightarrow> kv_error (mcp_parseKeyValueText lb' t) = None"
  "kv_error (mcp_parseKeyValueText lb' t) = None \<Longrightarrow> kv_value (llm_parseKeyValueText lb t) = kv_value (mcp_parseKeyValueText lb' t)"
  using parsers_agree [of lb' 0 "[]" "split_lines t" lb]
  by (simp_all add: mcp_parseKeyValueText_def llm_parseKeyValueText_def)

lemma llm_round_trip:
  "kv_ok ob \<Longrightarrow> kv_error (llm_parseKeyValueText lb (keyValueMapToText ob)) = None
     \<and> kv_value (llm_parseKeyValueText lb (keyValueMapToText ob)) = ob"
  using llm_as_mcp [where lb = lb and t = "keyValueMapToText ob" and lb' = "[]"] mcp_round_trip [of ob "[]"]
  by simp

definition kv_result_option :: "kv_result \<Rightarrow> jstr js_obj option" where
  "kv_result_option r = (if kv_error r = None then Some (kv_value r) else None)"

interpretation mcp_kv: text_format keyValueMapToText "\<lambda>t. kv_result_option (mcp_parseKeyValueText label t)" kv_ok
  for label
  using mcp_parse_ok
  by unfold_locales (auto simp: kv_result_option_def mcp_round_trip split: if_splits)

interpretation llm_kv: text_format keyValueMapToText "\<lambda>t. kv_result_option (llm_parseKeyValueText label t)" kv_ok
  for label
proof
  fix x assume "kv_ok x"
  then show "kv_result_option (llm_parseKeyValueText label (keyValueMapToText x)) = Some x"
    using llm_round_trip [of x label] by (simp add: kv_result_option_def)
next
  fix t x assume "kv_result_option (llm_parseKeyValueText label t) = Some x"
  then show "kv_ok x"
    using llm_as_mcp [where lb = label and t = t and lb' = label] mcp_parse_ok [of label t] by (auto simp: kv_result_option_def split: if_splits)
qed

subsection \<open>Line lists\<close>

lemma text_ok_lines: "lines_ok ls \<Longrightarrow> ls \<noteq> [] \<Longrightarrow> split_lines (join [10] ls) = ls"
  by (rule split_lines_join) (auto simp: lines_ok_def text_ok_def intro: trimmed_line_ok)

lemma map_trim_id: "lines_ok ls \<Longrightarrow> map trim ls = ls"
  by (rule map_idI) (auto simp: lines_ok_def text_ok_def trim_id)

lemma args_round_trip: "lines_ok args \<Longrightarrow> parseArgsText (argsToText args) = args"
proof (cases "args = []")
  case True
  then show ?thesis by (simp add: parseArgsText_def argsToText_def trim_def)
next
  case False
  assume "lines_ok args"
  with False show ?thesis
    by (auto simp: parseArgsText_def argsToText_def text_ok_lines map_trim_id filter_id_conv lines_ok_def)
qed

lemma args_parse_ok: "lines_ok (parseArgsText t)"
  by (auto simp: parseArgsText_def lines_ok_def intro: no_newline_trim dest: split_lines_no_newline)

interpretation args_text: text_format argsToText "\<lambda>t. Some (parseArgsText t)" lines_ok
  using args_round_trip args_parse_ok by unfold_locales auto

lemma models_loop_spec:
  "distinct models \<Longrightarrow> distinct (models_loop models ls) \<and>
     set (models_loop models ls) = set models \<union> (trim ` set ls - {[]}) \<and> prefix models (models_loop models ls)"
proof (induction models ls rule: models_loop.induct)
  case (2 models l ls)
  show ?case
  proof (cases "trim l = [] \<or> trim l \<in> set models")
    case True
    with 2 show ?thesis by (auto simp: Let_def)
  next
    case False
    with 2(2) [OF refl] 2(3) have ih: "distinct (models_loop (models @ [trim l]) ls)"
      "set (models_loop (models @ [trim l]) ls) = set (models @ [trim l]) \<union> (trim ` set ls - {[]})"
      "prefix (models @ [trim l]) (models_loop (models @ [trim l]) ls)" by (auto simp: Let_def)
    then have "prefix models (models_loop (models @ [trim l]) ls)" by (meson append_prefixD)
    with ih False show ?thesis by (auto simp: Let_def)
  qed
qed simp

lemma models_loop_fresh:
  "distinct (models @ ls) \<Longrightarrow> lines_ok ls \<Longrightarrow> models_loop models ls = models @ ls"
proof (induction ls arbitrary: models)
  case (Cons l ls)
  then have "trim l = l" "l \<noteq> []" by (auto simp: lines_ok_def text_ok_def trim_id)
  with Cons show ?case by (auto simp: Let_def lines_ok_def)
qed simp

definition models_ok :: "jstr list \<Rightarrow> bool" where
  "models_ok ms \<longleftrightarrow> distinct ms \<and> lines_ok ms"

lemma models_round_trip: "models_ok ms \<Longrightarrow> parseModelsText (modelsToText ms) = ms"
proof (cases "ms = []")
  case True
  then show ?thesis by (simp add: parseModelsText_def modelsToText_def trim_def)
next
  case False
  assume "models_ok ms"
  with False show ?thesis
    by (simp add: models_ok_def parseModelsText_def modelsToText_def text_ok_lines models_loop_fresh)
qed

lemma models_parse_ok: "models_ok (parseModelsText t)"
  using models_loop_spec [of "[]" "split_lines t"]
  by (auto simp: models_ok_def lines_ok_def parseModelsText_def intro: no_newline_trim dest: split_lines_no_newline)

interpretation models_text: text_format modelsToText "\<lambda>t. Some (parseModelsText t)" models_ok
  using models_round_trip models_parse_ok by unfold_locales auto

lemma parseModelsText_members:
  "m \<in> set (parseModelsText t) \<longleftrightarrow> m \<noteq> [] \<and> m \<in> trim ` set (split_lines t)"
  using models_loop_spec [of "[]" "split_lines t"] by (auto simp: parseModelsText_def)

subsection \<open>Errors\<close>

fun first_index :: "('a \<Rightarrow> bool) \<Rightarrow> 'a list \<Rightarrow> nat option" where
  "first_index P [] = None"
| "first_index P (x # xs) = (if P x then Some 0 else map_option Suc (first_index P xs))"

lemma first_index_Some:
  "first_index P xs = Some n \<longleftrightarrow> n < length xs \<and> P (xs ! n) \<and> (\<forall>m < n. \<not> P (xs ! m))"
proof (induction xs arbitrary: n)
  case (Cons x xs)
  show ?case
  proof (cases n)
    case 0
    then show ?thesis by auto
  next
    case (Suc m)
    have "(\<forall>j < Suc m. \<not> P ((x # xs) ! j)) \<longleftrightarrow> \<not> P x \<and> (\<forall>j < m. \<not> P (xs ! j))"
      by (auto simp: less_Suc_eq_0_disj)
    with Suc Cons.IH [of m] show ?thesis by auto
  qed
qed simp

lemma mcp_error_index:
  "kv_error (mcp_parse_lines lb i ob ls) =
     map_option (\<lambda>n. mcp_line_error lb (i + int n)) (first_index (\<lambda>l. kv_line l = No_Separator) ls)"
proof (induction lb i ob ls rule: mcp_parse_lines.induct)
  case (2 lb i ob l ls)
  have "kv_line l \<noteq> Empty_Key" by (rule kv_line_not_Empty_Key)
  with 2 show ?case by (cases "kv_line l") (simp_all add: option.map_comp comp_def add.assoc)
qed simp

subsection \<open>Properties\<close>

text \<open>C29. \<open>KEY=VALUE\<close> text round-trips in both forms: printing a map whose keys are non-empty,
  trimmed, free of \<open>=\<close> and line breaks and not \<open>__proto__\<close>, and whose values are trimmed and free
  of line breaks, and parsing the text gives the same map in the same order, without error.\<close>
theorem key_value_round_trip:
  assumes "kv_ok ob"
  shows "mcp_parseKeyValueText label (keyValueMapToText ob) = \<lparr>kv_error = None, kv_value = ob\<rparr>
    \<and> kv_error (llm_parseKeyValueText label' (keyValueMapToText ob)) = None
    \<and> kv_value (llm_parseKeyValueText label' (keyValueMapToText ob)) = ob"
  using mcp_round_trip [OF assms] llm_round_trip [OF assms] by blast

definition demo_env :: "jstr js_obj" where
  "demo_env = [(str ''TOKEN'', str ''a=b''), (str ''EMPTY'', [])]"

lemma demo_env_ok: "kv_ok demo_env"
  by code_simp

theorem key_value_round_trip_witness:
  "keyValueMapToText demo_env = str ''TOKEN=a=b'' @ [10] @ str ''EMPTY=''
   \<and> mcp_parseKeyValueText (str ''env'') (keyValueMapToText demo_env) = \<lparr>kv_error = None, kv_value = demo_env\<rparr>"
  using key_value_round_trip [OF demo_env_ok, of "str ''env''"] by (simp add: demo_env_def keyValueMapToText_def str_def)

text \<open>Whatever text is typed, both parsers accept the same texts and yield the same map,
  and that map is well formed, so saving a form and opening it again shows a text that parses to
  the same map.\<close>
theorem key_value_parsers_agree:
  "(kv_error (mcp_parseKeyValueText l t) = None \<longleftrightarrow> kv_error (llm_parseKeyValueText l' t) = None)
   \<and> kv_ok (kv_value (mcp_parseKeyValueText l t))
   \<and> (kv_error (mcp_parseKeyValueText l t) = None \<longrightarrow>
        kv_value (llm_parseKeyValueText l' t) = kv_value (mcp_parseKeyValueText l t)
        \<and> mcp_parseKeyValueText l (keyValueMapToText (kv_value (mcp_parseKeyValueText l t)))
            = mcp_parseKeyValueText l t)"
proof -
  have "mcp_parseKeyValueText l (keyValueMapToText (kv_value (mcp_parseKeyValueText l t)))
      = mcp_parseKeyValueText l t" if "kv_error (mcp_parseKeyValueText l t) = None"
    using mcp_round_trip [OF mcp_parse_ok, of l l t] that by (simp add: kv_result.equality)
  then show ?thesis using llm_as_mcp [where lb = l' and t = t and lb' = l] mcp_parse_ok by blast
qed

theorem key_value_parsers_agree_witness:
  "kv_value (llm_parseKeyValueText (str ''H'') (str '' A = 1 '' @ [13, 10, 10] @ str ''B=2'')) = [(str ''A'', str ''1''), (str ''B'', str ''2'')]"
proof -
  have v: "mcp_parseKeyValueText (str ''e'') (str '' A = 1 '' @ [13, 10, 10] @ str ''B=2'')
      = \<lparr>kv_error = None, kv_value = [(str ''A'', str ''1''), (str ''B'', str ''2'')]\<rparr>" by code_simp
  with key_value_parsers_agree [of "str ''e''" "str '' A = 1 '' @ [13, 10, 10] @ str ''B=2''" "str ''H''"]
  show ?thesis by simp
qed

text \<open>The MCP form reports the first bad line: parsing fails exactly when some line, trimmed,
  is non-empty and has no \<open>=\<close> after its first character, and the message names the one-based
  number of the first such line. The branch for an empty key is never taken.\<close>
theorem key_value_error_names_first_bad_line:
  defines "bad t n \<equiv> kv_line (split_lines t ! n) = No_Separator"
  shows "(kv_error (mcp_parseKeyValueText label t) = Some e \<longleftrightarrow>
     (\<exists>n < length (split_lines t). bad t n \<and> (\<forall>m < n. \<not> bad t m) \<and> e = mcp_line_error label (int n)))
   \<and> kv_line l \<noteq> Empty_Key"
  using mcp_error_index [of label 0 "[]" "split_lines t"] kv_line_not_Empty_Key
  by (auto simp: mcp_parseKeyValueText_def first_index_Some bad_def)

theorem key_value_error_names_first_bad_line_witness:
  "kv_error (mcp_parseKeyValueText (str ''env'') (str ''A=1'' @ [10] @ str ''wrong'' @ [10] @ str ''=x'')) = Some (mcp_line_error (str ''env'') 1)"
proof -
  let ?t = "str ''A=1'' @ [10] @ str ''wrong'' @ [10] @ str ''=x''"
  have l: "split_lines ?t = [str ''A=1'', str ''wrong'', str ''=x'']" by code_simp
  have "kv_line (str ''wrong'') = No_Separator" "kv_line (str ''A=1'') = Entry (str ''A'') (str ''1'')" by code_simp+
  then have "\<exists>n < length (split_lines ?t). kv_line (split_lines ?t ! n) = No_Separator
      \<and> (\<forall>m < n. \<not> kv_line (split_lines ?t ! m) = No_Separator) \<and> mcp_line_error (str ''env'') 1 = mcp_line_error (str ''env'') (int n)"
    unfolding l by (intro exI [of _ 1]) simp
  then show ?thesis using key_value_error_names_first_bad_line [of "str ''env''" ?t] by blast
qed

text \<open>Model lists: parsing yields the distinct non-empty trimmed lines, and a list of distinct,
  non-empty, trimmed one-line names round-trips through the text area; argument lists round-trip
  with repetitions kept.\<close>
theorem line_lists_round_trip:
  "distinct (parseModelsText t)
   \<and> (m \<in> set (parseModelsText t) \<longleftrightarrow> m \<noteq> [] \<and> m \<in> trim ` set (split_lines t))
   \<and> (distinct ls \<and> lines_ok ls \<longrightarrow> parseModelsText (modelsToText ls) = ls)
   \<and> (lines_ok ls \<longrightarrow> parseArgsText (argsToText ls) = ls)"
  using models_parse_ok [of t] parseModelsText_members models_round_trip args_round_trip
  by (auto simp: models_ok_def)

theorem line_lists_round_trip_witness:
  "parseModelsText (modelsToText [str ''gpt-5'', str ''gpt-5-mini'']) = [str ''gpt-5'', str ''gpt-5-mini'']
   \<and> parseArgsText (argsToText [str ''-v'', str ''-v'']) = [str ''-v'', str ''-v'']"
proof -
  have "lines_ok [str ''gpt-5'', str ''gpt-5-mini'']" "lines_ok [str ''-v'', str ''-v'']" by code_simp+
  then show ?thesis
    using line_lists_round_trip [where ls = "[str ''gpt-5'', str ''gpt-5-mini'']"]
      line_lists_round_trip [where ls = "[str ''-v'', str ''-v'']"] by simp
qed

end
