(* ===== verification/WireEvents.thy ===== *)
theory WireEvents
  imports SessionStream SopCheckStream "HOL-Library.Monad_Syntax"
begin

text \<open>
  From the text of a server-sent event to the typed events of the two stream hooks. The parsers of
  \<open>features/sessions/hooks.ts\<close> and \<open>features/sop-quality-checks/hooks.ts\<close> check a few fields of the
  parsed value and cast it to the event type; \<open>read_session_event\<close> and \<open>read_check_event\<close> say when
  such a value really has that type, and as which event. The theorems: the parsers accept every
  well-typed event, what they accept has the fields they check, and on well-typed texts the message
  handlers are the operations of the hooks. The reducer on a delta that only passed the parser is
  modelled as well, with the exception it can throw.
\<close>

subsection \<open>Reading fields\<close>

fun json_obj :: "json option \<Rightarrow> json js_obj option" where
  "json_obj (Some (JObj ob)) = Some ob"
| "json_obj _ = None"

fun optional_str :: "json option \<Rightarrow> jstr option option" where
  \<comment> \<open>a property of type \<open>string | null | undefined\<close>\<close>
  "optional_str None = Some None"
| "optional_str (Some JNull) = Some None"
| "optional_str (Some (JStr s)) = Some (Some s)"
| "optional_str _ = None"

fun nullable_num :: "json option \<Rightarrow> int option option" where
  \<comment> \<open>a property of type \<open>number | null\<close>\<close>
  "nullable_num (Some JNull) = Some None"
| "nullable_num (Some (JNum n)) = Some (Some n)"
| "nullable_num _ = None"

subsection \<open>Session events\<close>

definition role_names :: "(jstr \<times> SessionMessageRole) list" where
  "role_names = [(str ''user'', User), (str ''assistant'', Assistant), (str ''tool'', Tool), (str ''system'', System)]"

definition terminal_names :: "(jstr \<times> terminal_type) list" where
  "terminal_names = [(str ''completed'', Completed), (str ''failed'', Failed), (str ''interrupted'', Interrupted)]"

definition read_session_event :: "json \<Rightarrow> SessionStreamEvent option" where
  "read_session_event v = do {
     ty \<leftarrow> json_str (json_field (str ''type'') v);
     sid \<leftarrow> json_num (json_field (str ''session_id'') v);
     if ty = str ''message'' then do {
       sequence \<leftarrow> json_num (json_field (str ''sequence'') v);
       role \<leftarrow> Option.bind (json_str (json_field (str ''role'') v)) (map_of role_names);
       content \<leftarrow> json_str (json_field (str ''content'') v);
       kwargs \<leftarrow> json_obj (json_field (str ''additional_kwargs'') v);
       created \<leftarrow> optional_str (json_field (str ''created_at'') v);
       Some (Message sid sequence role content kwargs created) }
     else if ty = str ''message_delta'' then do {
       sequence \<leftarrow> nullable_num (json_field (str ''sequence'') v);
       role \<leftarrow> Option.bind (json_str (json_field (str ''role'') v)) (map_of role_names);
       content \<leftarrow> json_str (json_field (str ''content'') v);
       kwargs \<leftarrow> json_obj (json_field (str ''additional_kwargs'') v);
       Some (Message_Delta sid sequence role content kwargs) }
     else do { t \<leftarrow> map_of terminal_names ty; Some (Terminal t sid) } }"

definition handle_wire :: "json_parser \<Rightarrow> nat \<Rightarrow> jstr \<Rightarrow> session_hook \<Rightarrow> session_hook option" where
  \<comment> \<open>the handler on the text of an event; \<open>None\<close> where the event is not of its declared type\<close>
  "handle_wire json_parse n data h =
     (if \<not> current_source n h then Some h
      else case parseSessionStreamEvent json_parse data of
        None \<Rightarrow> Some h
      | Some event \<Rightarrow> map_option (\<lambda>e. handle n e h) (read_session_event event))"

subsubsection \<open>Deltas that only passed the parser\<close>

definition wire_bufferKey :: "json option \<Rightarrow> jstr" where
  "wire_bufferKey additional =
     (let stp = orElse (readString (Option.bind additional (json_field (str ''step'')))) [];
          turnId = orElse (readString (Option.bind additional (json_field (str ''turn_id'')))) []
      in if stp \<noteq> [] then str ''step:'' @ stp
         else if turnId \<noteq> [] then str ''turn:'' @ turnId
         else str ''default'')"

fun falsy :: "json option \<Rightarrow> bool" where
  "falsy None = True"
| "falsy (Some JNull) = True"
| "falsy (Some (JBool b)) = (\<not> b)"
| "falsy (Some (JNum n)) = (n = 0)"
| "falsy (Some (JStr s)) = (s = [])"
| "falsy _ = False"

fun to_text :: "(json \<Rightarrow> jstr) \<Rightarrow> json \<Rightarrow> jstr" where
  \<comment> \<open>a value in a template literal; the conversion of arrays and objects is an argument\<close>
  "to_text conv (JStr s) = s"
| "to_text conv (JNum n) = num_str n"
| "to_text conv (JBool b) = (if b then str ''true'' else str ''false'')"
| "to_text conv JNull = str ''null''"
| "to_text conv v = conv v"

definition reduce_delta :: "(json \<Rightarrow> jstr) \<Rightarrow> SessionViewState \<Rightarrow> json \<Rightarrow> js_exn + SessionViewState" where
  \<comment> \<open>\<open>reduceSessionStreamEvent\<close> on any value whose type is "message_delta"\<close>
  "reduce_delta conv state event =
     (let additional = json_field (str ''additional_kwargs'') event;
          stepKey = wire_bufferKey additional
      in if additional = None \<or> additional = Some JNull then Inl TypeError
         else if readString (Option.bind additional (json_field (str ''channel''))) = Some (str ''thinking'')
         then Inr (state\<lparr>thinking := obj_set stepKey True (thinking state)\<rparr>)
         else if falsy (json_field (str ''content'') event) then Inr state
         else Inr (state\<lparr>liveBuffers := obj_set stepKey (orElse (obj_get stepKey (liveBuffers state)) []
                @ to_text conv (the (json_field (str ''content'') event))) (liveBuffers state)\<rparr>))"

subsection \<open>Check events\<close>

definition check_type_names :: "(jstr \<times> check_event_type) list" where
  "check_type_names = [(str ''created'', Ev_Created), (str ''started'', Ev_Started), (str ''messages'', Ev_Messages),
     (str ''updates'', Ev_Updates), (str ''checkpoint'', Ev_Checkpoint), (str ''completed'', Ev_Completed),
     (str ''failed'', Ev_Failed), (str ''interrupted'', Ev_Interrupted)]"

definition read_channel :: "json option \<Rightarrow> event_channel option option" where
  "read_channel v = do {
     s \<leftarrow> optional_str v;
     case s of None \<Rightarrow> Some None
     | Some name \<Rightarrow> map_option Some (map_of [(str ''thinking'', Ch_Thinking), (str ''summary'', Ch_Summary), (str ''result'', Ch_Result)] name) }"

definition read_check_event :: "json \<Rightarrow> SopQualityCheckEvent option" where
  "read_check_event v = do {
     i \<leftarrow> json_str (json_field (str ''check_id'') v);
     sequence \<leftarrow> json_num (json_field (str ''sequence'') v);
     ty \<leftarrow> Option.bind (json_str (json_field (str ''type'') v)) (map_of check_type_names);
     node \<leftarrow> optional_str (json_field (str ''node'') v);
     channel \<leftarrow> read_channel (json_field (str ''channel'') v);
     checkpoint \<leftarrow> optional_str (json_field (str ''checkpoint_id'') v);
     task \<leftarrow> optional_str (json_field (str ''task_id'') v);
     message \<leftarrow> optional_str (json_field (str ''message'') v);
     created \<leftarrow> optional_str (json_field (str ''created_at'') v);
     Some \<lparr>ev_check_id = i, ev_sequence = sequence, ev_type = ty, ev_node = node, ev_channel = channel,
       ev_checkpoint_id = checkpoint, ev_task_id = task, ev_message = message, ev_created_at = created\<rparr> }"

definition handle_check_wire :: "json_parser \<Rightarrow> nat \<Rightarrow> jstr \<Rightarrow> jstr \<Rightarrow> check_hook \<Rightarrow> check_hook option" where
  "handle_check_wire json_parse n lastEventId data h =
     (if \<not> isCurrentSource n h then Some h
      else case parseSopQualityCheckEvent json_parse data of
        None \<Rightarrow> Some h
      | Some event \<Rightarrow> map_option (\<lambda>e. handleCheckMessage n lastEventId e h) (read_check_event event))"

subsection \<open>Facts\<close>

lemma json_field_Some: "json_field k v = Some x \<longleftrightarrow> (\<exists>ob. v = JObj ob \<and> obj_get k ob = Some x)"
  by (cases v) auto

lemma json_str_Some: "json_str x = Some s \<longleftrightarrow> x = Some (JStr s)"
  by (cases x rule: json_str.cases) auto

lemma json_num_Some: "json_num x = Some n \<longleftrightarrow> x = Some (JNum n)"
  by (cases x rule: json_num.cases) auto

lemma json_obj_Some: "json_obj x = Some ob \<longleftrightarrow> x = Some (JObj ob)"
  by (cases x rule: json_obj.cases) auto

lemmas read_simps = bind_eq_Some_conv json_str_Some json_num_Some json_obj_Some

lemma terminal_name_types: "map_of terminal_names ty = Some t \<Longrightarrow> ty \<in> set session_event_types \<and> ty \<noteq> str ''message'' \<and> ty \<noteq> str ''message_delta''"
  by (auto simp: terminal_names_def session_event_types_def split: if_splits)

lemma read_session_head:
  assumes "read_session_event v = Some e"
  obtains ty sid where "json_field (str ''type'') v = Some (JStr ty)" "ty \<in> set session_event_types" "json_field (str ''session_id'') v = Some (JNum sid)"
proof -
  have names: "str ''message'' \<in> set session_event_types" "str ''message_delta'' \<in> set session_event_types" by (simp_all add: session_event_types_def)
  show thesis
    using assms that names terminal_name_types unfolding read_session_event_def by (auto simp: read_simps split: if_splits)
qed

lemma parse_session_iff:
  "parseSessionStreamEvent p data = Some v \<longleftrightarrow> trim data \<noteq> [] \<and> (\<exists>w. p data = Inr w \<and> v = normalizeSessionStreamEvent w)
     \<and> (\<exists>ty sid. json_field (str ''type'') v = Some (JStr ty) \<and> ty \<in> set session_event_types \<and> json_field (str ''session_id'') v = Some (JNum sid))"
  by (auto simp: parseSessionStreamEvent_def Let_def json_str_Some json_num_Some split: sum.splits if_splits)

lemma typed_session_event_parses:
  "trim data \<noteq> [] \<Longrightarrow> p data = Inr w \<Longrightarrow> read_session_event (normalizeSessionStreamEvent w) = Some e \<Longrightarrow>
     parseSessionStreamEvent p data = Some (normalizeSessionStreamEvent w)"
  unfolding parse_session_iff by (elim read_session_head) blast

lemma normalize_envelope:
  assumes "json_field (str ''type'') v = Some (JStr (str ''message''))" "json_field (str ''message'') v = Some (JObj inner)"
    "obj_get (str ''type'') inner = None" "obj_ok inner"
  shows "json_field k (normalizeSessionStreamEvent v) = json_field k (JObj ((str ''type'', JStr (str ''message'')) # inner))"
proof -
  have "map_of (rev inner) k = map_of inner k"
    using obj_get_fromEntries [of k inner] fromEntries_id [OF assms(4)] by (simp add: obj_get_def)
  then show ?thesis
    using assms(1-3) by (simp add: normalizeSessionStreamEvent_def obj_get_fromEntries) (auto simp: obj_get_def map_add_def split: option.split)
qed

lemma read_session_cong:
  assumes "\<And>k. json_field k v = json_field k w"
  shows "read_session_event v = read_session_event w"
  unfolding read_session_event_def assms ..

lemma read_check_head:
  assumes "read_check_event v = Some e"
  shows "json_field (str ''check_id'') v = Some (JStr (ev_check_id e)) \<and> json_field (str ''sequence'') v = Some (JNum (ev_sequence e))
    \<and> (\<exists>ty. json_field (str ''type'') v = Some (JStr ty) \<and> map_of check_type_names ty = Some (ev_type e))"
  using assms unfolding read_check_event_def by (auto simp: read_simps)

lemma parse_check_iff:
  "parseSopQualityCheckEvent p data = Some v \<longleftrightarrow> trim data \<noteq> [] \<and> p data = Inr v
     \<and> (\<exists>i n ty. json_field (str ''check_id'') v = Some (JStr i) \<and> json_field (str ''sequence'') v = Some (JNum n)
          \<and> json_field (str ''type'') v = Some (JStr ty))"
  by (auto simp: parseSopQualityCheckEvent_def json_str_Some json_num_Some split: sum.splits if_splits)

lemma typed_check_event_parses:
  "trim data \<noteq> [] \<Longrightarrow> p data = Inr v \<Longrightarrow> read_check_event v = Some e \<Longrightarrow> parseSopQualityCheckEvent p data = Some v"
  unfolding parse_check_iff using read_check_head [of v e] by blast

lemma handle_wire_step: "handle_wire p n data h = Some h' \<Longrightarrow> h' = h \<or> (\<exists>e. h' = handle n e h)"
  by (auto simp: handle_wire_def split: if_splits option.splits)

lemma handle_check_wire_step: "handle_check_wire p n i data h = Some h' \<Longrightarrow> h' = h \<or> (\<exists>e. h' = handleCheckMessage n i e h)"
  by (auto simp: handle_check_wire_def split: if_splits option.splits)

lemma handle_not_current: "\<not> current_source n h \<Longrightarrow> handle n e h = h"
  by (simp add: handle_def)

lemma handleCheck_not_current: "\<not> isCurrentSource n h \<Longrightarrow> handleCheckMessage n i e h = h"
  by (simp add: handleCheckMessage_def)

subsection \<open>Properties\<close>

text \<open>C14. The session parser and the type of session events. Whatever the server sends, a value the
  parser returns is an object with one of the five event types and a numeric session; every event of
  the declared type is accepted, also when a message comes in an envelope, which is read as the
  message itself; it is then handled as that event. A text that is not accepted changes nothing, and
  handling a text keeps the hook in its reachable states.\<close>
theorem session_wire_is_type_safe:
  assumes "session_reachable h"
  shows "(parseSessionStreamEvent p data = Some v \<longrightarrow> (\<exists>ob ty sid. v = JObj ob \<and> obj_get (str ''type'') ob = Some (JStr ty)
      \<and> ty \<in> set session_event_types \<and> obj_get (str ''session_id'') ob = Some (JNum sid)))
    \<and> (parseSessionStreamEvent p data = None \<longrightarrow> handle_wire p n data h = Some h)
    \<and> (trim data \<noteq> [] \<and> p data = Inr w \<and> read_session_event (normalizeSessionStreamEvent w) = Some e \<longrightarrow>
         handle_wire p n data h = Some (handle n e h))
    \<and> (json_field (str ''type'') w = Some (JStr (str ''message'')) \<and> json_field (str ''message'') w = Some (JObj inner)
         \<and> obj_get (str ''type'') inner = None \<and> obj_ok inner \<longrightarrow>
         read_session_event (normalizeSessionStreamEvent w) = read_session_event (JObj ((str ''type'', JStr (str ''message'')) # inner)))
    \<and> (handle_wire p n data h = Some h' \<longrightarrow> session_reachable h')"
proof (intro conjI impI)
  assume "parseSessionStreamEvent p data = Some v"
  then show "\<exists>ob ty sid. v = JObj ob \<and> obj_get (str ''type'') ob = Some (JStr ty)
      \<and> ty \<in> set session_event_types \<and> obj_get (str ''session_id'') ob = Some (JNum sid)"
    unfolding parse_session_iff json_field_Some by auto
next
  assume "parseSessionStreamEvent p data = None"
  then show "handle_wire p n data h = Some h" by (simp add: handle_wire_def)
next
  assume "trim data \<noteq> [] \<and> p data = Inr w \<and> read_session_event (normalizeSessionStreamEvent w) = Some e"
  then show "handle_wire p n data h = Some (handle n e h)"
    using typed_session_event_parses by (simp add: handle_wire_def handle_not_current)
next
  assume "json_field (str ''type'') w = Some (JStr (str ''message'')) \<and> json_field (str ''message'') w = Some (JObj inner)
    \<and> obj_get (str ''type'') inner = None \<and> obj_ok inner"
  then show "read_session_event (normalizeSessionStreamEvent w) = read_session_event (JObj ((str ''type'', JStr (str ''message'')) # inner))"
    by (intro read_session_cong normalize_envelope) auto
next
  assume "handle_wire p n data h = Some h'"
  then show "session_reachable h'"
    using handle_wire_step assms session_step.event session_reachable.step by metis
qed

definition demo_envelope :: json where
  "demo_envelope = JObj [(str ''type'', JStr (str ''message'')), (str ''message'', JObj [(str ''session_id'', JNum 7),
     (str ''sequence'', JNum 3), (str ''role'', JStr (str ''assistant'')), (str ''content'', JStr (str ''c'')), (str ''additional_kwargs'', JObj [])])]"

theorem session_wire_is_type_safe_witness:
  "handle_wire (\<lambda>_. Inr demo_envelope) 0 (str ''text'') demo_hydrated = Some (handle 0 (Message 7 3 Assistant (str ''c'') [] None) demo_hydrated)"
proof -
  have "trim (str ''text'') \<noteq> []" "read_session_event (normalizeSessionStreamEvent demo_envelope) = Some (Message 7 3 Assistant (str ''c'') [] None)"
    by code_simp+
  then show ?thesis using session_wire_is_type_safe [OF demo_hydrated_reachable, where p = "\<lambda>_. Inr demo_envelope" and data = "str ''text''" and w = demo_envelope
      and e = "Message 7 3 Assistant (str ''c'') [] None" and n = 0] by blast
qed


definition demo_bare_delta :: json where
  "demo_bare_delta = JObj [(str ''type'', JStr (str ''message_delta'')), (str ''session_id'', JNum 7), (str ''content'', JStr (str ''c''))]"


text \<open>The same of check events, whose parser asks for an identifier, a number and a type: an event of
  the declared type is accepted and handled as that event, an event of another check and a text that
  is not accepted change nothing, and handling a text keeps the hook in its reachable states.\<close>
theorem check_wire_is_type_safe:
  assumes "check_reachable h"
  shows "(trim data \<noteq> [] \<and> p data = Inr v \<and> read_check_event v = Some e \<longrightarrow>
         handle_check_wire p n i data h = Some (handleCheckMessage n i e h)
         \<and> (map_option cc_check (c_stream h) \<noteq> Some (ev_check_id e) \<longrightarrow> handle_check_wire p n i data h = Some h))
    \<and> (parseSopQualityCheckEvent p data = None \<longrightarrow> handle_check_wire p n i data h = Some h)
    \<and> (handle_check_wire p n i data h = Some h' \<longrightarrow> check_reachable h')"
proof (intro conjI impI)
  assume a: "trim data \<noteq> [] \<and> p data = Inr v \<and> read_check_event v = Some e"
  then show typed: "handle_check_wire p n i data h = Some (handleCheckMessage n i e h)"
    using typed_check_event_parses by (simp add: handle_check_wire_def handleCheck_not_current)
  assume "map_option cc_check (c_stream h) \<noteq> Some (ev_check_id e)"
  with typed show "handle_check_wire p n i data h = Some h" by (simp add: handleCheckMessage_def)
next
  assume "parseSopQualityCheckEvent p data = None"
  then show "handle_check_wire p n i data h = Some h" by (simp add: handle_check_wire_def)
next
  assume "handle_check_wire p n i data h = Some h'"
  then show "check_reachable h'"
    using handle_check_wire_step assms check_step.event check_reachable.step by metis
qed

definition demo_check_json :: json where
  "demo_check_json = JObj [(str ''check_id'', JStr (str ''c1'')), (str ''sequence'', JNum 4), (str ''type'', JStr (str ''failed''))]"

theorem check_wire_is_type_safe_witness:
  "\<exists>e. read_check_event demo_check_json = Some e \<and> ev_type e = Ev_Failed
     \<and> handle_check_wire (\<lambda>_. Inr demo_check_json) 0 [] (str ''text'') demo_check = Some (handleCheckMessage 0 [] e demo_check)"
proof -
  have "trim (str ''text'') \<noteq> []" "map_option ev_type (read_check_event demo_check_json) = Some Ev_Failed" by code_simp+
  then obtain e where "trim (str ''text'') \<noteq> []" "read_check_event demo_check_json = Some e" "ev_type e = Ev_Failed" by auto
  then show ?thesis using check_wire_is_type_safe [OF demo_check_reachable, where p = "\<lambda>_. Inr demo_check_json" and data = "str ''text''" and v = demo_check_json
      and e = e and n = 0 and i = "[]"] by blast
qed

end
