(* ===== verification/DataTypes.thy ===== *)
theory DataTypes
  imports Prelude
begin

text \<open>
  The data the frontend exchanges with the backend: MCP servers (\<open>features/mcp/types.ts\<close>), LLM
  providers (\<open>features/llmProviders/types.ts\<close>), agents (\<open>features/agents/types.ts\<close>) and SOPs
  (\<open>features/sop/types.ts\<close>). A property that may be absent is \<open>None\<close> when absent; one that may
  in addition be \<open>null\<close> has two option layers, \<open>Some None\<close> being \<open>null\<close>.
\<close>

subsection \<open>MCP servers\<close>

datatype McpTransport = Stdio | Http

datatype McpDesiredState = Desired_Running | Desired_Stopped

datatype McpServerRuntimeStatus = Rt_Unknown | Rt_Starting | Rt_Running | Rt_Stopping | Rt_Stopped | Rt_Error

record McpServerTool =
  tool_name :: jstr
  tool_description :: "jstr option"
  tool_input_schema :: "json js_obj"
  tool_discovered_at :: "jstr option"

record McpServerCreate =
  mc_name :: jstr
  mc_transport :: McpTransport
  mc_command :: "jstr option option"
  mc_args :: "jstr list option"
  mc_env :: "jstr js_obj option"
  mc_url :: "jstr option option"
  mc_headers :: "jstr js_obj option"
  mc_enabled :: "bool option"
  mc_desired_state :: "McpDesiredState option"

record McpServerUpdate =
  mu_name :: "jstr option option"
  mu_command :: "jstr option option"
  mu_args :: "jstr list option"
  mu_env :: "jstr js_obj option"
  mu_url :: "jstr option option"
  mu_headers :: "jstr js_obj option"
  mu_enabled :: "bool option"
  mu_desired_state :: "McpDesiredState option"

record McpServerSummary =
  srv_id :: jstr
  srv_name :: jstr
  srv_transport :: McpTransport
  srv_command :: "jstr option"
  srv_args :: "jstr list"
  srv_env :: "jstr js_obj"
  srv_url :: "jstr option"
  srv_headers :: "jstr js_obj"
  srv_enabled :: bool
  srv_desired_state :: McpDesiredState
  srv_runtime_status :: McpServerRuntimeStatus
  srv_last_checked_at :: "jstr option"
  srv_last_error :: "jstr option"
  srv_tool_count :: int

record McpServerDetail = McpServerSummary +
  srv_tools :: "McpServerTool list"

record McpLifecycleResponse =
  lr_server_id :: jstr
  lr_desired_state :: McpDesiredState
  lr_runtime_status :: McpServerRuntimeStatus
  lr_last_checked_at :: "jstr option"
  lr_last_error :: "jstr option"
  lr_tool_count :: int

subsection \<open>LLM providers\<close>

definition LLM_PROVIDER_TYPES :: "jstr list" where
  "LLM_PROVIDER_TYPES = map str [''openai'', ''anthropic'', ''azure_openai'', ''azure_ai'',
     ''google_vertexai'', ''google_genai'', ''anthropic_bedrock'', ''bedrock'', ''bedrock_converse'',
     ''cohere'', ''fireworks'', ''together'', ''mistralai'', ''huggingface'', ''groq'', ''ollama'',
     ''google_anthropic_vertex'', ''deepseek'', ''ibm'', ''nvidia'', ''xai'', ''openrouter'',
     ''perplexity'', ''upstage'', ''baseten'', ''litellm'']"

record LlmProviderCreate =
  lc_display_name :: jstr
  lc_description :: "jstr option option"
  lc_provider_type :: jstr
  lc_base_url :: "jstr option option"
  lc_api_key :: "jstr option option"
  lc_default_headers :: "jstr js_obj option"
  lc_default_query :: "jstr js_obj option"
  lc_models :: "jstr list option"
  lc_enabled :: "bool option"

record LlmProviderUpdate =
  lu_display_name :: "jstr option option"
  lu_description :: "jstr option option"
  lu_provider_type :: "jstr option option"
  lu_base_url :: "jstr option option"
  lu_api_key :: "jstr option option"
  lu_default_headers :: "jstr js_obj option option"
  lu_default_query :: "jstr js_obj option option"
  lu_models :: "jstr list option option"
  lu_enabled :: "bool option option"

record LlmProviderSummary =
  prov_id :: jstr
  prov_display_name :: jstr
  prov_description :: "jstr option"
  prov_provider_type :: jstr
  prov_base_url :: "jstr option"
  prov_default_headers :: "jstr js_obj"
  prov_default_query :: "jstr js_obj"
  prov_models :: "jstr list"
  prov_enabled :: bool
  prov_created_at :: jstr
  prov_updated_at :: jstr
  prov_api_key_configured :: bool

type_synonym LlmProviderDetail = LlmProviderSummary

record LlmProviderModelTestResponse =
  mt_ok :: bool \<comment> \<open>status "ok" or "failed"\<close>
  mt_latency_ms :: int
  mt_message :: "jstr option"
  mt_error :: "jstr option"
  mt_request :: "json js_obj option"
  mt_response :: "json js_obj option"

subsection \<open>Agents\<close>

definition CODEAGENT_MODEL_OPTIONS :: "jstr list" where
  "CODEAGENT_MODEL_OPTIONS = map str [''codeagent:deepseek-v4-pro'', ''codeagent:codeagent-v4-pro'']"

record AgentDraftConfig =
  dr_system_prompt :: jstr
  dr_model :: jstr
  dr_provider_id :: "jstr option"
  dr_model_config :: "json js_obj"
  dr_tool_allowlist :: "jstr list"
  dr_mcp_server_ids :: "jstr list"

record AgentVersionSummary =
  ver_id :: jstr
  ver_version_number :: int
  ver_model :: jstr
  ver_provider_id :: "jstr option"
  ver_published_at :: jstr

record AgentSummary =
  ag_id :: jstr
  ag_display_name :: jstr
  ag_description :: "jstr option"
  ag_enabled :: bool
  ag_has_draft :: bool
  ag_latest_version :: "AgentVersionSummary option"
  ag_created_at :: jstr
  ag_updated_at :: jstr

record AgentDetail = AgentSummary +
  ag_draft :: "AgentDraftConfig option"

record AgentCreate =
  ac_display_name :: jstr
  ac_description :: "jstr option option"
  ac_draft :: AgentDraftConfig

record AgentDraftUpdate =
  au_display_name :: "jstr option option"
  au_description :: "jstr option option"
  au_enabled :: "bool option option"
  au_draft :: "AgentDraftConfig option option"

subsection \<open>SOPs\<close>

record SopEnvironment =
  env_key :: jstr
  env_name_en :: jstr
  env_name_zh :: jstr

record SopQualityCheckHistoryItem =
  hist_check_id :: jstr
  hist_sop_id :: "jstr option"
  hist_env_key :: "jstr option"
  hist_status :: "jstr option"
  hist_created_at :: "jstr option"

end
