(* ===== verification/Api.thy ===== *)
theory Api
  imports ApiClient DataTypes Sessions
begin

text \<open>
  The request builders of the features' \<open>api.ts\<close> files: the URL, method, headers and body of every
  call, and what the calls that read their response themselves make of it. A path segment or query
  value that \<open>encodeURIComponent\<close> rejects makes the call throw before anything is sent. A body is
  the JSON value passed to \<open>JSON.stringify\<close>; absent properties are left out, the order of
  properties is not significant.
\<close>

subsection \<open>URLs\<close>

definition url_segment :: "string \<Rightarrow> jstr \<Rightarrow> jstr \<Rightarrow> js_exn + jstr" where
  \<comment> \<open>\<open>`${base}/${encodeURIComponent(id)}${rest}`\<close>\<close>
  "url_segment base seg rest = map_sum id (\<lambda>e. str base @ [47] @ e @ rest) (encodeURIComponent seg)"

definition buildServerUrl :: "jstr \<Rightarrow> js_exn + jstr" where
  "buildServerUrl serverId = url_segment ''/api/mcp/servers'' serverId []"

definition buildAgentUrl :: "jstr \<Rightarrow> js_exn + jstr" where
  "buildAgentUrl agentId = url_segment ''/api/agents'' agentId []"

definition buildProviderUrl :: "jstr \<Rightarrow> js_exn + jstr" where
  "buildProviderUrl providerId = url_segment ''/api/v1/llm-providers'' providerId []"

definition sessionUrl :: "int \<Rightarrow> js_exn + jstr" where
  "sessionUrl sessionId = url_segment ''/api/sessions'' (num_str sessionId) []"

definition sessionMessagesUrl :: "int \<Rightarrow> int \<Rightarrow> js_exn + jstr" where
  "sessionMessagesUrl sessionId after =
     url_segment ''/api/sessions'' (num_str sessionId) (str ''/messages?after='' @ num_str after)"

definition buildSessionStreamUrl :: "int \<Rightarrow> int \<Rightarrow> js_exn + jstr" where
  "buildSessionStreamUrl sessionId after =
     url_segment ''/api/sessions'' (num_str sessionId) (str ''/stream?after='' @ num_str after)"

definition sopQualityCheckUrl :: "jstr \<Rightarrow> js_exn + jstr" where
  "sopQualityCheckUrl checkId = url_segment ''/api/sop-quality-checks'' checkId []"

definition buildSopQualityCheckStreamUrl :: "jstr \<Rightarrow> int \<Rightarrow> js_exn + jstr" where
  "buildSopQualityCheckStreamUrl checkId after =
     url_segment ''/api/sop-quality-checks'' checkId (str ''/stream?after='' @ num_str after)"

definition bind_exn :: "js_exn + 'a \<Rightarrow> ('a \<Rightarrow> js_exn + 'b) \<Rightarrow> js_exn + 'b" where
  "bind_exn x f = (case x of Inl e \<Rightarrow> Inl e | Inr v \<Rightarrow> f v)"

definition startCheckUrl :: "jstr \<Rightarrow> jstr \<Rightarrow> js_exn + jstr" where
  "startCheckUrl sopId envKey =
     bind_exn (encodeURIComponent sopId) (\<lambda>s. bind_exn (encodeURIComponent envKey) (\<lambda>e.
       Inr (str ''/api/sop-quality-checks?sop_id='' @ s @ str ''&env='' @ e)))"

definition historyUrl :: "jstr \<Rightarrow> jstr \<Rightarrow> int \<Rightarrow> js_exn + jstr" where
  "historyUrl sopId envKey limit =
     bind_exn (encodeURIComponent sopId) (\<lambda>s. bind_exn (encodeURIComponent envKey) (\<lambda>e.
       Inr (str ''/api/sop-quality-checks?sop_id='' @ s @ str ''&env='' @ e @ str ''&limit='' @ num_str limit)))"

definition recentChecksUrl :: "jstr \<Rightarrow> int \<Rightarrow> js_exn + jstr" where
  "recentChecksUrl envKey limit =
     bind_exn (encodeURIComponent envKey) (\<lambda>e.
       Inr (str ''/api/sop-quality-checks?env='' @ e @ str ''&limit='' @ num_str limit))"

subsection \<open>Bodies\<close>

definition jopt :: "('a \<Rightarrow> json) \<Rightarrow> 'a option \<Rightarrow> json" where
  "jopt f x = (case x of None \<Rightarrow> JNull | Some v \<Rightarrow> f v)"

definition field :: "string \<Rightarrow> json option \<Rightarrow> (jstr \<times> json) list" where
  "field k v = (case v of None \<Rightarrow> [] | Some j \<Rightarrow> [(str k, j)])"

definition jmap :: "jstr js_obj \<Rightarrow> json" where
  "jmap ob = JObj (map (\<lambda>(k, v). (k, JStr v)) ob)"

definition jlist :: "jstr list \<Rightarrow> json" where
  "jlist xs = JArr (map JStr xs)"

fun transport_str :: "McpTransport \<Rightarrow> jstr" where
  "transport_str Stdio = str ''stdio''"
| "transport_str Http = str ''http''"

fun desired_str :: "McpDesiredState \<Rightarrow> jstr" where
  "desired_str Desired_Running = str ''running''"
| "desired_str Desired_Stopped = str ''stopped''"

definition mcp_create_json :: "McpServerCreate \<Rightarrow> json" where
  "mcp_create_json p = JObj (field ''name'' (Some (JStr (mc_name p)))
     @ field ''transport'' (Some (JStr (transport_str (mc_transport p))))
     @ field ''command'' (map_option (jopt JStr) (mc_command p)) @ field ''args'' (map_option jlist (mc_args p))
     @ field ''env'' (map_option jmap (mc_env p)) @ field ''url'' (map_option (jopt JStr) (mc_url p))
     @ field ''headers'' (map_option jmap (mc_headers p)) @ field ''enabled'' (map_option JBool (mc_enabled p))
     @ field ''desired_state'' (map_option (JStr \<circ> desired_str) (mc_desired_state p)))"

definition mcp_update_json :: "McpServerUpdate \<Rightarrow> json" where
  "mcp_update_json p = JObj (field ''name'' (map_option (jopt JStr) (mu_name p))
     @ field ''command'' (map_option (jopt JStr) (mu_command p)) @ field ''args'' (map_option jlist (mu_args p))
     @ field ''env'' (map_option jmap (mu_env p)) @ field ''url'' (map_option (jopt JStr) (mu_url p))
     @ field ''headers'' (map_option jmap (mu_headers p)) @ field ''enabled'' (map_option JBool (mu_enabled p))
     @ field ''desired_state'' (map_option (JStr \<circ> desired_str) (mu_desired_state p)))"

definition llm_create_json :: "LlmProviderCreate \<Rightarrow> json" where
  "llm_create_json p = JObj (field ''display_name'' (Some (JStr (lc_display_name p)))
     @ field ''description'' (map_option (jopt JStr) (lc_description p))
     @ field ''provider_type'' (Some (JStr (lc_provider_type p)))
     @ field ''base_url'' (map_option (jopt JStr) (lc_base_url p)) @ field ''api_key'' (map_option (jopt JStr) (lc_api_key p))
     @ field ''default_headers'' (map_option jmap (lc_default_headers p))
     @ field ''default_query'' (map_option jmap (lc_default_query p))
     @ field ''models'' (map_option jlist (lc_models p)) @ field ''enabled'' (map_option JBool (lc_enabled p)))"

definition llm_update_json :: "LlmProviderUpdate \<Rightarrow> json" where
  "llm_update_json p = JObj (field ''display_name'' (map_option (jopt JStr) (lu_display_name p))
     @ field ''description'' (map_option (jopt JStr) (lu_description p))
     @ field ''provider_type'' (map_option (jopt JStr) (lu_provider_type p))
     @ field ''base_url'' (map_option (jopt JStr) (lu_base_url p)) @ field ''api_key'' (map_option (jopt JStr) (lu_api_key p))
     @ field ''default_headers'' (map_option (jopt jmap) (lu_default_headers p))
     @ field ''default_query'' (map_option (jopt jmap) (lu_default_query p))
     @ field ''models'' (map_option (jopt jlist) (lu_models p)) @ field ''enabled'' (map_option (jopt JBool) (lu_enabled p)))"

definition draft_json :: "AgentDraftConfig \<Rightarrow> json" where
  "draft_json d = JObj (field ''system_prompt'' (Some (JStr (dr_system_prompt d))) @ field ''model'' (Some (JStr (dr_model d)))
     @ field ''provider_id'' (Some (jopt JStr (dr_provider_id d))) @ field ''model_config'' (Some (JObj (dr_model_config d)))
     @ field ''tool_allowlist'' (Some (jlist (dr_tool_allowlist d))) @ field ''mcp_server_ids'' (Some (jlist (dr_mcp_server_ids d))))"

definition agent_create_json :: "AgentCreate \<Rightarrow> json" where
  "agent_create_json p = JObj (field ''display_name'' (Some (JStr (ac_display_name p)))
     @ field ''description'' (map_option (jopt JStr) (ac_description p)) @ field ''draft'' (Some (draft_json (ac_draft p))))"

definition agent_update_json :: "AgentDraftUpdate \<Rightarrow> json" where
  "agent_update_json p = JObj (field ''display_name'' (map_option (jopt JStr) (au_display_name p))
     @ field ''description'' (map_option (jopt JStr) (au_description p)) @ field ''enabled'' (map_option (jopt JBool) (au_enabled p))
     @ field ''draft'' (map_option (jopt draft_json) (au_draft p)))"

subsection \<open>Requests\<close>

definition get_request :: "jstr \<Rightarrow> Request" where
  "get_request url = requestJson_request url empty_init"

definition listMcpServers :: Request where
  "listMcpServers = get_request (str ''/api/mcp/servers'')"

definition getMcpServer :: "jstr \<Rightarrow> js_exn + Request" where
  "getMcpServer serverId = map_sum id get_request (buildServerUrl serverId)"

definition createMcpServer :: "McpServerCreate \<Rightarrow> Request" where
  "createMcpServer payload = requestJson_request (str ''/api/mcp/servers'') (json_init ''POST'' (mcp_create_json payload))"

definition updateMcpServer :: "jstr \<Rightarrow> McpServerUpdate \<Rightarrow> js_exn + Request" where
  "updateMcpServer serverId payload =
     map_sum id (\<lambda>u. requestJson_request u (json_init ''PATCH'' (mcp_update_json payload))) (buildServerUrl serverId)"

definition bare_delete :: "jstr \<Rightarrow> Request" where
  \<comment> \<open>\<open>fetch\<close> itself: no \<open>credentials\<close> option\<close>
  "bare_delete url = \<lparr>init_method = Some (str ''DELETE''), init_headers = accept_header [], init_body = None,
     req_url = url, req_credentials = None\<rparr>"

definition deleteMcpServer :: "jstr \<Rightarrow> js_exn + Request" where
  "deleteMcpServer serverId = map_sum id bare_delete (buildServerUrl serverId)"

definition delete_result :: "json_parser \<Rightarrow> (json \<Rightarrow> jstr) \<Rightarrow> fetch_outcome \<Rightarrow> thrown + unit" where
  "delete_result json_parse json_stringify out = (case out of
     Fetch_Rejected e \<Rightarrow> Inl e
   | Fetched r \<Rightarrow> if resp_ok r then Inr () else Inl (apiErrorFromResponse json_parse json_stringify r))"

definition postLifecycle :: "jstr \<Rightarrow> string \<Rightarrow> js_exn + Request" where
  "postLifecycle serverId action =
     map_sum id (\<lambda>u. requestJson_request (u @ [47] @ str action) (post_init ''POST'')) (buildServerUrl serverId)"

definition startMcpServer :: "jstr \<Rightarrow> js_exn + Request" where
  "startMcpServer serverId = postLifecycle serverId ''start''"

definition stopMcpServer :: "jstr \<Rightarrow> js_exn + Request" where
  "stopMcpServer serverId = postLifecycle serverId ''stop''"

definition restartMcpServer :: "jstr \<Rightarrow> js_exn + Request" where
  "restartMcpServer serverId = postLifecycle serverId ''restart''"

definition checkMcpServer :: "jstr \<Rightarrow> js_exn + Request" where
  "checkMcpServer serverId = postLifecycle serverId ''check''"

definition listAgents :: Request where
  "listAgents = get_request (str ''/api/agents'')"

definition getAgent :: "jstr \<Rightarrow> js_exn + Request" where
  "getAgent agentId = map_sum id get_request (buildAgentUrl agentId)"

definition createAgent :: "AgentCreate \<Rightarrow> Request" where
  "createAgent payload = requestJson_request (str ''/api/agents'') (json_init ''POST'' (agent_create_json payload))"

definition updateAgentDraft :: "jstr \<Rightarrow> AgentDraftUpdate \<Rightarrow> js_exn + Request" where
  "updateAgentDraft agentId payload =
     map_sum id (\<lambda>u. requestJson_request (u @ str ''/draft'') (json_init ''PATCH'' (agent_update_json payload))) (buildAgentUrl agentId)"

definition listLlmProviders :: Request where
  "listLlmProviders = get_request (str ''/api/v1/llm-providers'')"

definition getLlmProvider :: "jstr \<Rightarrow> js_exn + Request" where
  "getLlmProvider providerId = map_sum id get_request (buildProviderUrl providerId)"

definition createLlmProvider :: "LlmProviderCreate \<Rightarrow> Request" where
  "createLlmProvider payload = requestJson_request (str ''/api/v1/llm-providers'') (json_init ''POST'' (llm_create_json payload))"

definition updateLlmProvider :: "jstr \<Rightarrow> LlmProviderUpdate \<Rightarrow> js_exn + Request" where
  "updateLlmProvider providerId payload =
     map_sum id (\<lambda>u. requestJson_request u (json_init ''PATCH'' (llm_update_json payload))) (buildProviderUrl providerId)"

definition deleteLlmProvider :: "jstr \<Rightarrow> js_exn + Request" where
  "deleteLlmProvider providerId = map_sum id bare_delete (buildProviderUrl providerId)"

definition testLlmProviderModel :: "jstr \<Rightarrow> jstr \<Rightarrow> js_exn + Request" where
  "testLlmProviderModel providerId model =
     map_sum id (\<lambda>u. requestJson_request (u @ str ''/test'') (json_init ''POST'' (JObj [(str ''model'', JStr model)]))) (buildProviderUrl providerId)"

definition testLlmProviderModel_result :: "json_parser \<Rightarrow> (json \<Rightarrow> jstr) \<Rightarrow> fetch_outcome \<Rightarrow> thrown + json" where
  "testLlmProviderModel_result json_parse json_stringify out = (case out of
     Fetch_Rejected e \<Rightarrow> Inl e
   | Fetched r \<Rightarrow>
       if resp_ok r \<or> resp_status r = 502
       then (case resp_text r of Inl e \<Rightarrow> Inl e | Inr body \<Rightarrow> map_sum Thrown_Error id (json_parse body))
       else Inl (apiErrorFromResponse json_parse json_stringify r))"

definition getSession :: "int \<Rightarrow> js_exn + Request" where
  "getSession sessionId = map_sum id get_request (sessionUrl sessionId)"

definition getSessionMessages :: "int \<Rightarrow> int \<Rightarrow> js_exn + Request" where
  "getSessionMessages sessionId after = map_sum id get_request (sessionMessagesUrl sessionId after)"

definition getSopQualityCheck :: "jstr \<Rightarrow> js_exn + Request" where
  "getSopQualityCheck checkId = map_sum id get_request (sopQualityCheckUrl checkId)"

definition getSopEnvironments :: Request where
  "getSopEnvironments = get_request (str ''/api/sop/environments'')"

definition environments_of :: "json \<Rightarrow> json option" where
  \<comment> \<open>\<open>Array.isArray(response) ? response : response.environments\<close>, the response being an array or an object\<close>
  "environments_of response = (case response of JArr xs \<Rightarrow> Some response | _ \<Rightarrow> json_field (str ''environments'') response)"

definition getSopQualityCheckHistory :: "jstr \<Rightarrow> jstr \<Rightarrow> int option \<Rightarrow> js_exn + Request" where
  "getSopQualityCheckHistory sopId envKey limit =
     map_sum id get_request (historyUrl sopId envKey (case limit of None \<Rightarrow> 20 | Some n \<Rightarrow> n))"

definition getRecentSopQualityChecks :: "jstr \<Rightarrow> int option \<Rightarrow> js_exn + Request" where
  "getRecentSopQualityChecks envKey limit =
     map_sum id get_request (recentChecksUrl envKey (case limit of None \<Rightarrow> 50 | Some n \<Rightarrow> n))"

definition startSopQualityCheck :: "jstr \<Rightarrow> jstr \<Rightarrow> js_exn + Request" where
  "startSopQualityCheck sopId envKey =
     map_sum id (\<lambda>u. \<lparr>init_method = Some (str ''POST''), init_headers = [(str ''accept'', str ''application/json'')],
       init_body = None, req_url = u, req_credentials = None\<rparr>) (startCheckUrl sopId envKey)"

datatype StartSopQualityCheckResult = Started_Created jstr | Started_Active jstr

fun truthy :: "json option \<Rightarrow> bool" where
  "truthy None = False"
| "truthy (Some JNull) = False"
| "truthy (Some (JBool b)) = b"
| "truthy (Some (JNum n)) = (n \<noteq> 0)"
| "truthy (Some (JStr s)) = (s \<noteq> [])"
| "truthy (Some _) = True"

definition startSopQualityCheck_result ::
  "js_error \<Rightarrow> json_parser \<Rightarrow> (json \<Rightarrow> jstr) \<Rightarrow> fetch_outcome \<Rightarrow> thrown + StartSopQualityCheckResult" where
  \<comment> \<open>\<open>null_error\<close> is what reading a property of \<open>null\<close> throws; \<open>check_id\<close>, when present, is a string\<close>
  "startSopQualityCheck_result null_error json_parse json_stringify out = (case out of
     Fetch_Rejected e \<Rightarrow> Inl e
   | Fetched r \<Rightarrow>
       if \<not> resp_ok r then Inl (apiErrorFromResponse json_parse json_stringify r)
       else (case resp_text r of
         Inl e \<Rightarrow> Inl e
       | Inr text \<Rightarrow> (case json_parse text of
           Inl e \<Rightarrow> Inl (Thrown_Error e)
         | Inr JNull \<Rightarrow> Inl (Thrown_Error null_error)
         | Inr body \<Rightarrow>
             (case json_str (json_field (str ''check_id'') body) of
                None \<Rightarrow> Inl (Thrown_Error (Error (str ''SOP quality check response did not include a check id.'') None))
              | Some i \<Rightarrow>
                  if i = [] then Inl (Thrown_Error (Error (str ''SOP quality check response did not include a check id.'') None))
                  else Inr (if truthy (json_field (str ''created'') body) then Started_Created i else Started_Active i)))))"

subsection \<open>Facts\<close>

lemma url_segment_Inr: "url_segment b s r = Inr u \<longleftrightarrow> (\<exists>e. encodeURIComponent s = Inr e \<and> u = str b @ [47] @ e @ r)"
  by (auto simp: url_segment_def map_sum_id_Inr)

lemma map_sum_Inr: "map_sum id f x = Inr y \<longleftrightarrow> (\<exists>z. x = Inr z \<and> y = f z)"
  by (cases x) auto

lemma url_segment_inject:
  assumes "url_segment b s r = Inr u" "url_segment b t r = Inr u"
  shows "s = t"
  using assms encode_inject by (auto simp: url_segment_Inr)

definition segment_char :: "jchar \<Rightarrow> bool" where
  \<comment> \<open>none of \<open>/\<close>, \<open>?\<close>, \<open>#\<close>, \<open>&\<close>, \<open>=\<close> and no white space\<close>
  "segment_char c \<longleftrightarrow> uri_unescaped c \<or> c = 37"

lemma reserved_not_segment: "\<not> segment_char 47" "\<not> segment_char 63" "\<not> segment_char 35" "\<not> segment_char 38" "\<not> segment_char 61"
  by (simp_all add: segment_char_def uri_unescaped_def str_def)

lemma encode_segment: "encodeURIComponent s = Inr e \<Longrightarrow> list_all segment_char e"
  using encode_chars by (auto simp: list_all_iff segment_char_def)

lemma split_at_reserved:
  assumes "list_all segment_char a" "list_all segment_char b" "\<not> segment_char c" "\<not> segment_char d"
    "a @ c # x = b @ d # y"
  shows "a = b \<and> c # x = d # y"
  using assms
proof (induction a arbitrary: b)
  case Nil
  then show ?case by (cases b) auto
next
  case (Cons p a)
  then show ?case by (cases b) auto
qed

lemma num_str_chars: "list_all segment_char (num_str n)"
proof -
  have dig: "segment_char (48 + of_nat k)" if "k < 10" for k
  proof -
    from that have "k \<in> set [0, 1, 2, 3, 4, 5, 6, 7, 8, 9]" by auto
    then show ?thesis by (auto simp: segment_char_def uri_unescaped_def)
  qed
  have "list_all segment_char (nat_str k)" for k
  proof (induction k rule: nat_str.induct)
    case (1 k)
    show ?case
    proof (cases "k < 10")
      case True
      with dig [OF True] show ?thesis by (subst nat_str.simps) simp
    next
      case False
      with 1 dig [of "k mod 10"] show ?thesis by (subst nat_str.simps) simp
    qed
  qed
  moreover have "segment_char 45" by (simp add: segment_char_def uri_unescaped_def str_def)
  ultimately show ?thesis by (simp add: num_str_def)
qed

lemma stream_url_inject:
  assumes "url_segment b s ([47] @ m @ num_str i) = Inr u" "url_segment b t ([47] @ m @ num_str j) = Inr u"
  shows "s = t \<and> i = j"
proof -
  obtain e f where e: "encodeURIComponent s = Inr e" "encodeURIComponent t = Inr f"
    "e @ 47 # (m @ num_str i) = f @ 47 # (m @ num_str j)"
    using assms by (auto simp: url_segment_Inr)
  with split_at_reserved [OF encode_segment [OF e(1)] encode_segment [OF e(2)] reserved_not_segment(1) reserved_not_segment(1) e(3)]
  show ?thesis using encode_inject by auto
qed

lemma history_url_inject:
  assumes "historyUrl s k i = Inr u" "historyUrl t l j = Inr u"
  shows "s = t \<and> k = l \<and> i = j"
proof -
  obtain a b where a: "encodeURIComponent s = Inr a" "encodeURIComponent k = Inr b"
    "u = str ''/api/sop-quality-checks?sop_id='' @ a @ str ''&env='' @ b @ str ''&limit='' @ num_str i"
    using assms(1) by (auto simp: historyUrl_def bind_exn_def split: sum.splits)
  obtain c d where c: "encodeURIComponent t = Inr c" "encodeURIComponent l = Inr d"
    "u = str ''/api/sop-quality-checks?sop_id='' @ c @ str ''&env='' @ d @ str ''&limit='' @ num_str j"
    using assms(2) by (auto simp: historyUrl_def bind_exn_def split: sum.splits)
  have amp: "str ''&env='' = 38 # str ''env=''" "str ''&limit='' = 38 # str ''limit=''" by (simp_all add: str_def)
  have "a @ 38 # (str ''env='' @ b @ 38 # (str ''limit='' @ num_str i)) = c @ 38 # (str ''env='' @ d @ 38 # (str ''limit='' @ num_str j))"
    using a(3) c(3) by (simp add: amp)
  from split_at_reserved [OF encode_segment [OF a(1)] encode_segment [OF c(1)] reserved_not_segment(4) reserved_not_segment(4) this]
  have "a = c" "b @ 38 # (str ''limit='' @ num_str i) = d @ 38 # (str ''limit='' @ num_str j)" by simp_all
  from split_at_reserved [OF encode_segment [OF a(2)] encode_segment [OF c(2)] reserved_not_segment(4) reserved_not_segment(4) this(2)] \<open>a = c\<close>
  show ?thesis using a(1,2) c(1,2) encode_inject by auto
qed

lemma stream_rest: "str ''/stream?after='' = [47] @ str ''stream?after=''"
  by (simp add: str_def)

subsection \<open>Properties\<close>

text \<open>A URL identifies what it asks for: two identifiers with the same server, agent or
  provider URL are equal, two streams with the same URL are of the same check or session and start
  at the same message, two history queries with the same URL are for the same SOP, environment and
  limit. No identifier, whatever characters it has, can end its path segment or query value.\<close>
theorem urls_identify_requests:
  "(buildServerUrl s = Inr u \<and> buildServerUrl t = Inr u \<longrightarrow> s = t)
   \<and> (buildAgentUrl s = Inr u \<and> buildAgentUrl t = Inr u \<longrightarrow> s = t)
   \<and> (buildProviderUrl s = Inr u \<and> buildProviderUrl t = Inr u \<longrightarrow> s = t)
   \<and> (buildSopQualityCheckStreamUrl s i = Inr u \<and> buildSopQualityCheckStreamUrl t j = Inr u \<longrightarrow> s = t \<and> i = j)
   \<and> (buildSessionStreamUrl m i = Inr u \<and> buildSessionStreamUrl n j = Inr u \<longrightarrow> m = n \<and> i = j)
   \<and> (historyUrl s k i = Inr u \<and> historyUrl t l j = Inr u \<longrightarrow> s = t \<and> k = l \<and> i = j)
   \<and> (encodeURIComponent s = Inr e \<and> c \<in> set e \<longrightarrow> c \<notin> {47, 63, 35, 38, 61})"
proof -
  have "c \<notin> {47, 63, 35, 38, 61}" if "encodeURIComponent s = Inr e" "c \<in> set e"
    using encode_segment [OF that(1)] that(2) reserved_not_segment by (auto simp: list_all_iff)
  moreover have "s = t \<and> i = j" if "buildSopQualityCheckStreamUrl s i = Inr u" "buildSopQualityCheckStreamUrl t j = Inr u"
    using that unfolding buildSopQualityCheckStreamUrl_def stream_rest append_assoc by (rule stream_url_inject)
  moreover have "m = n \<and> i = j" if "buildSessionStreamUrl m i = Inr u" "buildSessionStreamUrl n j = Inr u"
    using that stream_url_inject [of "''/api/sessions''" "num_str m" "str ''stream?after=''" i u "num_str n" j]
    unfolding buildSessionStreamUrl_def stream_rest append_assoc by simp
  ultimately show ?thesis
    using url_segment_inject history_url_inject
    unfolding buildServerUrl_def buildAgentUrl_def buildProviderUrl_def by blast
qed

theorem urls_identify_requests_witness:
  "buildServerUrl (str ''a/b?c'') = Inr (str ''/api/mcp/servers/a%2Fb%3Fc'')
   \<and> {t. buildServerUrl t = Inr (str ''/api/mcp/servers/a%2Fb%3Fc'')} = {str ''a/b?c''}"
proof -
  have u: "buildServerUrl (str ''a/b?c'') = Inr (str ''/api/mcp/servers/a%2Fb%3Fc'')" by code_simp
  have "t = str ''a/b?c''" if "buildServerUrl t = Inr (str ''/api/mcp/servers/a%2Fb%3Fc'')" for t
    using that u urls_identify_requests [of t "str ''/api/mcp/servers/a%2Fb%3Fc''" "str ''a/b?c''"] by blast
  with u show ?thesis by blast
qed

text \<open>Starting a check either reports the check with a non-empty identifier, as newly created
  or as already active, or fails: with the network error, with an error carrying the response's
  status when it was refused, or with the fixed message when a well-formed answer has no
  identifier.\<close>
theorem start_check_outcomes:
  "startSopQualityCheck_result ne p q (Fetch_Rejected e) = Inl e
   \<and> (\<not> resp_ok r \<longrightarrow> startSopQualityCheck_result ne p q (Fetched r) = Inl (apiErrorFromResponse p q r))
   \<and> (resp_ok r \<and> resp_text r = Inr t \<and> p t = Inr (JObj ob) \<longrightarrow>
       startSopQualityCheck_result ne p q (Fetched r) =
         (case json_str (obj_get (str ''check_id'') ob) of
            Some (c # cs) \<Rightarrow> Inr (if truthy (obj_get (str ''created'') ob) then Started_Created (c # cs) else Started_Active (c # cs))
          | _ \<Rightarrow> Inl (Thrown_Error (Error (str ''SOP quality check response did not include a check id.'') None))))"
  by (auto simp: startSopQualityCheck_result_def split: option.split list.split)

theorem start_check_outcomes_witness:
  "startSopQualityCheck_result (Error [] None) (\<lambda>_. Inr (JObj [(str ''check_id'', JStr (str ''c9'')), (str ''created'', JBool False)])) (\<lambda>_. [])
     (Fetched \<lparr>resp_status = 200, resp_statusText = [], resp_text = Inr (str ''x'')\<rparr>) = Inr (Started_Active (str ''c9''))"
  using start_check_outcomes [of "Error [] None" "\<lambda>_. Inr (JObj [(str ''check_id'', JStr (str ''c9'')), (str ''created'', JBool False)])" "\<lambda>_. []"
      "Thrown_Value []" "\<lparr>resp_status = 200, resp_statusText = [], resp_text = Inr (str ''x'')\<rparr>" "str ''x''"
      "[(str ''check_id'', JStr (str ''c9'')), (str ''created'', JBool False)]"]
  by (simp add: resp_ok_def) (simp add: str_def obj_get_def)

end
