(* ===== verification/Auth.thy ===== *)
theory Auth
  imports Api
begin

text \<open>
  Authentication: \<open>features/auth\<close>. The provider of \<open>AuthContext.tsx\<close> is a record of its state cell, its
  request counter and its mounted flag, with the calls in flight; \<open>refresh\<close>, \<open>loginAs\<close> and \<open>logout\<close> are
  operations that start a call, and \<open>auth_settle\<close> continues a call with the outcome of its request.
  The two development user pickers are records of their own cells. The contract that only the latest
  call decides the state is stated as an abstract machine that the provider refines.
\<close>

subsection \<open>Data\<close>

record CurrentUser =
  cu_id :: jstr
  cu_account :: jstr
  cu_is_admin :: bool
  cu_meta :: json

datatype AuthState = Auth_Loading | Auth_Anonymous | Auth_Authenticated CurrentUser

fun auth_user :: "AuthState \<Rightarrow> CurrentUser option" where
  "auth_user (Auth_Authenticated u) = Some u"
| "auth_user _ = None"

definition getCurrentUser :: Request where
  "getCurrentUser = get_request (str ''/api/auth/me'')"

definition devLogin :: "jstr \<Rightarrow> Request" where
  "devLogin account = requestJson_request (str ''/api/auth/dev-login'') (json_init ''POST'' (JObj [(str ''account'', JStr account)]))"

definition logoutRequest :: Request where
  "logoutRequest = requestJson_request (str ''/api/auth/logout'') (post_init ''POST'')"

definition DEV_ACCOUNTS :: "(jstr \<times> jstr) list" where
  "DEV_ACCOUNTS = [(str ''common'', [0x666E, 0x901A]), (str ''admin'', [0x7BA1, 0x7406])]"

fun getLoginErrorMessage :: "thrown \<Rightarrow> jstr" where
  "getLoginErrorMessage (Thrown_Error (ApiError st txt detail)) =
     (let d = orElse detail [] in if d \<noteq> [] then d else error_message (ApiError st txt detail))"
| "getLoginErrorMessage (Thrown_Error (Error m st)) = m"
| "getLoginErrorMessage (Thrown_Value v) = str ''Login failed.''"

subsection \<open>The provider\<close>

datatype auth_call = Call_refresh | Call_loginAs jstr | Call_logout

record auth =
  auth_state :: AuthState
  auth_requestIdRef :: nat
  auth_mounted :: bool
  auth_pending :: "(nat \<times> auth_call) list" \<comment> \<open>calls in flight\<close>

definition auth_init :: auth where
  "auth_init = \<lparr>auth_state = Auth_Loading, auth_requestIdRef = 0, auth_mounted = True, auth_pending = []\<rparr>"

definition auth_call_request :: "auth_call \<Rightarrow> Request" where
  "auth_call_request c = (case c of Call_refresh \<Rightarrow> getCurrentUser | Call_loginAs account \<Rightarrow> devLogin account | Call_logout \<Rightarrow> logoutRequest)"

definition auth_start :: "auth_call \<Rightarrow> auth \<Rightarrow> auth" where
  "auth_start c a = a\<lparr>auth_requestIdRef := Suc (auth_requestIdRef a), auth_pending := auth_pending a @ [(Suc (auth_requestIdRef a), c)]\<rparr>"

definition auth_refresh :: "auth \<Rightarrow> auth" where
  "auth_refresh a = (auth_start Call_refresh a)\<lparr>auth_state := Auth_Loading\<rparr>"

definition auth_loginAs :: "jstr \<Rightarrow> auth \<Rightarrow> auth" where
  "auth_loginAs account a = auth_start (Call_loginAs account) a"

definition auth_logout :: "auth \<Rightarrow> auth" where
  "auth_logout a = auth_start Call_logout a"

definition auth_mount :: auth where
  "auth_mount = auth_refresh auth_init"

definition auth_unmount :: "auth \<Rightarrow> auth" where
  "auth_unmount a = a\<lparr>auth_mounted := False\<rparr>"

datatype auth_answer = Ans_User CurrentUser | Ans_Done | Ans_Failed thrown

fun auth_next :: "auth_call \<Rightarrow> auth_answer \<Rightarrow> AuthState option" where
  \<comment> \<open>the state a call sets, if any\<close>
  "auth_next Call_refresh (Ans_User u) = Some (Auth_Authenticated u)"
| "auth_next Call_refresh (Ans_Failed e) = Some Auth_Anonymous"
| "auth_next (Call_loginAs account) (Ans_User u) = Some (Auth_Authenticated u)"
| "auth_next Call_logout Ans_Done = Some Auth_Anonymous"
| "auth_next _ _ = None"

definition auth_settle :: "nat \<Rightarrow> auth_answer \<Rightarrow> auth \<Rightarrow> auth" where
  "auth_settle i ans a = (case map_of (auth_pending a) i of
     None \<Rightarrow> a
   | Some c \<Rightarrow>
       (let b = a\<lparr>auth_pending := filter (\<lambda>p. fst p \<noteq> i) (auth_pending a)\<rparr>
        in if auth_mounted a \<and> auth_requestIdRef a = i
           then (case auth_next c ans of None \<Rightarrow> b | Some s \<Rightarrow> b\<lparr>auth_state := s\<rparr>)
           else b))"

definition useAuthz :: "AuthState \<Rightarrow> bool" where
  \<comment> \<open>\<open>isAdmin\<close>\<close>
  "useAuthz s = (case auth_user s of None \<Rightarrow> False | Some u \<Rightarrow> cu_is_admin u)"

subsection \<open>The development user pickers\<close>

record picker =
  pk_pendingAccount :: "jstr option"
  pk_errorMessage :: "jstr option"
  pk_inflight :: nat \<comment> \<open>logins awaited\<close>

definition picker_init :: picker where
  "picker_init = \<lparr>pk_pendingAccount = None, pk_errorMessage = None, pk_inflight = 0\<rparr>"

definition start_login :: "jstr \<Rightarrow> picker \<Rightarrow> picker" where
  "start_login account p = p\<lparr>pk_pendingAccount := Some account, pk_errorMessage := None, pk_inflight := Suc (pk_inflight p)\<rparr>"

definition picker_handleLogin :: "jstr \<Rightarrow> picker \<Rightarrow> picker" where
  \<comment> \<open>the button is disabled while \<open>pendingAccount !== null\<close>\<close>
  "picker_handleLogin account p = (if pk_pendingAccount p \<noteq> None then p else start_login account p)"

definition picker_settled :: "thrown option \<Rightarrow> picker \<Rightarrow> picker" where
  "picker_settled failure p = (let q = p\<lparr>pk_inflight := pk_inflight p - 1\<rparr> in case failure of
     None \<Rightarrow> q | Some e \<Rightarrow> q\<lparr>pk_errorMessage := Some (getLoginErrorMessage e), pk_pendingAccount := None\<rparr>)"

definition switcher_handleSwitch :: "CurrentUser \<Rightarrow> jstr \<Rightarrow> picker \<Rightarrow> picker" where
  "switcher_handleSwitch user account p =
     (if pk_pendingAccount p \<noteq> None \<and> pk_pendingAccount p \<noteq> Some [] \<or> account = cu_account user then p
      else start_login account p)"

definition switcher_settled :: "thrown option \<Rightarrow> picker \<Rightarrow> picker" where
  "switcher_settled failure p = (let q = p\<lparr>pk_inflight := pk_inflight p - 1, pk_pendingAccount := None\<rparr> in case failure of
     None \<Rightarrow> q | Some e \<Rightarrow> q\<lparr>pk_errorMessage := Some (getLoginErrorMessage e)\<rparr>)"

subsection \<open>Only the latest call counts\<close>

record auth_spec =
  sp_state :: AuthState
  sp_latest :: "auth_call option" \<comment> \<open>the latest call, while it is unanswered\<close>

definition spec_call :: "auth_call \<Rightarrow> auth_spec \<Rightarrow> auth_spec" where
  "spec_call c s = \<lparr>sp_state = (if c = Call_refresh then Auth_Loading else sp_state s), sp_latest = Some c\<rparr>"

definition spec_answer :: "auth_answer \<Rightarrow> auth_spec \<Rightarrow> auth_spec" where
  "spec_answer ans s = (case sp_latest s of None \<Rightarrow> s | Some c \<Rightarrow>
     \<lparr>sp_state = orElse (auth_next c ans) (sp_state s), sp_latest = None\<rparr>)"

definition auth_abs :: "auth \<Rightarrow> auth_spec" where
  "auth_abs a = \<lparr>sp_state = auth_state a, sp_latest = map_of (auth_pending a) (auth_requestIdRef a)\<rparr>"

inductive auth_reachable :: "auth \<Rightarrow> bool" where
  mount: "auth_reachable auth_mount"
| refresh: "auth_reachable a \<Longrightarrow> auth_reachable (auth_refresh a)"
| login: "auth_reachable a \<Longrightarrow> auth_reachable (auth_loginAs account a)"
| logout: "auth_reachable a \<Longrightarrow> auth_reachable (auth_logout a)"
| settle: "auth_reachable a \<Longrightarrow> auth_reachable (auth_settle i ans a)"
| unmount: "auth_reachable a \<Longrightarrow> auth_reachable (auth_unmount a)"

definition auth_inv :: "auth \<Rightarrow> bool" where
  "auth_inv a \<longleftrightarrow> distinct (map fst (auth_pending a)) \<and> list_all (\<lambda>p. fst p \<le> auth_requestIdRef a) (auth_pending a)"

lemmas auth_op_defs = auth_refresh_def auth_loginAs_def auth_logout_def auth_start_def auth_unmount_def

lemma auth_settle_pending:
  "auth_pending (auth_settle i ans a) = filter (\<lambda>p. fst p \<noteq> i) (auth_pending a)"
  "auth_requestIdRef (auth_settle i ans a) = auth_requestIdRef a" "auth_mounted (auth_settle i ans a) = auth_mounted a"
proof -
  have "filter (\<lambda>p. fst p \<noteq> i) ps = ps" if "map_of ps i = None" for ps :: "(nat \<times> auth_call) list"
    using that by (force simp: map_of_eq_None_iff filter_id_conv)
  then show "auth_pending (auth_settle i ans a) = filter (\<lambda>p. fst p \<noteq> i) (auth_pending a)"
    "auth_requestIdRef (auth_settle i ans a) = auth_requestIdRef a" "auth_mounted (auth_settle i ans a) = auth_mounted a"
    by (auto simp: auth_settle_def Let_def split: option.split)
qed

lemma auth_start_inv: "auth_inv a \<Longrightarrow> auth_inv (auth_start c a)"
  by (force simp: auth_inv_def auth_start_def list_all_iff)

lemma auth_inv_frame: "auth_inv (a\<lparr>auth_state := s\<rparr>) = auth_inv a" "auth_inv (a\<lparr>auth_mounted := m\<rparr>) = auth_inv a"
  by (simp_all add: auth_inv_def)

lemma auth_settle_inv: "auth_inv a \<Longrightarrow> auth_inv (auth_settle i ans a)"
  by (auto simp: auth_inv_def auth_settle_pending list_all_iff distinct_map_filter)

lemma auth_reachable_inv: "auth_reachable a \<Longrightarrow> auth_inv a"
proof (induction rule: auth_reachable.induct)
  case mount
  show ?case by (simp add: auth_mount_def auth_init_def auth_op_defs auth_inv_def)
qed (simp_all add: auth_refresh_def auth_loginAs_def auth_logout_def auth_unmount_def auth_start_inv auth_settle_inv auth_inv_frame)

lemma fresh_call_latest:
  assumes "auth_inv a"
  shows "map_of (auth_pending (auth_start c a)) (auth_requestIdRef (auth_start c a)) = Some c"
proof -
  have "Suc (auth_requestIdRef a) \<notin> fst ` set (auth_pending a)" using assms by (force simp: auth_inv_def list_all_iff)
  then have "map_of (auth_pending a) (Suc (auth_requestIdRef a)) = None" by (simp add: map_of_eq_None_iff)
  then show ?thesis by (simp add: auth_start_def map_add_def)
qed

lemma map_of_filter_neq: "map_of (filter (\<lambda>p. fst p \<noteq> i) ps) k = (if k = i then None else map_of ps k)"
  by (induction ps) auto

lemma auth_abs_call:
  assumes "auth_inv a"
  shows "auth_abs (auth_refresh a) = spec_call Call_refresh (auth_abs a)"
    "auth_abs (auth_loginAs account a) = spec_call (Call_loginAs account) (auth_abs a)"
    "auth_abs (auth_logout a) = spec_call Call_logout (auth_abs a)"
  using fresh_call_latest [OF assms]
  by (simp_all add: auth_abs_def spec_call_def auth_refresh_def auth_loginAs_def auth_logout_def) (simp_all add: auth_start_def)

lemma auth_abs_answer:
  assumes "auth_mounted a"
  shows "auth_abs (auth_settle i ans a) = (if i = auth_requestIdRef a then spec_answer ans (auth_abs a) else auth_abs a)"
  using assms
  by (auto simp: auth_abs_def auth_settle_pending map_of_filter_neq spec_answer_def)
    (auto simp: auth_settle_def Let_def orElse_def split: option.split)

text \<open>C13. While it is mounted, the authentication provider refines the machine in which only the
  latest call counts: starting a call replaces the one awaited, and shows the loading state when it
  is a refresh; an answer to the latest call sets the state that call asks for; an answer to any
  other call, however late, changes nothing.\<close>
theorem auth_refines_latest_call:
  assumes "auth_reachable a" "auth_mounted a"
  shows "auth_abs (auth_refresh a) = spec_call Call_refresh (auth_abs a)
    \<and> auth_abs (auth_loginAs account a) = spec_call (Call_loginAs account) (auth_abs a)
    \<and> auth_abs (auth_logout a) = spec_call Call_logout (auth_abs a)
    \<and> auth_abs (auth_settle i ans a) = (if i = auth_requestIdRef a then spec_answer ans (auth_abs a) else auth_abs a)"
  using auth_abs_call [OF auth_reachable_inv [OF assms(1)]] auth_abs_answer [OF assms(2)] by simp

theorem auth_refines_latest_call_witness:
  "auth_abs (auth_settle 1 (Ans_User \<lparr>cu_id = [], cu_account = [], cu_is_admin = True, cu_meta = JNull\<rparr>) (auth_logout auth_mount))
   = \<lparr>sp_state = Auth_Loading, sp_latest = Some Call_logout\<rparr>"
proof -
  have r: "auth_reachable (auth_logout auth_mount)" "auth_mounted (auth_logout auth_mount)"
    by (intro auth_reachable.intros) code_simp
  have "auth_abs (auth_logout auth_mount) = \<lparr>sp_state = Auth_Loading, sp_latest = Some Call_logout\<rparr>"
    "auth_requestIdRef (auth_logout auth_mount) = 2" by code_simp+
  with auth_refines_latest_call [OF r, where i = 1] show ?thesis by simp
qed

text \<open>A login that fails while a refresh is awaited leaves the provider loading with nothing in
  flight: the refresh's answer was superseded and the login's failure sets no state.\<close>
lemma failed_login_strands_refresh:
  "let a = auth_settle 2 (Ans_Failed e) (auth_settle 1 (Ans_User u) (auth_loginAs account auth_mount))
   in auth_state a = Auth_Loading \<and> auth_pending a = []"
  by (simp add: auth_mount_def auth_init_def auth_op_defs auth_settle_def Let_def)

subsection \<open>The pickers\<close>

datatype picker_event = Pick jstr | Login_Settled "thrown option"

fun picker_step :: "picker \<Rightarrow> picker_event \<Rightarrow> picker" where
  "picker_step p (Pick account) = picker_handleLogin account p"
| "picker_step p (Login_Settled f) = (if pk_inflight p = 0 then p else picker_settled f p)"

fun switcher_step :: "CurrentUser \<Rightarrow> picker \<Rightarrow> picker_event \<Rightarrow> picker" where
  "switcher_step user p (Pick account) = switcher_handleSwitch user account p"
| "switcher_step user p (Login_Settled f) = (if pk_inflight p = 0 then p else switcher_settled f p)"

definition dev_event :: "picker_event \<Rightarrow> bool" where
  "dev_event e \<longleftrightarrow> (case e of Pick account \<Rightarrow> account \<in> fst ` set DEV_ACCOUNTS | Login_Settled f \<Rightarrow> True)"

lemma dev_accounts_nonempty: "account \<in> fst ` set DEV_ACCOUNTS \<Longrightarrow> account \<noteq> []"
  by (auto simp: DEV_ACCOUNTS_def str_def)

lemma picker_inv:
  "pk_inflight p \<le> (if pk_pendingAccount p = None then 0 else 1) \<Longrightarrow>
   pk_inflight (foldl picker_step p es) \<le> (if pk_pendingAccount (foldl picker_step p es) = None then 0 else 1)"
proof (induction es arbitrary: p)
  case (Cons e es)
  have "pk_inflight (picker_step p e) \<le> (if pk_pendingAccount (picker_step p e) = None then 0 else 1)"
    using Cons.prems
    by (cases e) (auto simp: picker_handleLogin_def start_login_def picker_settled_def Let_def split: option.split if_splits)
  then show ?case using Cons.IH by simp
qed simp

lemma switcher_inv:
  assumes "list_all dev_event es" "pk_pendingAccount p \<noteq> Some []" "pk_inflight p = (if pk_pendingAccount p = None then 0 else 1)"
  shows "pk_inflight (foldl (switcher_step u) p es) = (if pk_pendingAccount (foldl (switcher_step u) p es) = None then 0 else 1)"
  using assms
proof (induction es arbitrary: p)
  case (Cons e es)
  let ?q = "switcher_step u p e"
  have "pk_pendingAccount ?q \<noteq> Some [] \<and> pk_inflight ?q = (if pk_pendingAccount ?q = None then 0 else 1)"
    using Cons.prems dev_accounts_nonempty
    by (cases e) (auto simp: dev_event_def switcher_handleSwitch_def start_login_def switcher_settled_def Let_def split: option.split if_splits)
  then show ?case using Cons by simp
qed simp

text \<open>Whatever is clicked and however the logins end, a development picker awaits at most one
  login at a time, and the switcher marks an account as pending exactly while its login is
  awaited.\<close>
theorem one_login_at_a_time:
  "pk_inflight (foldl picker_step picker_init es) \<le> 1
   \<and> (list_all dev_event es \<longrightarrow>
        pk_inflight (foldl (switcher_step u) picker_init es)
          = (if pk_pendingAccount (foldl (switcher_step u) picker_init es) = None then 0 else 1))"
  using picker_inv [of picker_init es] switcher_inv [of es picker_init u]
  by (auto simp: picker_init_def split: if_splits)

theorem one_login_at_a_time_witness:
  "pk_inflight (foldl (switcher_step \<lparr>cu_id = [], cu_account = str ''common'', cu_is_admin = False, cu_meta = JNull\<rparr>) picker_init
     [Pick (str ''admin''), Pick (str ''admin'')]) = 1"
proof -
  let ?u = "\<lparr>cu_id = [], cu_account = str ''common'', cu_is_admin = False, cu_meta = JNull\<rparr>"
  have "list_all dev_event [Pick (str ''admin''), Pick (str ''admin'')]"
    "pk_pendingAccount (foldl (switcher_step ?u) picker_init [Pick (str ''admin''), Pick (str ''admin'')]) \<noteq> None"
    by code_simp+
  with one_login_at_a_time [of "[Pick (str ''admin''), Pick (str ''admin'')]" ?u] show ?thesis by auto
qed

end
