(* ===== verification/AsyncHooks.thy ===== *)
theory AsyncHooks
  imports ApiClient DataTypes
begin

text \<open>
  The data-fetching hooks: the list and detail hooks of \<open>features/mcp/hooks.ts\<close>,
  \<open>features/agents/hooks.ts\<close> and \<open>features/llmProviders/hooks.ts\<close>, and the hooks of
  \<open>features/sop/hooks.ts\<close>. They all number their requests and drop a response that is not the
  latest one's, either by comparing \<open>requestIdRef\<close> or by the \<open>cancelled\<close> flag of the effect that
  started the request. A hook is a record of its state cell, its counter and its mounted flag,
  with the requests in flight; what a hook does when it starts a request is what differs. The
  contract is the locale \<open>async_hook\<close>; every hook is an interpretation of it.
\<close>

subsection \<open>State\<close>

record 'd AsyncState =
  st_data :: 'd
  st_error :: "js_error option"
  st_loading :: bool

record ('k, 'd) resource =
  r_key :: 'k \<comment> \<open>the hook's argument\<close>
  r_state :: "'d AsyncState"
  requestIdRef :: nat
  mountedRef :: bool
  r_pending :: "nat list" \<comment> \<open>requests in flight\<close>

definition resource_init :: "'k \<Rightarrow> 'd \<Rightarrow> bool \<Rightarrow> ('k, 'd) resource" where
  "resource_init k emp loading = \<lparr>r_key = k, r_state = \<lparr>st_data = emp, st_error = None, st_loading = loading\<rparr>,
     requestIdRef = 0, mountedRef = True, r_pending = []\<rparr>"

definition send_request :: "'d AsyncState \<Rightarrow> ('k, 'd) resource \<Rightarrow> ('k, 'd) resource" where
  "send_request st h = h\<lparr>requestIdRef := Suc (requestIdRef h), r_state := st,
     r_pending := r_pending h @ [Suc (requestIdRef h)]\<rparr>"

definition skip_request :: "'d \<Rightarrow> ('k, 'd) resource \<Rightarrow> ('k, 'd) resource" where
  "skip_request emp h = h\<lparr>requestIdRef := Suc (requestIdRef h),
     r_state := \<lparr>st_data = emp, st_error = None, st_loading = False\<rparr>\<rparr>"

definition list_refetch :: "('k, 'd) resource \<Rightarrow> ('k, 'd) resource" where
  \<comment> \<open>keeps the data while loading\<close>
  "list_refetch h = send_request ((r_state h)\<lparr>st_error := None, st_loading := True\<rparr>) h"

definition keyed_refetch :: "('k \<Rightarrow> bool) \<Rightarrow> 'd \<Rightarrow> ('k, 'd) resource \<Rightarrow> ('k, 'd) resource" where
  \<comment> \<open>drops the data while loading, and asks for nothing when the key is missing\<close>
  "keyed_refetch missing emp h =
     (if missing (r_key h) then skip_request emp h
      else send_request \<lparr>st_data = emp, st_error = None, st_loading = True\<rparr> h)"

definition response_state :: "'d \<Rightarrow> js_error + 'd \<Rightarrow> 'd AsyncState" where
  "response_state emp r = (case r of
     Inr d \<Rightarrow> \<lparr>st_data = d, st_error = None, st_loading = False\<rparr>
   | Inl e \<Rightarrow> \<lparr>st_data = emp, st_error = Some e, st_loading = False\<rparr>)"

definition async_response :: "'d \<Rightarrow> nat \<Rightarrow> js_error + 'd \<Rightarrow> ('k, 'd) resource \<Rightarrow> ('k, 'd) resource" where
  "async_response emp requestId r h =
     (let h' = h\<lparr>r_pending := filter (\<lambda>n. n \<noteq> requestId) (r_pending h)\<rparr>
      in if \<not> mountedRef h \<or> requestIdRef h \<noteq> requestId then h' else h'\<lparr>r_state := response_state emp r\<rparr>)"

definition async_unmount :: "('k, 'd) resource \<Rightarrow> ('k, 'd) resource" where
  "async_unmount h = h\<lparr>mountedRef := False\<rparr>"

subsection \<open>The hooks\<close>

definition missing_id :: "jstr option \<Rightarrow> bool" where
  "missing_id k \<longleftrightarrow> orElse k [] = []"

definition useMcpServers_refetch :: "(unit, McpServerSummary list) resource \<Rightarrow> (unit, McpServerSummary list) resource" where
  "useMcpServers_refetch = list_refetch"

definition useMcpServers_response ::
  "nat \<Rightarrow> thrown + McpServerSummary list \<Rightarrow> (unit, McpServerSummary list) resource \<Rightarrow> (unit, McpServerSummary list) resource" where
  "useMcpServers_response n r = async_response [] n (map_sum asError id r)"

definition useMcpServers_mount :: "(unit, McpServerSummary list) resource" where
  "useMcpServers_mount = useMcpServers_refetch (resource_init () [] True)"

definition useMcpServerDetail_refetch ::
  "(jstr option, McpServerDetail option) resource \<Rightarrow> (jstr option, McpServerDetail option) resource" where
  "useMcpServerDetail_refetch = keyed_refetch missing_id None"

definition useMcpServerDetail_response ::
  "nat \<Rightarrow> thrown + McpServerDetail \<Rightarrow> (jstr option, McpServerDetail option) resource \<Rightarrow> (jstr option, McpServerDetail option) resource" where
  "useMcpServerDetail_response n r = async_response None n (map_sum asError Some r)"

definition useMcpServerDetail_mount :: "jstr option \<Rightarrow> (jstr option, McpServerDetail option) resource" where
  "useMcpServerDetail_mount k = useMcpServerDetail_refetch (resource_init k None False)"

definition useAgents_refetch :: "(unit, AgentSummary list) resource \<Rightarrow> (unit, AgentSummary list) resource" where
  "useAgents_refetch = list_refetch"

definition useAgents_response ::
  "nat \<Rightarrow> thrown + AgentSummary list \<Rightarrow> (unit, AgentSummary list) resource \<Rightarrow> (unit, AgentSummary list) resource" where
  "useAgents_response n r = async_response [] n (map_sum asError id r)"

definition useAgents_mount :: "(unit, AgentSummary list) resource" where
  "useAgents_mount = useAgents_refetch (resource_init () [] True)"

definition useAgentDetail_refetch ::
  "(jstr option, AgentDetail option) resource \<Rightarrow> (jstr option, AgentDetail option) resource" where
  "useAgentDetail_refetch = keyed_refetch missing_id None"

definition useAgentDetail_response ::
  "nat \<Rightarrow> thrown + AgentDetail \<Rightarrow> (jstr option, AgentDetail option) resource \<Rightarrow> (jstr option, AgentDetail option) resource" where
  "useAgentDetail_response n r = async_response None n (map_sum asError Some r)"

definition useAgentDetail_mount :: "jstr option \<Rightarrow> (jstr option, AgentDetail option) resource" where
  "useAgentDetail_mount k = useAgentDetail_refetch (resource_init k None False)"

definition useLlmProviders_refetch :: "(unit, LlmProviderSummary list) resource \<Rightarrow> (unit, LlmProviderSummary list) resource" where
  "useLlmProviders_refetch = list_refetch"

definition useLlmProviders_response ::
  "nat \<Rightarrow> thrown + LlmProviderSummary list \<Rightarrow> (unit, LlmProviderSummary list) resource \<Rightarrow> (unit, LlmProviderSummary list) resource" where
  "useLlmProviders_response n r = async_response [] n (map_sum asError id r)"

definition useLlmProviders_mount :: "(unit, LlmProviderSummary list) resource" where
  "useLlmProviders_mount = useLlmProviders_refetch (resource_init () [] True)"

definition useLlmProviderDetail_refetch ::
  "(jstr option, LlmProviderDetail option) resource \<Rightarrow> (jstr option, LlmProviderDetail option) resource" where
  "useLlmProviderDetail_refetch = keyed_refetch missing_id None"

definition useLlmProviderDetail_response ::
  "nat \<Rightarrow> thrown + LlmProviderDetail \<Rightarrow> (jstr option, LlmProviderDetail option) resource \<Rightarrow> (jstr option, LlmProviderDetail option) resource" where
  "useLlmProviderDetail_response n r = async_response None n (map_sum asError Some r)"

definition useLlmProviderDetail_mount :: "jstr option \<Rightarrow> (jstr option, LlmProviderDetail option) resource" where
  "useLlmProviderDetail_mount k = useLlmProviderDetail_refetch (resource_init k None False)"

subsubsection \<open>SOP hooks\<close>

text \<open>Here the effect's own \<open>cancelled\<close> flag plays the part of the counter: it is set when the
  effect runs again and when the component unmounts.\<close>

definition useSopEnvironments_effect :: "(unit, SopEnvironment list) resource \<Rightarrow> (unit, SopEnvironment list) resource" where
  "useSopEnvironments_effect = list_refetch"

definition useSopEnvironments_response ::
  "nat \<Rightarrow> js_error + SopEnvironment list \<Rightarrow> (unit, SopEnvironment list) resource \<Rightarrow> (unit, SopEnvironment list) resource" where
  "useSopEnvironments_response = async_response []"

definition useSopEnvironments_mount :: "(unit, SopEnvironment list) resource" where
  "useSopEnvironments_mount = useSopEnvironments_effect (resource_init () [] True)"

definition missing_history_key :: "jstr \<times> jstr \<times> int \<Rightarrow> bool" where
  \<comment> \<open>SOP, environment and \<open>refreshKey\<close>\<close>
  "missing_history_key k = (case k of (sopId, envKey, refreshKey) \<Rightarrow> sopId = [] \<or> envKey = [])"

definition useSopQualityCheckHistory_effect ::
  "(jstr \<times> jstr \<times> int, SopQualityCheckHistoryItem list) resource \<Rightarrow> (jstr \<times> jstr \<times> int, SopQualityCheckHistoryItem list) resource" where
  "useSopQualityCheckHistory_effect = keyed_refetch missing_history_key []"

definition useSopQualityCheckHistory_response ::
  "nat \<Rightarrow> js_error + SopQualityCheckHistoryItem list \<Rightarrow> (jstr \<times> jstr \<times> int, SopQualityCheckHistoryItem list) resource \<Rightarrow> (jstr \<times> jstr \<times> int, SopQualityCheckHistoryItem list) resource" where
  "useSopQualityCheckHistory_response = async_response []"

definition missing_recent_key :: "jstr \<times> int \<Rightarrow> bool" where
  "missing_recent_key k = (case k of (envKey, refreshKey) \<Rightarrow> envKey = [])"

definition useRecentSopQualityChecks_effect ::
  "(jstr \<times> int, SopQualityCheckHistoryItem list) resource \<Rightarrow> (jstr \<times> int, SopQualityCheckHistoryItem list) resource" where
  "useRecentSopQualityChecks_effect = keyed_refetch missing_recent_key []"

definition useRecentSopQualityChecks_response ::
  "nat \<Rightarrow> js_error + SopQualityCheckHistoryItem list \<Rightarrow> (jstr \<times> int, SopQualityCheckHistoryItem list) resource \<Rightarrow> (jstr \<times> int, SopQualityCheckHistoryItem list) resource" where
  "useRecentSopQualityChecks_response = async_response []"

subsection \<open>Steps\<close>

inductive async_reachable ::
  "(('k, 'd) resource \<Rightarrow> ('k, 'd) resource) \<Rightarrow> 'd \<Rightarrow> ('k, 'd) resource \<Rightarrow> bool"
  for start :: "('k, 'd) resource \<Rightarrow> ('k, 'd) resource" and emp :: 'd where
  mount: "async_reachable start emp (start (resource_init k emp b))"
| refetch: "async_reachable start emp h \<Longrightarrow> mountedRef h \<Longrightarrow> async_reachable start emp (start h)"
| rekey: "async_reachable start emp h \<Longrightarrow> mountedRef h \<Longrightarrow> async_reachable start emp (start (h\<lparr>r_key := k\<rparr>))"
| respond: "async_reachable start emp h \<Longrightarrow> n \<in> set (r_pending h) \<Longrightarrow> async_reachable start emp (async_response emp n r h)"
| unmount: "async_reachable start emp h \<Longrightarrow> async_reachable start emp (async_unmount h)"

definition async_inv :: "'d \<Rightarrow> ('k, 'd) resource \<Rightarrow> bool" where
  "async_inv emp h \<longleftrightarrow> distinct (r_pending h) \<and> (\<forall>n \<in> set (r_pending h). n \<le> requestIdRef h)
     \<and> (mountedRef h \<longrightarrow> (st_loading (r_state h) \<longleftrightarrow> requestIdRef h \<in> set (r_pending h)))
     \<and> (st_error (r_state h) \<noteq> None \<longrightarrow> st_data (r_state h) = emp \<and> \<not> st_loading (r_state h))"

locale async_hook =
  fixes start :: "('k, 'd) resource \<Rightarrow> ('k, 'd) resource"
    and emp :: 'd
  assumes start_id: "requestIdRef (start h) = Suc (requestIdRef h)"
    and start_frame: "mountedRef (start h) = mountedRef h" "r_key (start h) = r_key h"
    and start_pending: "r_pending (start h) = r_pending h @ (if st_loading (r_state (start h)) then [Suc (requestIdRef h)] else [])"
    and start_error: "st_error (r_state (start h)) = None"
begin

lemma start_inv: "async_inv emp h \<Longrightarrow> async_inv emp (start h)"
proof -
  assume inv: "async_inv emp h"
  then have "Suc (requestIdRef h) \<notin> set (r_pending h)" by (force simp: async_inv_def)
  with inv show ?thesis by (auto simp: async_inv_def start_id start_frame start_pending start_error)
qed

lemma response_inv: "async_inv emp h \<Longrightarrow> async_inv emp (async_response emp n r h)"
  by (auto simp: async_inv_def async_response_def response_state_def Let_def split: sum.split)

lemma reachable_inv: "async_reachable start emp h \<Longrightarrow> async_inv emp h"
proof (induction rule: async_reachable.induct)
  case (mount k b)
  have "requestIdRef (start (resource_init k emp b)) = 1" "r_pending (start (resource_init k emp b))
      = (if st_loading (r_state (start (resource_init k emp b))) then [1] else [])"
    by (simp_all add: start_id start_pending resource_init_def)
  then show ?case by (simp add: async_inv_def start_error)
next
  case (rekey h k)
  then have "async_inv emp (h\<lparr>r_key := k\<rparr>)" by (auto simp: async_inv_def)
  then show ?case by (rule start_inv)
next
  case (unmount h)
  then show ?case by (simp add: async_inv_def async_unmount_def)
qed (simp_all add: start_inv response_inv)

lemma stale_ignored: "n \<noteq> requestIdRef h \<Longrightarrow> r_state (async_response emp n r h) = r_state h"
  by (simp add: async_response_def Let_def)

lemma responses_frame:
  "requestIdRef (async_response emp n r h) = requestIdRef h" "mountedRef (async_response emp n r h) = mountedRef h"
  "r_key (async_response emp n r h) = r_key h"
  by (simp_all add: async_response_def Let_def)

lemma latest_wins:
  assumes "mountedRef h" "\<forall>(n, r) \<in> set (olds @ lates). n \<noteq> requestIdRef (start h)"
  shows "r_state (foldl (\<lambda>h (n, r). async_response emp n (f r) h) (start h) (olds @ (requestIdRef (start h), r) # lates))
    = response_state emp (f r)"
proof -
  let ?go = "foldl (\<lambda>h (n, r). async_response emp n (f r) h)"
  have frame: "requestIdRef (?go g xs) = requestIdRef g \<and> mountedRef (?go g xs) = mountedRef g" for g xs
    by (induction xs arbitrary: g) (simp_all add: responses_frame split_def)
  have stale: "r_state (?go g xs) = r_state g" if "\<forall>(n, r) \<in> set xs. n \<noteq> requestIdRef g" for g xs
    using that by (induction xs arbitrary: g) (simp_all add: responses_frame stale_ignored split_def)
  let ?g = "async_response emp (requestIdRef (start h)) (f r) (?go (start h) olds)"
  have g: "requestIdRef ?g = requestIdRef (start h)" using frame [of "start h" olds] by (simp add: responses_frame)
  have "r_state (?go ?g lates) = r_state ?g" using assms(2) by (intro stale) (auto simp: g)
  also have "\<dots> = response_state emp (f r)"
    using frame [of "start h" olds] assms(1) by (simp add: async_response_def Let_def start_frame)
  finally show ?thesis by simp
qed

end

subsection \<open>Every hook keeps the contract\<close>

lemma list_async: "async_hook list_refetch"
  by unfold_locales (simp_all add: list_refetch_def send_request_def)

lemma keyed_async: "async_hook (keyed_refetch missing emp)"
  by unfold_locales (simp_all add: keyed_refetch_def send_request_def skip_request_def)

interpretation mcp_servers: async_hook useMcpServers_refetch "[]"
  unfolding useMcpServers_refetch_def by (rule list_async)

interpretation mcp_server_detail: async_hook useMcpServerDetail_refetch None
  unfolding useMcpServerDetail_refetch_def by (rule keyed_async)

interpretation agents: async_hook useAgents_refetch "[]"
  unfolding useAgents_refetch_def by (rule list_async)

interpretation agent_detail: async_hook useAgentDetail_refetch None
  unfolding useAgentDetail_refetch_def by (rule keyed_async)

interpretation llm_providers: async_hook useLlmProviders_refetch "[]"
  unfolding useLlmProviders_refetch_def by (rule list_async)

interpretation llm_provider_detail: async_hook useLlmProviderDetail_refetch None
  unfolding useLlmProviderDetail_refetch_def by (rule keyed_async)

interpretation sop_environments: async_hook useSopEnvironments_effect "[]"
  unfolding useSopEnvironments_effect_def by (rule list_async)

interpretation sop_history: async_hook useSopQualityCheckHistory_effect "[]"
  unfolding useSopQualityCheckHistory_effect_def by (rule keyed_async)

interpretation recent_checks: async_hook useRecentSopQualityChecks_effect "[]"
  unfolding useRecentSopQualityChecks_effect_def by (rule keyed_async)

lemma keyed_start_data: "st_data (r_state (keyed_refetch missing emp h)) = emp"
  by (simp add: keyed_refetch_def skip_request_def send_request_def)

lemma keyed_stale_data:
  assumes "\<forall>(n, r) \<in> set olds. n \<le> requestIdRef h"
  shows "st_data (r_state (foldl (\<lambda>h (n, r). async_response emp n (f r) h) (keyed_refetch missing emp h) olds)) = emp"
proof -
  have stale: "r_state (foldl (\<lambda>h (n, r). async_response emp n (f r) h) g xs) = r_state g"
    if "\<forall>(n, r) \<in> set xs. n < requestIdRef g" for g xs
    using that
    by (induction xs arbitrary: g) (simp_all add: async_response_def Let_def split_def)
  have "requestIdRef (keyed_refetch missing emp h) = Suc (requestIdRef h)"
    by (simp add: keyed_refetch_def send_request_def skip_request_def)
  with assms have "\<forall>(n, r) \<in> set olds. n < requestIdRef (keyed_refetch missing emp h)" by (auto simp: less_Suc_eq_le)
  from stale [OF this] show ?thesis by (simp only: keyed_start_data)
qed

subsection \<open>Properties\<close>

text \<open>C28. The latest refetch decides: after a refetch of a list hook, in whatever order the
  responses to it and to other requests arrive, the hook ends with the answer to that refetch:
  its data, or no data and its error.\<close>
theorem list_hooks_latest_wins:
  assumes "mountedRef h1" "\<forall>(n, r) \<in> set (olds1 @ lates1). n \<noteq> requestIdRef (useMcpServers_refetch h1)"
    and "mountedRef h2" "\<forall>(n, r) \<in> set (olds2 @ lates2). n \<noteq> requestIdRef (useAgents_refetch h2)"
    and "mountedRef h3" "\<forall>(n, r) \<in> set (olds3 @ lates3). n \<noteq> requestIdRef (useLlmProviders_refetch h3)"
  shows "r_state (foldl (\<lambda>h (n, r). useMcpServers_response n r h) (useMcpServers_refetch h1)
      (olds1 @ (requestIdRef (useMcpServers_refetch h1), r1) # lates1)) = response_state [] (map_sum asError id r1)
    \<and> r_state (foldl (\<lambda>h (n, r). useAgents_response n r h) (useAgents_refetch h2)
      (olds2 @ (requestIdRef (useAgents_refetch h2), r2) # lates2)) = response_state [] (map_sum asError id r2)
    \<and> r_state (foldl (\<lambda>h (n, r). useLlmProviders_response n r h) (useLlmProviders_refetch h3)
      (olds3 @ (requestIdRef (useLlmProviders_refetch h3), r3) # lates3)) = response_state [] (map_sum asError id r3)"
  unfolding useMcpServers_response_def useAgents_response_def useLlmProviders_response_def
  using mcp_servers.latest_wins [OF assms(1,2)] agents.latest_wins [OF assms(3,4)] llm_providers.latest_wins [OF assms(5,6)]
  by blast

theorem list_hooks_latest_wins_witness:
  "st_error (r_state (foldl (\<lambda>h (n, r). useAgents_response n r h) (useAgents_refetch useAgents_mount)
     [(2, Inl (Thrown_Value (str ''x''))), (1, Inr [])])) = Some (Error (str ''x'') None)"
proof -
  have h: "mountedRef useMcpServers_mount" "mountedRef useAgents_mount" "mountedRef useLlmProviders_mount"
    "requestIdRef (useAgents_refetch useAgents_mount) = 2"
    by (simp_all add: useMcpServers_mount_def useAgents_mount_def useLlmProviders_mount_def useMcpServers_refetch_def
        useAgents_refetch_def useLlmProviders_refetch_def list_refetch_def send_request_def resource_init_def)
  have "\<forall>(n, r) \<in> set ([] @ [(1, Inr [])]). n \<noteq> requestIdRef (useAgents_refetch useAgents_mount)" by (simp add: h)
  from list_hooks_latest_wins [OF h(1) _ h(2) this h(3), of "[]" "[]" "[]" "[]" _ "Inl (Thrown_Value (str ''x''))"]
  show ?thesis by (simp add: h response_state_def)
qed

text \<open>A detail hook never shows another resource's data: once its identifier has changed,
  responses to all earlier requests, in any number and order, leave it without data.\<close>
theorem detail_hooks_drop_stale_data:
  assumes "\<forall>(n, r) \<in> set olds1. n \<le> requestIdRef h1" "\<forall>(n, r) \<in> set olds2. n \<le> requestIdRef h2" "\<forall>(n, r) \<in> set olds3. n \<le> requestIdRef h3"
  shows "st_data (r_state (foldl (\<lambda>h (n, r). useMcpServerDetail_response n r h) (useMcpServerDetail_refetch (h1\<lparr>r_key := k1\<rparr>)) olds1)) = None
    \<and> st_data (r_state (foldl (\<lambda>h (n, r). useAgentDetail_response n r h) (useAgentDetail_refetch (h2\<lparr>r_key := k2\<rparr>)) olds2)) = None
    \<and> st_data (r_state (foldl (\<lambda>h (n, r). useLlmProviderDetail_response n r h) (useLlmProviderDetail_refetch (h3\<lparr>r_key := k3\<rparr>)) olds3)) = None"
  unfolding useMcpServerDetail_response_def useAgentDetail_response_def useLlmProviderDetail_response_def
    useMcpServerDetail_refetch_def useAgentDetail_refetch_def useLlmProviderDetail_refetch_def
  using assms by (intro conjI keyed_stale_data) simp_all

definition demo_agent_row :: AgentDetail where
  "demo_agent_row = \<lparr>ag_id = str ''a'', ag_display_name = str ''A'', ag_description = None, ag_enabled = True, ag_has_draft = False,
     ag_latest_version = None, ag_created_at = [], ag_updated_at = [], ag_draft = None\<rparr>"

theorem detail_hooks_drop_stale_data_witness:
  "st_data (r_state (useAgentDetail_response 1 (Inr demo_agent_row)
     (useAgentDetail_refetch ((useAgentDetail_mount (Some (str ''a'')))\<lparr>r_key := Some (str ''b'')\<rparr>)))) = None"
proof -
  have "requestIdRef (useAgentDetail_mount (Some (str ''a''))) = 1"
    by (simp add: useAgentDetail_mount_def useAgentDetail_refetch_def keyed_refetch_def missing_id_def send_request_def resource_init_def)
  then have "\<forall>(n, r) \<in> set [(1, Inr demo_agent_row :: thrown + AgentDetail)]. n \<le> requestIdRef (useAgentDetail_mount (Some (str ''a'')))"
    by simp
  from detail_hooks_drop_stale_data [OF _ this, of "[]" _ "[]"] show ?thesis by simp
qed

definition async_shown_ok :: "'d \<Rightarrow> ('k, 'd) resource \<Rightarrow> bool" where
  "async_shown_ok emp h \<longleftrightarrow> (mountedRef h \<longrightarrow> (st_loading (r_state h) \<longleftrightarrow> requestIdRef h \<in> set (r_pending h)))
     \<and> (st_error (r_state h) \<noteq> None \<longrightarrow> st_data (r_state h) = emp \<and> \<not> st_loading (r_state h))"

lemma inv_shown_ok: "async_inv emp h \<Longrightarrow> async_shown_ok emp h"
  by (simp add: async_inv_def async_shown_ok_def)

text \<open>In every reachable state of a mounted hook the loading flag is set exactly while its
  latest request is unanswered, and an error is never shown together with data or a loading flag.
  This holds for the MCP, agent and provider lists and details and for the SOP environments,
  history and recent checks.\<close>
theorem async_hooks_loading_is_accurate:
  "(async_reachable useMcpServers_refetch [] h1 \<longrightarrow> async_shown_ok [] h1)
    \<and> (async_reachable useMcpServerDetail_refetch None h2 \<longrightarrow> async_shown_ok None h2)
    \<and> (async_reachable useAgents_refetch [] h3 \<longrightarrow> async_shown_ok [] h3)
    \<and> (async_reachable useAgentDetail_refetch None h4 \<longrightarrow> async_shown_ok None h4)
    \<and> (async_reachable useLlmProviders_refetch [] h5 \<longrightarrow> async_shown_ok [] h5)
    \<and> (async_reachable useLlmProviderDetail_refetch None h6 \<longrightarrow> async_shown_ok None h6)
    \<and> (async_reachable useSopEnvironments_effect [] h7 \<longrightarrow> async_shown_ok [] h7)
    \<and> (async_reachable useSopQualityCheckHistory_effect [] h8 \<longrightarrow> async_shown_ok [] h8)
    \<and> (async_reachable useRecentSopQualityChecks_effect [] h9 \<longrightarrow> async_shown_ok [] h9)"
  by (simp add: inv_shown_ok mcp_servers.reachable_inv mcp_server_detail.reachable_inv agents.reachable_inv
      agent_detail.reachable_inv llm_providers.reachable_inv llm_provider_detail.reachable_inv
      sop_environments.reachable_inv sop_history.reachable_inv recent_checks.reachable_inv)

theorem async_hooks_loading_is_accurate_witness:
  "async_shown_ok [] (useMcpServers_response 1 (Inl (Thrown_Value [])) useMcpServers_mount)"
proof -
  have "async_reachable useMcpServers_refetch [] useMcpServers_mount"
    unfolding useMcpServers_mount_def by (rule async_reachable.mount)
  then have "async_reachable useMcpServers_refetch [] (useMcpServers_response 1 (Inl (Thrown_Value [])) useMcpServers_mount)"
    unfolding useMcpServers_response_def
    by (rule async_reachable.respond)
      (simp add: useMcpServers_mount_def useMcpServers_refetch_def list_refetch_def send_request_def resource_init_def)
  then show ?thesis
    using async_hooks_loading_is_accurate [of "useMcpServers_response 1 (Inl (Thrown_Value [])) useMcpServers_mount"] by blast
qed

end
