(* ===== verification/Routing.thy ===== *)
theory Routing
  imports Auth AsyncHooks
begin

text \<open>
  The workspace shell: the route table and access rules of \<open>app/routing\<close>, the routes, gates and frame
  of \<open>app/App.tsx\<close>, the handlers of \<open>app/WorkspaceSidebar.tsx\<close> and the panel of
  \<open>app/RecentSopSidebarPanel.tsx\<close>. Which route a location selects is the router's business: a screen
  is a function of the route it selected. A pattern stands for the paths the links of the
  application build from it.
\<close>

subsection \<open>Workspace routes\<close>

datatype WorkspaceRouteKey = Key_sop | Key_mcp | Key_llm_providers | Key_agents

record WorkspaceRouteDefinition =
  rt_key :: WorkspaceRouteKey
  rt_label :: jstr
  rt_path :: jstr
  rt_showInSidebar :: bool
  rt_requiresAdmin :: "bool option"

fun workspaceRoutes :: "WorkspaceRouteKey \<Rightarrow> WorkspaceRouteDefinition" where
  "workspaceRoutes Key_sop = \<lparr>rt_key = Key_sop, rt_label = [0x53D1, 0x8D77, 0x65B0] @ str ''SOP'' @ [0x8D28, 0x68C0],
     rt_path = str ''/sop'', rt_showInSidebar = True, rt_requiresAdmin = None\<rparr>"
| "workspaceRoutes Key_mcp = \<lparr>rt_key = Key_mcp, rt_label = str ''MCP '' @ [0x7BA1, 0x7406],
     rt_path = str ''/mcp'', rt_showInSidebar = True, rt_requiresAdmin = Some True\<rparr>"
| "workspaceRoutes Key_llm_providers = \<lparr>rt_key = Key_llm_providers, rt_label = str ''LLM Provider '' @ [0x7BA1, 0x7406],
     rt_path = str ''/llm-providers'', rt_showInSidebar = True, rt_requiresAdmin = Some True\<rparr>"
| "workspaceRoutes Key_agents = \<lparr>rt_key = Key_agents, rt_label = str ''Agent '' @ [0x914D, 0x7F6E],
     rt_path = str ''/agents'', rt_showInSidebar = True, rt_requiresAdmin = Some True\<rparr>"

definition workspaceSidebarRoutes :: "WorkspaceRouteDefinition list" where
  "workspaceSidebarRoutes = map workspaceRoutes [Key_sop, Key_mcp, Key_llm_providers, Key_agents]"

definition getWorkspaceRouteKey :: "jstr \<Rightarrow> WorkspaceRouteKey" where
  "getWorkspaceRouteKey pathname =
     (if startsWith pathname (rt_path (workspaceRoutes Key_llm_providers)) then Key_llm_providers
      else if startsWith pathname (rt_path (workspaceRoutes Key_agents)) then Key_agents
      else if startsWith pathname (rt_path (workspaceRoutes Key_mcp)) then Key_mcp else Key_sop)"

definition canAccessWorkspaceRoute :: "WorkspaceRouteDefinition \<Rightarrow> bool \<Rightarrow> bool" where
  "canAccessWorkspaceRoute route isAdmin \<longleftrightarrow> rt_requiresAdmin route \<noteq> Some True \<or> isAdmin"

definition getVisibleWorkspaceSidebarRoutes :: "bool \<Rightarrow> WorkspaceRouteDefinition list" where
  "getVisibleWorkspaceSidebarRoutes isAdmin =
     filter (\<lambda>route. rt_showInSidebar route \<and> canAccessWorkspaceRoute route isAdmin) workspaceSidebarRoutes"

subsection \<open>The routes of the application\<close>

datatype page =
    ChatPage | McpListPage | McpCreatePage | McpEditPage | McpDetailPage
  | LlmProviderListPage | LlmProviderCreatePage | LlmProviderEditPage | LlmProviderDetailPage
  | AgentListPage | AgentCreatePage | AgentEditPage

datatype element = Page page | Navigate jstr

datatype segment = Lit string | Param

record app_route =
  ar_pattern :: "segment list option" \<comment> \<open>\<open>None\<close> is the pattern \<open>*\<close>\<close>
  ar_guard :: "WorkspaceRouteKey option" \<comment> \<open>the route of the enclosing \<open>ProtectedRoute\<close>\<close>
  ar_element :: element

definition open_route :: "segment list option \<Rightarrow> element \<Rightarrow> app_route" where
  "open_route p e = \<lparr>ar_pattern = p, ar_guard = None, ar_element = e\<rparr>"

definition guarded :: "WorkspaceRouteKey \<Rightarrow> segment list \<Rightarrow> page \<Rightarrow> app_route" where
  "guarded k p pg = \<lparr>ar_pattern = Some p, ar_guard = Some k, ar_element = Page pg\<rparr>"

definition app_routes :: "app_route list" where
  "app_routes =
    [open_route (Some []) (Navigate (str ''/sop'')),
     open_route (Some [Lit ''sop'']) (Page ChatPage),
     guarded Key_mcp [Lit ''mcp''] McpListPage,
     guarded Key_mcp [Lit ''mcp'', Lit ''new''] McpCreatePage,
     guarded Key_mcp [Lit ''mcp'', Param, Lit ''edit''] McpEditPage,
     guarded Key_mcp [Lit ''mcp'', Param] McpDetailPage,
     guarded Key_llm_providers [Lit ''llm-providers''] LlmProviderListPage,
     guarded Key_llm_providers [Lit ''llm-providers'', Lit ''new''] LlmProviderCreatePage,
     guarded Key_llm_providers [Lit ''llm-providers'', Param, Lit ''edit''] LlmProviderEditPage,
     guarded Key_llm_providers [Lit ''llm-providers'', Param] LlmProviderDetailPage,
     guarded Key_agents [Lit ''agents''] AgentListPage,
     guarded Key_agents [Lit ''agents'', Lit ''new''] AgentCreatePage,
     guarded Key_agents [Lit ''agents'', Param, Lit ''edit''] AgentEditPage,
     open_route None (Navigate (str ''/sop''))]"

fun path_of :: "segment list \<Rightarrow> jstr list \<Rightarrow> jstr" where
  "path_of [] args = []"
| "path_of (Lit s # ps) args = 47 # str s @ path_of ps args"
| "path_of (Param # ps) (a # args) = 47 # a @ path_of ps args"
| "path_of (Param # ps) [] = 47 # path_of ps []"

datatype screen = Screen_Loading | Screen_DevUserPicker | Screen_AuthRequired | Screen_Forbidden
  | Screen_Element element

definition ProtectedRoute :: "WorkspaceRouteKey option \<Rightarrow> bool \<Rightarrow> element \<Rightarrow> screen" where
  "ProtectedRoute guard isAdmin outlet = (case guard of
     None \<Rightarrow> Screen_Element outlet
   | Some k \<Rightarrow> if canAccessWorkspaceRoute (workspaceRoutes k) isAdmin then Screen_Element outlet else Screen_Forbidden)"

definition AuthenticatedWorkspace :: "bool \<Rightarrow> AuthState \<Rightarrow> app_route \<Rightarrow> screen" where
  \<comment> \<open>\<open>dev\<close> is \<open>import.meta.env.DEV\<close>\<close>
  "AuthenticatedWorkspace dev s r = (case s of
     Auth_Loading \<Rightarrow> Screen_Loading
   | Auth_Anonymous \<Rightarrow> if dev then Screen_DevUserPicker else Screen_AuthRequired
   | Auth_Authenticated u \<Rightarrow> ProtectedRoute (ar_guard r) (useAuthz s) (ar_element r))"

subsection \<open>The frame and its sidebar\<close>

record frame =
  fr_sidebarOpen :: bool
  fr_hasHandler :: bool \<comment> \<open>a \<open>newConversationHandler\<close> is registered\<close>
  fr_recentRefreshKey :: int

definition frame_init :: frame where
  "frame_init = \<lparr>fr_sidebarOpen = True, fr_hasHandler = False, fr_recentRefreshKey = 0\<rparr>"

definition frame_toggle :: "frame \<Rightarrow> frame" where
  "frame_toggle f = f\<lparr>fr_sidebarOpen := \<not> fr_sidebarOpen f\<rparr>"

definition registerNewConversationHandler :: "bool \<Rightarrow> frame \<Rightarrow> frame" where
  "registerNewConversationHandler handler f = f\<lparr>fr_hasHandler := handler\<rparr>"

definition refreshRecentSopQualityChecks :: "frame \<Rightarrow> frame" where
  "refreshRecentSopQualityChecks f = f\<lparr>fr_recentRefreshKey := fr_recentRefreshKey f + 1\<rparr>"

datatype nav_effect = Nav_Nothing | Nav_Handler | Nav_To jstr

definition frame_handleNewConversation :: "WorkspaceRouteKey \<Rightarrow> frame \<Rightarrow> nav_effect" where
  "frame_handleNewConversation activeKey f = (if activeKey = Key_sop \<and> fr_hasHandler f then Nav_Handler else Nav_To (str ''/sop''))"

definition frame_handleNavigate :: "WorkspaceRouteKey \<Rightarrow> nav_effect" where
  "frame_handleNavigate routeKey = Nav_To (rt_path (workspaceRoutes routeKey))"

definition sidebar_handleNewConversation :: "WorkspaceRouteKey \<Rightarrow> frame \<Rightarrow> nav_effect" where
  "sidebar_handleNewConversation activeKey f =
     (if activeKey = Key_sop then frame_handleNewConversation activeKey f else frame_handleNavigate Key_sop)"

definition handleRouteClick :: "WorkspaceRouteKey \<Rightarrow> frame \<Rightarrow> WorkspaceRouteKey \<Rightarrow> nav_effect" where
  "handleRouteClick activeKey f routeKey =
     (if routeKey = Key_sop then sidebar_handleNewConversation activeKey f
      else if routeKey = activeKey then Nav_Nothing
      else frame_handleNavigate routeKey)"

record nav_button =
  nb_active :: bool
  nb_label :: jstr
  nb_key :: WorkspaceRouteKey

definition sidebar_buttons :: "AuthState \<Rightarrow> jstr \<Rightarrow> nav_button list" where
  "sidebar_buttons s pathname =
     map (\<lambda>route. \<lparr>nb_active = (getWorkspaceRouteKey pathname = rt_key route), nb_label = rt_label route, nb_key = rt_key route\<rparr>)
       (getVisibleWorkspaceSidebarRoutes (useAuthz s))"

subsection \<open>The panel of recent checks\<close>

definition default_env_effect :: "SopEnvironment list \<Rightarrow> jstr \<Rightarrow> jstr" where
  "default_env_effect envs selectedEnv = (if selectedEnv = [] then (case envs of [] \<Rightarrow> selectedEnv | e # _ \<Rightarrow> env_key e) else selectedEnv)"

definition historyTitle :: "SopQualityCheckHistoryItem \<Rightarrow> jstr" where
  "historyTitle check = (case hist_sop_id check of None \<Rightarrow> hist_check_id check | Some s \<Rightarrow> if s = [] then hist_check_id check else s)"

record recent_item =
  ri_active :: bool
  ri_title :: jstr
  ri_tooltip :: jstr
  ri_target :: jstr

record recent_panel =
  rp_errors :: "jstr list"
  rp_loading :: bool
  rp_empty :: bool
  rp_items :: "recent_item list"

definition recent_view ::
  "jstr option \<Rightarrow> SopEnvironment list AsyncState \<Rightarrow> SopQualityCheckHistoryItem list AsyncState \<Rightarrow> recent_panel" where
  "recent_view activeCheckId environments history =
     \<lparr>rp_errors = (case st_error environments of None \<Rightarrow> [] | Some e \<Rightarrow> [error_message e])
        @ (case st_error history of None \<Rightarrow> [] | Some e \<Rightarrow> [error_message e]),
      rp_loading = (st_loading environments \<or> st_loading history),
      rp_empty = (\<not> st_loading environments \<and> \<not> st_loading history \<and> st_data history = []
        \<and> st_error environments = None \<and> st_error history = None),
      rp_items = map (\<lambda>check. \<lparr>ri_active = (activeCheckId = Some (hist_check_id check)), ri_title = historyTitle check,
        ri_tooltip = orElse (hist_sop_id check) (hist_check_id check),
        ri_target = str ''/sop?checkId='' @ hist_check_id check\<rparr>) (st_data history)\<rparr>"

subsection \<open>Properties\<close>

lemma useAuthz_admin: "useAuthz s \<longleftrightarrow> (\<exists>u. s = Auth_Authenticated u \<and> cu_is_admin u)"
  by (cases s) (simp_all add: useAuthz_def)

lemma guard_needs_admin: "k \<noteq> Key_sop \<Longrightarrow> canAccessWorkspaceRoute (workspaceRoutes k) b = b"
  by (cases k) (simp_all add: canAccessWorkspaceRoute_def)

lemma app_route_cases:
  assumes "r \<in> set app_routes"
  shows "ar_guard r = None \<and> ar_element r \<in> {Navigate (str ''/sop''), Page ChatPage}
    \<or> (\<exists>k. ar_guard r = Some k \<and> k \<noteq> Key_sop \<and> ar_element r \<notin> {Navigate (str ''/sop''), Page ChatPage})"
  using assms by (auto simp: app_routes_def open_route_def guarded_def)

text \<open>C6. What a route shows: the loading screen, the login screens, or, to an authenticated
  user, the route's own element exactly when the user is an administrator or the element is the
  chat page or the redirection to it; anything else is answered with the 403 screen. So no
  management page is ever rendered for a user who is not an administrator.\<close>
theorem admin_pages_need_admin:
  assumes "r \<in> set app_routes"
  shows "(AuthenticatedWorkspace dev s r = Screen_Element e \<longleftrightarrow>
      e = ar_element r \<and> (\<exists>u. s = Auth_Authenticated u \<and> (cu_is_admin u \<or> e \<in> {Navigate (str ''/sop''), Page ChatPage})))
    \<and> (AuthenticatedWorkspace dev s r = Screen_Forbidden \<longleftrightarrow>
      ar_element r \<notin> {Navigate (str ''/sop''), Page ChatPage} \<and> (\<exists>u. s = Auth_Authenticated u \<and> \<not> cu_is_admin u))"
  using app_route_cases [OF assms]
  by (cases s) (auto simp: AuthenticatedWorkspace_def ProtectedRoute_def guard_needs_admin useAuthz_admin split: if_splits)

theorem admin_pages_need_admin_witness:
  "AuthenticatedWorkspace False (Auth_Authenticated \<lparr>cu_id = [], cu_account = str ''common'', cu_is_admin = False, cu_meta = JNull\<rparr>)
     (guarded Key_mcp [Lit ''mcp''] McpListPage) = Screen_Forbidden"
  using admin_pages_need_admin [of "guarded Key_mcp [Lit ''mcp''] McpListPage" False
      "Auth_Authenticated \<lparr>cu_id = [], cu_account = str ''common'', cu_is_admin = False, cu_meta = JNull\<rparr>" "Page ChatPage"]
  by (simp add: app_routes_def guarded_def)

lemma startsWith_same_length: "length p = length q \<Longrightarrow> startsWith (p @ s) q \<longleftrightarrow> p = q"
  by (simp add: startsWith_def)

lemma route_key_of_path:
  "getWorkspaceRouteKey (str ''/mcp'' @ rest) = Key_mcp"
  "getWorkspaceRouteKey (str ''/llm-providers'' @ rest) = Key_llm_providers"
  "getWorkspaceRouteKey (str ''/agents'' @ rest) = Key_agents"
  "getWorkspaceRouteKey (str ''/sop'') = Key_sop"
  by (simp_all add: getWorkspaceRouteKey_def startsWith_def str_def)

lemma guarded_path_key:
  assumes "r \<in> set app_routes" "ar_guard r = Some k" "ar_pattern r = Some p"
  shows "getWorkspaceRouteKey (path_of p args) = k"
proof -
  have "(\<exists>ps. p = Lit ''mcp'' # ps) \<and> k = Key_mcp \<or> (\<exists>ps. p = Lit ''llm-providers'' # ps) \<and> k = Key_llm_providers
    \<or> (\<exists>ps. p = Lit ''agents'' # ps) \<and> k = Key_agents"
    using assms by (auto simp: app_routes_def open_route_def guarded_def)
  moreover have "47 # str ''mcp'' @ x = str ''/mcp'' @ x" "47 # str ''llm-providers'' @ x = str ''/llm-providers'' @ x"
    "47 # str ''agents'' @ x = str ''/agents'' @ x" for x by (simp_all add: str_def)
  ultimately show ?thesis by (elim disjE conjE exE) (simp_all only: path_of.simps route_key_of_path)
qed

lemma visible_for_admin: "getVisibleWorkspaceSidebarRoutes True = workspaceSidebarRoutes"
  by (simp add: getVisibleWorkspaceSidebarRoutes_def workspaceSidebarRoutes_def canAccessWorkspaceRoute_def)

lemma visible_for_others: "getVisibleWorkspaceSidebarRoutes False = [workspaceRoutes Key_sop]"
  by (simp add: getVisibleWorkspaceSidebarRoutes_def workspaceSidebarRoutes_def canAccessWorkspaceRoute_def)

lemma route_path_key: "getWorkspaceRouteKey (rt_path (workspaceRoutes k)) = k"
  using route_key_of_path(1) [of "[]"] route_key_of_path(2) [of "[]"] route_key_of_path(3) [of "[]"] route_key_of_path(4)
  by (cases k) simp_all

text \<open>The sidebar agrees with the routes. It lists the sections the user may enter and no
  others. On any path an administrator reaches through a guarded route, whatever its parameters,
  exactly the button of that route's section is active, and clicking it does nothing. Clicking the
  button of another section navigates to a path of that section.\<close>
theorem sidebar_agrees_with_routes:
  assumes "r \<in> set app_routes" "ar_guard r = Some k" "ar_pattern r = Some p" "cu_is_admin u"
  shows "map nb_key (filter nb_active (sidebar_buttons (Auth_Authenticated u) (path_of p args))) = [k]
    \<and> handleRouteClick (getWorkspaceRouteKey (path_of p args)) f k = Nav_Nothing
    \<and> (handleRouteClick active f target = Nav_To q \<longrightarrow> getWorkspaceRouteKey q = target)
    \<and> (target \<in> nb_key ` set (sidebar_buttons s q) \<longleftrightarrow> canAccessWorkspaceRoute (workspaceRoutes target) (useAuthz s))"
proof (intro conjI)
  have key: "getWorkspaceRouteKey (path_of p args) = k" using assms(1-3) by (rule guarded_path_key)
  have "k \<noteq> Key_sop" using app_route_cases [OF assms(1)] assms(2) by auto
  then show "handleRouteClick (getWorkspaceRouteKey (path_of p args)) f k = Nav_Nothing"
    by (simp add: handleRouteClick_def key)
  show "map nb_key (filter nb_active (sidebar_buttons (Auth_Authenticated u) (path_of p args))) = [k]"
    using assms(4) by (cases k) (simp_all add: sidebar_buttons_def key useAuthz_admin visible_for_admin workspaceSidebarRoutes_def)
  show "handleRouteClick active f target = Nav_To q \<longrightarrow> getWorkspaceRouteKey q = target"
    using route_path_key [of target] route_key_of_path(4)
    by (auto simp: handleRouteClick_def sidebar_handleNewConversation_def frame_handleNewConversation_def frame_handleNavigate_def)
  show "target \<in> nb_key ` set (sidebar_buttons s q) \<longleftrightarrow> canAccessWorkspaceRoute (workspaceRoutes target) (useAuthz s)"
    by (cases "useAuthz s"; cases target)
      (simp_all add: sidebar_buttons_def visible_for_admin visible_for_others workspaceSidebarRoutes_def canAccessWorkspaceRoute_def)
qed

theorem sidebar_agrees_with_routes_witness:
  "map nb_key (filter nb_active (sidebar_buttons (Auth_Authenticated \<lparr>cu_id = [], cu_account = [], cu_is_admin = True, cu_meta = JNull\<rparr>)
     (path_of [Lit ''agents'', Param, Lit ''edit''] [str ''a1'']))) = [Key_agents]"
  using sidebar_agrees_with_routes [of "guarded Key_agents [Lit ''agents'', Param, Lit ''edit''] AgentEditPage" Key_agents
      "[Lit ''agents'', Param, Lit ''edit'']" "\<lparr>cu_id = [], cu_account = [], cu_is_admin = True, cu_meta = JNull\<rparr>" "[str ''a1'']" frame_init]
  by (simp add: app_routes_def guarded_def)

end
