(* ===== verification/Chat.thy ===== *)
theory Chat
  imports Routing
begin

text \<open>
  The chat page of \<open>features/sop/pages/ChatPage.tsx\<close>, which starts a quality check and shows it. Its
  cells, refs and the start requests it awaits are one record; each handler and effect is an
  operation. Navigation is an output of an operation and comes back as a change of the route.
\<close>

subsection \<open>State\<close>

record start_request =
  sr_id :: nat
  sr_sopId :: jstr
  sr_env :: jstr
  sr_observedAtStart :: "jstr option"

record chat =
  ch_initialSopId :: jstr
  ch_route :: "jstr option" \<comment> \<open>\<open>routeCheckId\<close>\<close>
  ch_sopId :: jstr
  ch_pendingSopId :: jstr
  ch_selectedEnv :: jstr
  ch_observed :: "jstr option"
  ch_startError :: "jstr option"
  ch_startMessage :: "jstr option"
  ch_starting :: bool
  ch_startRequestRef :: nat
  ch_inflight :: "start_request list"

definition route_effect :: "chat \<Rightarrow> chat" where
  "route_effect c = (case ch_route c of
     None \<Rightarrow> c
   | Some i \<Rightarrow> if i = [] then c else c\<lparr>ch_observed := Some i, ch_startError := None, ch_startMessage := None\<rparr>)"

definition chat_mount :: "jstr \<Rightarrow> jstr option \<Rightarrow> chat" where
  "chat_mount initialSopId routeCheckId = route_effect
     \<lparr>ch_initialSopId = initialSopId, ch_route = routeCheckId, ch_sopId = initialSopId, ch_pendingSopId = initialSopId,
      ch_selectedEnv = [], ch_observed = routeCheckId, ch_startError = None, ch_startMessage = None, ch_starting = False,
      ch_startRequestRef = 0, ch_inflight = []\<rparr>"

definition chat_route :: "jstr option \<Rightarrow> chat \<Rightarrow> chat" where
  \<comment> \<open>the effect runs when \<open>routeCheckId\<close> changed\<close>
  "chat_route r c = (if r = ch_route c then c else route_effect (c\<lparr>ch_route := r\<rparr>))"

definition chat_env_effect :: "SopEnvironment list \<Rightarrow> chat \<Rightarrow> chat" where
  "chat_env_effect environments c =
     (if ch_selectedEnv c = [] \<and> environments \<noteq> [] then c\<lparr>ch_selectedEnv := env_key (hd environments)\<rparr> else c)"

definition canSend :: "chat \<Rightarrow> bool" where
  "canSend c \<longleftrightarrow> trim (ch_pendingSopId c) \<noteq> [] \<and> ch_selectedEnv c \<noteq> []"

definition handleSend :: "chat \<Rightarrow> chat" where
  "handleSend c =
     (let nextSopId = trim (ch_pendingSopId c) in
      if nextSopId = [] \<or> ch_selectedEnv c = [] then c
      else let c = (if nextSopId \<noteq> ch_sopId c then c\<lparr>ch_sopId := nextSopId\<rparr> else c);
               requestId = Suc (ch_startRequestRef c)
           in c\<lparr>ch_startRequestRef := requestId, ch_starting := True, ch_startError := None, ch_startMessage := None,
                ch_inflight := ch_inflight c @ [\<lparr>sr_id = requestId, sr_sopId = nextSopId, sr_env = ch_selectedEnv c,
                  sr_observedAtStart = ch_observed c\<rparr>]\<rparr>)"

definition chat_submit :: "chat \<Rightarrow> chat" where
  "chat_submit c = (if \<not> ch_starting c \<and> canSend c then handleSend c else c)"

definition chat_start_request :: "start_request \<Rightarrow> js_exn + Request" where
  "chat_start_request r = startSopQualityCheck (sr_sopId r) (sr_env r)"

fun started_check :: "StartSopQualityCheckResult \<Rightarrow> jstr" where
  "started_check (Started_Created i) = i"
| "started_check (Started_Active i) = i"

definition active_message :: "jstr \<Rightarrow> jstr" where
  "active_message i = [0x5DF2, 0x5B58, 0x5728, 0x8FDB, 0x884C, 0x4E2D, 0x7684, 0x8D28, 0x68C0, 0xFF0C, 0x5DF2, 0x52A0, 0x5165, 0x68C0, 0x67E5]
     @ str '' '' @ i @ [0x3002]"

fun start_error_message :: "thrown \<Rightarrow> jstr" where
  "start_error_message (Thrown_Error e) = error_message e"
| "start_error_message (Thrown_Value v) =
     [0x65E0, 0x6CD5, 0x53D1, 0x8D77, 0x8FD0, 0x884C, 0xFF0C, 0x8BF7, 0x7A0D, 0x540E, 0x518D, 0x8BD5, 0x3002]"

definition chat_settled :: "start_request \<Rightarrow> thrown + StartSopQualityCheckResult \<Rightarrow> chat \<Rightarrow> jstr option \<times> chat" where
  \<comment> \<open>the continuation of \<open>handleSend\<close>, with the navigation it asks for (together with a refresh of the recent checks)\<close>
  "chat_settled r out c =
     (let c0 = c\<lparr>ch_inflight := filter (\<lambda>q. sr_id q \<noteq> sr_id r) (ch_inflight c)\<rparr>;
          latest = (ch_startRequestRef c = sr_id r);
          finally = (\<lambda>d. if latest then d\<lparr>ch_starting := False\<rparr> else d)
      in case out of
           Inr res \<Rightarrow>
             if \<not> latest \<or> ch_observed c \<noteq> sr_observedAtStart r then (None, finally c0)
             else (Some (str ''/sop?checkId='' @ started_check res),
                   finally (c0\<lparr>ch_observed := Some (started_check res),
                     ch_startMessage := (case res of Started_Active i \<Rightarrow> Some (active_message i) | _ \<Rightarrow> ch_startMessage c)\<rparr>))
         | Inl e \<Rightarrow> (None, if latest then finally (c0\<lparr>ch_startError := Some (start_error_message e)\<rparr>) else c0))"

definition handleEnvironmentChange :: "jstr \<Rightarrow> chat \<Rightarrow> chat" where
  "handleEnvironmentChange nextEnv c = c\<lparr>ch_startRequestRef := Suc (ch_startRequestRef c), ch_selectedEnv := nextEnv,
     ch_startError := None, ch_startMessage := None, ch_starting := False\<rparr>"

definition handleNewConversation :: "chat \<Rightarrow> jstr \<times> chat" where
  \<comment> \<open>with the path it navigates to\<close>
  "handleNewConversation c = (str ''/sop'', c\<lparr>ch_startRequestRef := Suc (ch_startRequestRef c), ch_observed := None,
     ch_startError := None, ch_startMessage := None, ch_starting := False,
     ch_sopId := ch_initialSopId c, ch_pendingSopId := ch_initialSopId c\<rparr>)"

definition chat_type_sop :: "jstr \<Rightarrow> chat \<Rightarrow> chat" where
  "chat_type_sop v c = c\<lparr>ch_pendingSopId := v\<rparr>"

subsection \<open>What the page shows\<close>

record env_option =
  eo_value :: jstr
  eo_label :: jstr

record empty_state =
  es_select_disabled :: bool
  es_options :: "env_option list"
  es_submit_disabled :: bool
  es_submit_label :: jstr
  es_alerts :: "jstr list"
  es_status :: "jstr option"

definition EmptyState :: "SopEnvironment list AsyncState \<Rightarrow> chat \<Rightarrow> empty_state" where
  "EmptyState environments c =
     (let envs = st_data environments in
      \<lparr>es_select_disabled = (st_loading environments \<or> envs = []),
       es_options = (if envs = [] then [\<lparr>eo_value = [], eo_label = (if st_loading environments
            then [0x52A0, 0x8F7D, 0x4E2D] @ str ''...'' else [0x65E0, 0x53EF, 0x7528, 0x73AF, 0x5883])\<rparr>] else [])
         @ map (\<lambda>env. \<lparr>eo_value = env_key env, eo_label = (if env_name_zh env \<noteq> [] then env_name_zh env else env_name_en env)\<rparr>) envs,
       es_submit_disabled = (\<not> canSend c \<or> ch_starting c),
       es_submit_label = (if ch_starting c then [0x6B63, 0x5728, 0x53D1, 0x8D77] @ str ''...'' else [0x5F00, 0x59CB, 0x8D28, 0x68C0]),
       es_alerts = (case st_error environments of None \<Rightarrow> [] | Some e \<Rightarrow> [error_message e])
         @ (case ch_startError c of Some (x # xs) \<Rightarrow> [x # xs] | _ \<Rightarrow> []),
       es_status = (case ch_startMessage c of Some (x # xs) \<Rightarrow> Some (x # xs) | _ \<Rightarrow> None)\<rparr>)"

datatype chat_screen = Show_Check jstr "jstr option" "jstr option" | Show_Empty empty_state

definition ChatPage_view :: "SopEnvironment list AsyncState \<Rightarrow> chat \<Rightarrow> chat_screen" where
  "ChatPage_view environments c = (case ch_observed c of
     Some (x # xs) \<Rightarrow> Show_Check (x # xs) (ch_startError c) (ch_startMessage c)
   | _ \<Rightarrow> Show_Empty (EmptyState environments c))"

subsection \<open>Steps\<close>

inductive chat_step :: "chat \<Rightarrow> chat \<Rightarrow> bool" where
  environments: "chat_step c (chat_env_effect envs c)"
| typing: "chat_step c (chat_type_sop v c)"
| submit: "chat_step c (chat_submit c)"
| settled: "r \<in> set (ch_inflight c) \<Longrightarrow> chat_step c (snd (chat_settled r out c))"
| environment: "chat_step c (handleEnvironmentChange e c)"
| conversation: "chat_step c (snd (handleNewConversation c))"
| route: "chat_step c (chat_route rt c)"

inductive chat_reachable :: "chat \<Rightarrow> bool" where
  mount: "chat_reachable (chat_mount sop rt)"
| step: "chat_reachable c \<Longrightarrow> chat_step c d \<Longrightarrow> chat_reachable d"

inductive_cases chat_stepE: "chat_step c d"

definition chat_inv :: "chat \<Rightarrow> bool" where
  "chat_inv c \<longleftrightarrow> distinct (map sr_id (ch_inflight c))
     \<and> list_all (\<lambda>r. sr_id r \<le> ch_startRequestRef c \<and> sr_sopId r \<noteq> [] \<and> trim (sr_sopId r) = sr_sopId r \<and> sr_env r \<noteq> []) (ch_inflight c)
     \<and> (ch_starting c \<longleftrightarrow> ch_startRequestRef c \<in> sr_id ` set (ch_inflight c))"

definition same_requests :: "chat \<Rightarrow> chat \<Rightarrow> bool" where
  "same_requests c d \<longleftrightarrow> ch_inflight d = ch_inflight c \<and> ch_startRequestRef d = ch_startRequestRef c \<and> ch_starting d = ch_starting c"

lemma same_requests_inv: "same_requests c d \<Longrightarrow> chat_inv c \<Longrightarrow> chat_inv d"
  by (simp add: same_requests_def chat_inv_def)

lemma route_same: "same_requests c (chat_route rt c)"
  by (simp add: same_requests_def chat_route_def route_effect_def split: option.split)

lemma effects_same: "same_requests c (chat_env_effect envs c)" "same_requests c (chat_type_sop v c)"
  by (simp_all add: same_requests_def chat_env_effect_def chat_type_sop_def)

lemma new_request_inv:
  assumes "chat_inv c"
  shows "chat_inv (handleSend c)"
proof -
  have "Suc (ch_startRequestRef c) \<notin> sr_id ` set (ch_inflight c)" using assms by (force simp: chat_inv_def list_all_iff)
  then show ?thesis using assms by (auto simp: chat_inv_def handleSend_def Let_def list_all_iff le_SucI)
qed

lemma settled_requests:
  "ch_inflight (snd (chat_settled r out c)) = filter (\<lambda>q. sr_id q \<noteq> sr_id r) (ch_inflight c)"
  "ch_startRequestRef (snd (chat_settled r out c)) = ch_startRequestRef c"
  "ch_starting (snd (chat_settled r out c)) = (if ch_startRequestRef c = sr_id r then False else ch_starting c)"
  by (auto simp: chat_settled_def Let_def split: sum.split StartSopQualityCheckResult.split)

lemma settled_inv:
  assumes "chat_inv c"
  shows "chat_inv (snd (chat_settled r out c))"
  using assms by (auto simp: chat_inv_def settled_requests list_all_iff distinct_map_filter)

lemma superseded_inv:
  assumes "chat_inv c"
  shows "chat_inv (handleEnvironmentChange e c)" "chat_inv (snd (handleNewConversation c))"
proof -
  have "Suc (ch_startRequestRef c) \<notin> sr_id ` set (ch_inflight c)" using assms by (force simp: chat_inv_def list_all_iff)
  with assms show "chat_inv (handleEnvironmentChange e c)" "chat_inv (snd (handleNewConversation c))"
    by (auto simp: chat_inv_def handleEnvironmentChange_def handleNewConversation_def list_all_iff le_SucI)
qed

lemma chat_step_inv: "chat_step c d \<Longrightarrow> chat_inv c \<Longrightarrow> chat_inv d"
  by (elim chat_stepE) (auto simp: chat_submit_def new_request_inv settled_inv superseded_inv
    intro: same_requests_inv [OF route_same] same_requests_inv [OF effects_same(1)] same_requests_inv [OF effects_same(2)])

lemma chat_reachable_inv: "chat_reachable c \<Longrightarrow> chat_inv c"
proof (induction rule: chat_reachable.induct)
  case (mount sop rt)
  show ?case by (simp add: chat_mount_def route_effect_def chat_inv_def split: option.split)
qed (rule chat_step_inv)

subsection \<open>Properties\<close>

text \<open>C27. In every reachable state of the chat page the button shows a start in progress exactly
  while the latest start request is awaited, every request awaited is for a non-empty trimmed SOP
  identifier and a chosen environment, and none is sent while one is shown in progress.\<close>
theorem chat_starting_is_accurate:
  assumes "chat_reachable c"
  shows "(ch_starting c \<longleftrightarrow> ch_startRequestRef c \<in> sr_id ` set (ch_inflight c))
    \<and> list_all (\<lambda>r. sr_sopId r \<noteq> [] \<and> trim (sr_sopId r) = sr_sopId r \<and> sr_env r \<noteq> []) (ch_inflight c)
    \<and> (ch_starting c \<longrightarrow> chat_submit c = c)
    \<and> es_submit_disabled (EmptyState envs c) = (chat_submit c = c)"
proof -
  have "chat_inv c" using assms by (rule chat_reachable_inv)
  moreover have "handleSend c \<noteq> c" if "canSend c"
  proof
    assume "handleSend c = c"
    moreover have "ch_startRequestRef (handleSend c) = Suc (ch_startRequestRef c)"
      using that by (simp add: canSend_def handleSend_def Let_def)
    ultimately show False by simp
  qed
  ultimately show ?thesis by (auto simp: chat_inv_def chat_submit_def EmptyState_def Let_def list_all_iff)
qed

theorem chat_starting_is_accurate_witness:
  "ch_starting (chat_submit (handleEnvironmentChange (str ''prod'') (chat_mount (str '' sop-1 '') None)))
   \<and> map sr_sopId (ch_inflight (chat_submit (handleEnvironmentChange (str ''prod'') (chat_mount (str '' sop-1 '') None)))) = [str ''sop-1'']"
proof -
  let ?c = "chat_submit (handleEnvironmentChange (str ''prod'') (chat_mount (str '' sop-1 '') None))"
  have r: "chat_reachable ?c" by (intro chat_reachable.step [OF _ submit] chat_reachable.step [OF _ environment] chat_reachable.mount)
  have "map sr_sopId (ch_inflight ?c) = [str ''sop-1'']" "ch_startRequestRef ?c = 2" "map sr_id (ch_inflight ?c) = [2]" by code_simp+
  then show ?thesis using chat_starting_is_accurate [OF r] by (metis list.set_intros(1) list.set_map)
qed

text \<open>The answer to a start request changes which check is shown only if no later start,
  environment change or new conversation came in between and the check shown is still the one
  shown when the request was sent; then it shows the check started and navigates to it. A failure
  is shown only for the latest request. Otherwise the answer changes nothing that is shown.\<close>
theorem late_start_is_ignored:
  assumes "chat_settled r out c = (nav, d)"
  shows "(ch_startRequestRef c \<noteq> sr_id r \<longrightarrow> nav = None \<and> d = c\<lparr>ch_inflight := ch_inflight d\<rparr>)
    \<and> (ch_observed c \<noteq> sr_observedAtStart r \<longrightarrow> nav = None \<and> ch_observed d = ch_observed c \<and> ch_startMessage d = ch_startMessage c)
    \<and> (ch_startRequestRef c = sr_id r \<and> ch_observed c = sr_observedAtStart r \<and> out = Inr res \<longrightarrow>
        nav = Some (str ''/sop?checkId='' @ started_check res) \<and> ch_observed d = Some (started_check res) \<and> \<not> ch_starting d)
    \<and> (ch_startRequestRef c = sr_id r \<and> out = Inl e \<longrightarrow>
        ch_startError d = Some (start_error_message e) \<and> ch_observed d = ch_observed c \<and> \<not> ch_starting d)"
  using assms by (auto simp: chat_settled_def Let_def split: sum.splits if_splits StartSopQualityCheckResult.splits)

theorem late_start_is_ignored_witness:
  "fst (chat_settled \<lparr>sr_id = 1, sr_sopId = str ''a'', sr_env = str ''e'', sr_observedAtStart = None\<rparr> (Inr (Started_Created (str ''c1'')))
     (snd (handleNewConversation (chat_mount [] None)))) = Some (str ''/sop?checkId=c1'')
   \<and> fst (chat_settled \<lparr>sr_id = 1, sr_sopId = str ''a'', sr_env = str ''e'', sr_observedAtStart = None\<rparr> (Inr (Started_Created (str ''c1'')))
     (chat_mount [] (Some (str ''c0'')))) = None"
proof -
  let ?r = "\<lparr>sr_id = 1, sr_sopId = str ''a'', sr_env = str ''e'', sr_observedAtStart = None\<rparr>"
  let ?o = "Inr (Started_Created (str ''c1'')) :: thrown + StartSopQualityCheckResult"
  let ?c = "snd (handleNewConversation (chat_mount [] None))" and ?d = "chat_mount [] (Some (str ''c0''))"
  have "ch_startRequestRef ?c = 1" "ch_observed ?c = None" "ch_startRequestRef ?d = 0"
    "str ''/sop?checkId='' @ str ''c1'' = str ''/sop?checkId=c1''" by code_simp+
  moreover have "chat_settled ?r ?o ?c = (fst (chat_settled ?r ?o ?c), snd (chat_settled ?r ?o ?c))"
    "chat_settled ?r ?o ?d = (fst (chat_settled ?r ?o ?d), snd (chat_settled ?r ?o ?d))" by simp_all
  note this [THEN late_start_is_ignored, where res = "Started_Created (str ''c1'')"]
  ultimately show ?thesis by simp
qed

text \<open>The note that an active check was joined never stays: the navigation that comes with it
  changes the route, and the route's effect clears the note.\<close>
lemma active_note_is_cleared:
  assumes "chat_settled r (Inr (Started_Active i)) c = (Some path, d)" "i \<noteq> []" "ch_route c \<noteq> Some i"
  shows "ch_startMessage d = Some (active_message i) \<and> ch_startMessage (chat_route (Some i) d) = None
    \<and> ch_observed (chat_route (Some i) d) = Some i"
  using assms by (auto simp: chat_settled_def chat_route_def route_effect_def Let_def split: if_splits)

end
