(* ===== verification/Workspace.thy ===== *)
theory Workspace
  imports Chat
begin

text \<open>
  The workspace as a whole: the views of \<open>app/WorkspaceSidebar.tsx\<close>, \<open>components/ui/sidebar.tsx\<close> and of
  the development user pickers, the panel of \<open>app/RecentSopSidebarPanel.tsx\<close> with its two hooks, and
  \<open>WorkspaceFrame\<close> of \<open>app/App.tsx\<close> composed with the sidebar, the panel and the chat page. A click
  that navigates changes the location, which mounts and unmounts pages; a start request whose page
  is gone still runs to its end. The router is an argument: \<open>rr_visit\<close> gives the path name and the
  \<open>checkId\<close> parameter of the location a navigation leads to, \<open>rr_match\<close> the route selected there.
\<close>

subsection \<open>The sidebar on the screen\<close>

record nav_entry =
  ne_aria_label :: jstr
  ne_aria_current :: "jstr option"
  ne_title :: "jstr option"
  ne_text :: "jstr option"
  ne_key :: WorkspaceRouteKey

definition SidebarMenuButton_current :: "bool \<Rightarrow> jstr option" where
  "SidebarMenuButton_current isActive = (if isActive then Some (str ''page'') else None)"

definition SidebarNavButton :: "bool \<Rightarrow> nav_button \<Rightarrow> nav_entry" where
  "SidebarNavButton sopen b = \<lparr>ne_aria_label = nb_label b, ne_aria_current = SidebarMenuButton_current (nb_active b),
     ne_title = (if sopen then None else Some (nb_label b)), ne_text = (if sopen then Some (nb_label b) else None), ne_key = nb_key b\<rparr>"

record switch_button =
  sw_account :: jstr
  sw_pressed :: bool
  sw_disabled :: bool
  sw_text :: jstr

record user_switcher =
  us_buttons :: "switch_button list"
  us_alert :: "jstr option"

definition truthy_text :: "jstr option \<Rightarrow> jstr option" where
  "truthy_text t = (if t = Some [] then None else t)"

definition DevUserSwitcher_view :: "AuthState \<Rightarrow> picker \<Rightarrow> user_switcher option" where
  "DevUserSwitcher_view s p = (case auth_user s of
     None \<Rightarrow> None
   | Some user \<Rightarrow> Some \<lparr>us_buttons = map (\<lambda>(account, label).
         \<lparr>sw_account = account, sw_pressed = (cu_account user = account), sw_disabled = (pk_pendingAccount p \<noteq> None),
          sw_text = (if pk_pendingAccount p = Some account then str ''Signing in...'' else label)\<rparr>) DEV_ACCOUNTS,
       us_alert = truthy_text (pk_errorMessage p)\<rparr>)"

record user_picker =
  up_alert :: "jstr option"
  up_busy :: bool
  up_status :: jstr
  up_buttons :: "switch_button list"

definition DevUserPicker_view :: "picker \<Rightarrow> user_picker" where
  "DevUserPicker_view p = \<lparr>up_alert = truthy_text (pk_errorMessage p), up_busy = (pk_pendingAccount p \<noteq> None),
     up_status = (if orElse (pk_pendingAccount p) [] \<noteq> [] then str ''Signing in'' @ [0x2026] else str ''Ready''),
     up_buttons = map (\<lambda>(account, label).
         \<lparr>sw_account = account, sw_pressed = False, sw_disabled = (pk_pendingAccount p \<noteq> None),
          sw_text = (if pk_pendingAccount p = Some account then str ''Signing in'' @ [0x2026] else label)\<rparr>) DEV_ACCOUNTS\<rparr>"

subsection \<open>The panel of recent checks with its hooks\<close>

record recent =
  rc_recentOpen :: bool
  rc_selectedEnv :: jstr
  rc_environments :: "(unit, SopEnvironment list) resource"
  rc_history :: "(jstr \<times> int, SopQualityCheckHistoryItem list) resource"

definition history_key :: "jstr \<times> int \<Rightarrow> recent \<Rightarrow> recent" where
  \<comment> \<open>the arguments of \<open>useRecentSopQualityChecks\<close>; its effect runs when they changed\<close>
  "history_key k r = (if k = r_key (rc_history r) then r
     else r\<lparr>rc_history := useRecentSopQualityChecks_effect ((rc_history r)\<lparr>r_key := k\<rparr>)\<rparr>)"

definition recent_mount :: "int \<Rightarrow> recent" where
  "recent_mount refreshKey = \<lparr>rc_recentOpen = True, rc_selectedEnv = [], rc_environments = useSopEnvironments_mount,
     rc_history = useRecentSopQualityChecks_effect (resource_init ([], refreshKey) [] False)\<rparr>"

definition recent_env_effect :: "recent \<Rightarrow> recent" where
  "recent_env_effect r = (let e = default_env_effect (st_data (r_state (rc_environments r))) (rc_selectedEnv r)
     in history_key (e, snd (r_key (rc_history r))) (r\<lparr>rc_selectedEnv := e\<rparr>))"

definition recent_environments_settled :: "nat \<Rightarrow> js_error + SopEnvironment list \<Rightarrow> recent \<Rightarrow> recent" where
  "recent_environments_settled n out r = recent_env_effect (r\<lparr>rc_environments := useSopEnvironments_response n out (rc_environments r)\<rparr>)"

definition recent_history_settled :: "nat \<Rightarrow> js_error + SopQualityCheckHistoryItem list \<Rightarrow> recent \<Rightarrow> recent" where
  "recent_history_settled n out r = r\<lparr>rc_history := useRecentSopQualityChecks_response n out (rc_history r)\<rparr>"

definition recent_refresh :: "int \<Rightarrow> recent \<Rightarrow> recent" where
  "recent_refresh refreshKey r = history_key (rc_selectedEnv r, refreshKey) r"

definition recent_toggle :: "recent \<Rightarrow> recent" where
  "recent_toggle r = r\<lparr>rc_recentOpen := \<not> rc_recentOpen r\<rparr>"

definition recent_scrolls :: "recent \<Rightarrow> recent \<Rightarrow> bool" where
  \<comment> \<open>whether the render after a change scrolls the list to its end; the scroll area exists while the panel is open\<close>
  "recent_scrolls r r' \<longleftrightarrow>
     (length (st_data (r_state (rc_history r))), st_loading (r_state (rc_history r)), rc_recentOpen r)
       \<noteq> (length (st_data (r_state (rc_history r'))), st_loading (r_state (rc_history r')), rc_recentOpen r')
     \<and> rc_recentOpen r' \<and> \<not> st_loading (r_state (rc_history r')) \<and> st_data (r_state (rc_history r')) \<noteq> []"

record recent_section =
  rs_expanded :: bool
  rs_body :: "recent_panel option"

definition RecentSopSidebarPanel :: "jstr option \<Rightarrow> recent \<Rightarrow> recent_section" where
  "RecentSopSidebarPanel activeCheckId r = \<lparr>rs_expanded = rc_recentOpen r,
     rs_body = (if rc_recentOpen r then Some (recent_view activeCheckId (r_state (rc_environments r)) (r_state (rc_history r))) else None)\<rparr>"

subsection \<open>The frame with its pages\<close>

record router =
  rr_visit :: "jstr \<Rightarrow> jstr \<times> jstr option"
  rr_match :: "jstr \<Rightarrow> app_route"

record workspace =
  ws_user :: CurrentUser
  ws_frame :: frame
  ws_sidebarContent :: "jstr option" \<comment> \<open>the node in the slot, by its text\<close>
  ws_pathname :: jstr
  ws_checkId :: "jstr option"
  ws_chat :: "chat option" \<comment> \<open>the chat page, while it is mounted\<close>
  ws_left :: "chat list" \<comment> \<open>unmounted chat pages with the requests they await\<close>
  ws_panel :: "recent option" \<comment> \<open>the panel of recent checks, while it is mounted\<close>

definition ws_screen :: "router \<Rightarrow> bool \<Rightarrow> workspace \<Rightarrow> screen" where
  "ws_screen rr dev w = AuthenticatedWorkspace dev (Auth_Authenticated (ws_user w)) (rr_match rr (ws_pathname w))"

definition ws_activeKey :: "workspace \<Rightarrow> WorkspaceRouteKey" where
  "ws_activeKey w = getWorkspaceRouteKey (ws_pathname w)"

definition setSidebarContent :: "jstr option \<Rightarrow> workspace \<Rightarrow> workspace" where
  \<comment> \<open>a node takes the place of the panel\<close>
  "setSidebarContent content w = w\<lparr>ws_sidebarContent := content,
     ws_panel := (if fr_sidebarOpen (ws_frame w) \<and> content = None
       then (case ws_panel w of None \<Rightarrow> Some (recent_mount (fr_recentRefreshKey (ws_frame w))) | Some r \<Rightarrow> Some r) else None)\<rparr>"

definition chat_layout_effect :: "workspace \<Rightarrow> workspace" where
  "chat_layout_effect w = setSidebarContent None (w\<lparr>ws_frame := registerNewConversationHandler True (ws_frame w)\<rparr>)"

definition chat_layout_cleanup :: "workspace \<Rightarrow> workspace" where
  "chat_layout_cleanup w = setSidebarContent None (w\<lparr>ws_frame := registerNewConversationHandler False (ws_frame w)\<rparr>)"

definition ws_outlet :: "router \<Rightarrow> workspace \<Rightarrow> workspace" where
  \<comment> \<open>the chat page is mounted, given the new location, or unmounted\<close>
  "ws_outlet rr w =
     (if ar_element (rr_match rr (ws_pathname w)) = Page ChatPage
      then (case ws_chat w of
              Some c \<Rightarrow> w\<lparr>ws_chat := Some (chat_route (ws_checkId w) c)\<rparr>
            | None \<Rightarrow> chat_layout_effect (w\<lparr>ws_chat := Some (chat_mount [] (ws_checkId w))\<rparr>))
      else (case ws_chat w of
              Some c \<Rightarrow> chat_layout_cleanup (w\<lparr>ws_chat := None, ws_left := c # ws_left w\<rparr>)
            | None \<Rightarrow> w))"

definition ws_arrive :: "router \<Rightarrow> jstr \<times> jstr option \<Rightarrow> workspace \<Rightarrow> workspace" where
  "ws_arrive rr loc w = ws_outlet rr (w\<lparr>ws_pathname := fst loc, ws_checkId := snd loc\<rparr>)"

definition ws_goto :: "router \<Rightarrow> jstr \<Rightarrow> workspace \<Rightarrow> workspace" where
  \<comment> \<open>a \<open>Navigate\<close> element sends the browser on\<close>
  "ws_goto rr path w =
     (let loc = rr_visit rr path; w' = ws_arrive rr loc w
      in case ar_element (rr_match rr (fst loc)) of Navigate q \<Rightarrow> ws_arrive rr (rr_visit rr q) w' | Page _ \<Rightarrow> w')"

definition ws_mount :: "router \<Rightarrow> CurrentUser \<Rightarrow> jstr \<Rightarrow> workspace" where
  "ws_mount rr u path = ws_goto rr path
     \<lparr>ws_user = u, ws_frame = frame_init, ws_sidebarContent = None, ws_pathname = [], ws_checkId = None, ws_chat = None,
      ws_left = [], ws_panel = Some (recent_mount (fr_recentRefreshKey frame_init))\<rparr>"

definition ws_toggle :: "workspace \<Rightarrow> workspace" where
  \<comment> \<open>the closed sidebar renders no children\<close>
  "ws_toggle w = setSidebarContent (ws_sidebarContent w) (w\<lparr>ws_frame := frame_toggle (ws_frame w)\<rparr>)"

definition ws_refresh :: "workspace \<Rightarrow> workspace" where
  "ws_refresh w = (let f = refreshRecentSopQualityChecks (ws_frame w)
     in w\<lparr>ws_frame := f, ws_panel := map_option (recent_refresh (fr_recentRefreshKey f)) (ws_panel w)\<rparr>)"

definition ws_nav :: "router \<Rightarrow> nav_effect \<Rightarrow> workspace \<Rightarrow> workspace" where
  "ws_nav rr e w = (case e of
     Nav_Nothing \<Rightarrow> w
   | Nav_To p \<Rightarrow> ws_goto rr p w
   | Nav_Handler \<Rightarrow> (case ws_chat w of
       None \<Rightarrow> w
     | Some c \<Rightarrow> (case handleNewConversation c of (p, c') \<Rightarrow> ws_goto rr p (w\<lparr>ws_chat := Some c'\<rparr>))))"

definition ws_routeClick :: "router \<Rightarrow> WorkspaceRouteKey \<Rightarrow> workspace \<Rightarrow> workspace" where
  "ws_routeClick rr k w = ws_nav rr (handleRouteClick (ws_activeKey w) (ws_frame w) k) w"

definition ws_after_start :: "router \<Rightarrow> jstr option \<Rightarrow> workspace \<Rightarrow> workspace" where
  \<comment> \<open>a successful start refreshes the recent checks and navigates\<close>
  "ws_after_start rr nav w = (case nav of None \<Rightarrow> w | Some p \<Rightarrow> ws_goto rr p (ws_refresh w))"

definition ws_settled :: "router \<Rightarrow> start_request \<Rightarrow> thrown + StartSopQualityCheckResult \<Rightarrow> workspace \<Rightarrow> workspace" where
  "ws_settled rr q out w = (case ws_chat w of
     None \<Rightarrow> w
   | Some c \<Rightarrow> (case chat_settled q out c of (nav, c') \<Rightarrow> ws_after_start rr nav (w\<lparr>ws_chat := Some c'\<rparr>)))"

definition ws_left_settled :: "router \<Rightarrow> nat \<Rightarrow> start_request \<Rightarrow> thrown + StartSopQualityCheckResult \<Rightarrow> workspace \<Rightarrow> workspace" where
  \<comment> \<open>the same continuation when the page is gone: its refs keep their values, its setters do nothing\<close>
  "ws_left_settled rr i q out w =
     (let c = ws_left w ! i; c' = c\<lparr>ch_inflight := filter (\<lambda>x. sr_id x \<noteq> sr_id q) (ch_inflight c)\<rparr>
      in ws_after_start rr (fst (chat_settled q out c)) (w\<lparr>ws_left := (ws_left w)[i := c']\<rparr>))"

record sidebar_view =
  sb_toggle_label :: jstr
  sb_title :: "jstr option"
  sb_top :: "user_switcher option"
  sb_entries :: "nav_entry list"
  sb_content :: "jstr option"
  sb_recent :: "recent_section option"

definition WorkspaceSidebar :: "bool \<Rightarrow> picker \<Rightarrow> workspace \<Rightarrow> sidebar_view" where
  "WorkspaceSidebar dev p w =
     (let sopen = fr_sidebarOpen (ws_frame w); s = Auth_Authenticated (ws_user w) in
      \<lparr>sb_toggle_label = (if sopen then [0x6536, 0x8D77, 0x4FA7, 0x8FB9, 0x680F] else [0x5C55, 0x5F00, 0x4FA7, 0x8FB9, 0x680F]),
       sb_title = (if sopen then Some [0x8D28, 0x91CF, 0x68C0, 0x67E5] else None),
       sb_top = (if sopen \<and> dev then DevUserSwitcher_view s p else None),
       sb_entries = map (SidebarNavButton sopen) (sidebar_buttons s (ws_pathname w)),
       sb_content = (if sopen then ws_sidebarContent w else None),
       sb_recent = (if sopen then map_option (RecentSopSidebarPanel (ws_checkId w)) (ws_panel w) else None)\<rparr>)"

subsection \<open>Steps\<close>

inductive recent_step :: "recent \<Rightarrow> recent \<Rightarrow> bool" where
  environments: "n \<in> set (r_pending (rc_environments r)) \<Longrightarrow> recent_step r (recent_environments_settled n out r)"
| history: "n \<in> set (r_pending (rc_history r)) \<Longrightarrow> recent_step r (recent_history_settled n res r)"
| toggle: "recent_step r (recent_toggle r)"

inductive chat_local :: "chat \<Rightarrow> chat \<Rightarrow> bool" where
  environments: "chat_local c (chat_env_effect envs c)"
| typing: "chat_local c (chat_type_sop v c)"
| submit: "chat_local c (chat_submit c)"
| environment: "chat_local c (handleEnvironmentChange e c)"

inductive ws_step :: "router \<Rightarrow> workspace \<Rightarrow> workspace \<Rightarrow> bool" for rr where
  toggle: "ws_step rr w (ws_toggle w)"
| click: "k \<in> nb_key ` set (sidebar_buttons (Auth_Authenticated (ws_user w)) (ws_pathname w)) \<Longrightarrow> ws_step rr w (ws_routeClick rr k w)"
| link: "ws_step rr w (ws_goto rr path w)"
| user: "ws_step rr w (w\<lparr>ws_user := u\<rparr>)"
| chat: "ws_chat w = Some c \<Longrightarrow> chat_local c d \<Longrightarrow> ws_step rr w (w\<lparr>ws_chat := Some d\<rparr>)"
| settled: "ws_chat w = Some c \<Longrightarrow> q \<in> set (ch_inflight c) \<Longrightarrow> ws_step rr w (ws_settled rr q out w)"
| left_settled: "i < length (ws_left w) \<Longrightarrow> q \<in> set (ch_inflight (ws_left w ! i)) \<Longrightarrow> ws_step rr w (ws_left_settled rr i q out w)"
| panel: "ws_panel w = Some r \<Longrightarrow> recent_step r r' \<Longrightarrow> ws_step rr w (w\<lparr>ws_panel := Some r'\<rparr>)"

inductive ws_reachable :: "router \<Rightarrow> workspace \<Rightarrow> bool" for rr where
  mount: "ws_reachable rr (ws_mount rr u path)"
| step: "ws_reachable rr w \<Longrightarrow> ws_step rr w w' \<Longrightarrow> ws_reachable rr w'"

inductive_cases ws_stepE: "ws_step rr w w'"
inductive_cases recent_stepE: "recent_step r r'"
inductive_cases chat_localE: "chat_local c d"

text \<open>What is relied on of the router: it selects one of the routes, the chat page for its own path
  and never for a path below another section's; a path leads to itself; and the parameter of a link
  with an identifier of letters, digits, hyphens and underscores is that identifier.\<close>

definition plain_id :: "jstr \<Rightarrow> bool" where
  "plain_id i \<longleftrightarrow> i \<noteq> [] \<and> list_all (\<lambda>c. c \<in> set (str ''ABCDEFGHIJKLMNOPQRSTUVWXYZabcdefghijklmnopqrstuvwxyz0123456789-_'')) i"

definition router_ok :: "router \<Rightarrow> bool" where
  "router_ok rr \<longleftrightarrow> (\<forall>p. rr_match rr p \<in> set app_routes)
     \<and> ar_element (rr_match rr (str ''/sop'')) = Page ChatPage
     \<and> (\<forall>k p. k \<noteq> Key_sop \<and> startsWith p (rt_path (workspaceRoutes k)) \<longrightarrow> ar_element (rr_match rr p) \<noteq> Page ChatPage)
     \<and> (\<forall>k. rr_visit rr (rt_path (workspaceRoutes k)) = (rt_path (workspaceRoutes k), None))
     \<and> (\<forall>i. plain_id i \<longrightarrow> rr_visit rr (str ''/sop?checkId='' @ i) = (str ''/sop'', Some i))"

subsection \<open>The panel\<close>

definition recent_ok :: "int \<Rightarrow> recent \<Rightarrow> bool" where
  "recent_ok refreshKey r \<longleftrightarrow> r_key (rc_history r) = (rc_selectedEnv r, refreshKey)
     \<and> async_reachable useSopEnvironments_effect [] (rc_environments r) \<and> mountedRef (rc_environments r)
     \<and> async_reachable useRecentSopQualityChecks_effect [] (rc_history r) \<and> mountedRef (rc_history r)
     \<and> default_env_effect (st_data (r_state (rc_environments r))) (rc_selectedEnv r) = rc_selectedEnv r"

lemma history_effect_frame:
  "r_key (useRecentSopQualityChecks_effect h) = r_key h" "mountedRef (useRecentSopQualityChecks_effect h) = mountedRef h"
  by (rule recent_checks.start_frame)+

lemma history_key_ok:
  assumes "async_reachable useRecentSopQualityChecks_effect [] (rc_history r)" "mountedRef (rc_history r)"
  shows "async_reachable useRecentSopQualityChecks_effect [] (rc_history (history_key k r)) \<and> mountedRef (rc_history (history_key k r))
    \<and> r_key (rc_history (history_key k r)) = k \<and> rc_selectedEnv (history_key k r) = rc_selectedEnv r
    \<and> rc_environments (history_key k r) = rc_environments r \<and> rc_recentOpen (history_key k r) = rc_recentOpen r"
  using assms by (auto simp: history_key_def history_effect_frame intro: async_reachable.rekey)

lemma default_env_idem: "default_env_effect envs (default_env_effect envs e) = default_env_effect envs e"
  by (cases envs) (simp_all add: default_env_effect_def)

lemma recent_mount_ok: "recent_ok k (recent_mount k)"
  by (simp add: recent_ok_def recent_mount_def history_effect_frame async_reachable.mount useSopEnvironments_mount_def
      sop_environments.start_frame)
    (simp add: resource_init_def useSopEnvironments_effect_def list_refetch_def send_request_def default_env_effect_def)

lemma response_frame: "mountedRef (async_response emp n out h) = mountedRef h" "r_key (async_response emp n out h) = r_key h"
  by (simp_all add: async_response_def Let_def)

lemma env_effect_ok:
  assumes "async_reachable useSopEnvironments_effect [] (rc_environments r)" "mountedRef (rc_environments r)"
    "async_reachable useRecentSopQualityChecks_effect [] (rc_history r)" "mountedRef (rc_history r)" "snd (r_key (rc_history r)) = k"
  shows "recent_ok k (recent_env_effect r)"
proof -
  let ?e = "default_env_effect (st_data (r_state (rc_environments r))) (rc_selectedEnv r)"
  have "async_reachable useRecentSopQualityChecks_effect [] (rc_history (r\<lparr>rc_selectedEnv := ?e\<rparr>))" "mountedRef (rc_history (r\<lparr>rc_selectedEnv := ?e\<rparr>))"
    using assms by simp_all
  from history_key_ok [OF this, of "(?e, k)"] show ?thesis
    using assms by (simp add: recent_env_effect_def Let_def recent_ok_def default_env_idem)
qed

lemma recent_step_ok:
  assumes "recent_step r r'" "recent_ok k r"
  shows "recent_ok k r'"
  using assms(1)
proof (cases rule: recent_step.cases)
  case (environments n out)
  then have "async_reachable useSopEnvironments_effect [] (useSopEnvironments_response n out (rc_environments r))"
    using assms(2) unfolding useSopEnvironments_response_def by (intro async_reachable.respond) (simp_all add: recent_ok_def)
  then show ?thesis unfolding environments recent_environments_settled_def
    using assms(2) by (intro env_effect_ok) (simp_all add: recent_ok_def useSopEnvironments_response_def response_frame)
next
  case (history n res)
  then show ?thesis using assms(2)
    by (simp add: recent_ok_def recent_history_settled_def useRecentSopQualityChecks_response_def response_frame async_reachable.respond)
next
  case toggle
  then show ?thesis using assms(2) by (simp add: recent_ok_def recent_toggle_def)
qed

lemma recent_refresh_ok: "recent_ok k r \<Longrightarrow> recent_ok k' (recent_refresh k' r)"
  using history_key_ok [of r "(rc_selectedEnv r, k')"] by (simp add: recent_ok_def recent_refresh_def)

lemma recent_ok_shown:
  assumes "recent_ok k r"
  shows "r_key (rc_history r) = (rc_selectedEnv r, k)" "async_shown_ok [] (rc_history r)" "async_shown_ok [] (rc_environments r)"
  using assms recent_checks.reachable_inv [of "rc_history r", THEN inv_shown_ok] sop_environments.reachable_inv [of "rc_environments r", THEN inv_shown_ok]
  by (simp_all add: recent_ok_def)

subsection \<open>The invariant of the workspace\<close>

definition chat_here :: "chat \<Rightarrow> bool" where
  \<comment> \<open>the application mounts the page without an initial SOP\<close>
  "chat_here c \<longleftrightarrow> chat_reachable c \<and> ch_initialSopId c = []"

lemma chat_step_initial: "chat_step c d \<Longrightarrow> ch_initialSopId d = ch_initialSopId c"
  by (elim chat_stepE) (auto simp: chat_env_effect_def chat_type_sop_def chat_submit_def handleSend_def handleEnvironmentChange_def
    handleNewConversation_def chat_route_def route_effect_def chat_settled_def Let_def
    split: option.split sum.split StartSopQualityCheckResult.split)

lemma chat_here_mount: "chat_here (chat_mount [] rt)"
  by (auto simp: chat_here_def chat_reachable.mount) (auto simp: chat_mount_def route_effect_def split: option.split)

lemma chat_here_step: "chat_here c \<Longrightarrow> chat_step c d \<Longrightarrow> chat_here d"
  by (auto simp: chat_here_def chat_step_initial intro: chat_reachable.step)

definition ws_base :: "workspace \<Rightarrow> bool" where
  "ws_base w \<longleftrightarrow> ws_sidebarContent w = None \<and> (fr_hasHandler (ws_frame w) \<longleftrightarrow> ws_chat w \<noteq> None)
     \<and> (ws_panel w \<noteq> None \<longleftrightarrow> fr_sidebarOpen (ws_frame w))
     \<and> pred_option (recent_ok (fr_recentRefreshKey (ws_frame w))) (ws_panel w) \<and> pred_option chat_here (ws_chat w)"

definition ws_located :: "router \<Rightarrow> workspace \<Rightarrow> bool" where
  "ws_located rr w \<longleftrightarrow> (ws_chat w \<noteq> None \<longleftrightarrow> ar_element (rr_match rr (ws_pathname w)) = Page ChatPage)
     \<and> pred_option (\<lambda>c. ch_route c = ws_checkId w) (ws_chat w) \<and> (\<forall>q. ar_element (rr_match rr (ws_pathname w)) \<noteq> Navigate q)"

lemma chat_route_route: "ch_route (chat_route rt c) = rt"
  by (auto simp: chat_route_def route_effect_def split: option.split)

lemma chat_mount_route: "ch_route (chat_mount s rt) = rt"
  by (auto simp: chat_mount_def route_effect_def split: option.split)

lemma set_content_base:
  "ws_base (setSidebarContent None w) \<longleftrightarrow> (fr_hasHandler (ws_frame w) \<longleftrightarrow> ws_chat w \<noteq> None) \<and> pred_option chat_here (ws_chat w)
     \<and> (fr_sidebarOpen (ws_frame w) \<longrightarrow> pred_option (recent_ok (fr_recentRefreshKey (ws_frame w))) (ws_panel w))"
  by (auto simp: ws_base_def setSidebarContent_def recent_mount_ok split: option.split)

lemma ws_baseD:
  assumes "ws_base w"
  shows "ws_sidebarContent w = None" "fr_hasHandler (ws_frame w) \<longleftrightarrow> ws_chat w \<noteq> None" "pred_option chat_here (ws_chat w)"
    "pred_option (recent_ok (fr_recentRefreshKey (ws_frame w))) (ws_panel w)" "ws_panel w \<noteq> None \<longleftrightarrow> fr_sidebarOpen (ws_frame w)"
  using assms by (simp_all add: ws_base_def)

lemma base_frame: "ws_base (w\<lparr>ws_pathname := p, ws_checkId := i\<rparr>) = ws_base w" "ws_base (w\<lparr>ws_user := u\<rparr>) = ws_base w"
  "ws_base (w\<lparr>ws_left := cs\<rparr>) = ws_base w" "ws_chat w = Some c \<Longrightarrow> ws_base w \<Longrightarrow> chat_here d \<Longrightarrow> ws_base (w\<lparr>ws_chat := Some d\<rparr>)"
  by (simp_all add: ws_base_def)

lemma arrive_base:
  assumes "ws_base w"
  shows "ws_base (ws_arrive rr loc w)"
proof (cases "ws_chat w")
  case None
  with ws_baseD [OF assms] assms show ?thesis
    by (simp add: ws_arrive_def ws_outlet_def chat_layout_effect_def registerNewConversationHandler_def chat_here_mount
        set_content_base base_frame)
next
  case (Some c)
  then have "chat_here (chat_route (snd loc) c)" using ws_baseD(3) [OF assms] by (auto intro: chat_here_step chat_step.route)
  with Some ws_baseD [OF assms] assms show ?thesis
    by (simp add: ws_arrive_def ws_outlet_def chat_layout_cleanup_def registerNewConversationHandler_def set_content_base base_frame)
qed

lemma set_content_frame:
  "ws_chat (setSidebarContent x w) = ws_chat w" "ws_pathname (setSidebarContent x w) = ws_pathname w"
  "ws_checkId (setSidebarContent x w) = ws_checkId w" "ws_user (setSidebarContent x w) = ws_user w" "ws_left (setSidebarContent x w) = ws_left w"
  "ws_frame (setSidebarContent x w) = ws_frame w"
  by (simp_all add: setSidebarContent_def)

lemma arrive_frame:
  "ws_pathname (ws_arrive rr loc w) = fst loc" "ws_checkId (ws_arrive rr loc w) = snd loc" "ws_user (ws_arrive rr loc w) = ws_user w"
  "fr_recentRefreshKey (ws_frame (ws_arrive rr loc w)) = fr_recentRefreshKey (ws_frame w)"
  "fr_sidebarOpen (ws_frame (ws_arrive rr loc w)) = fr_sidebarOpen (ws_frame w)"
  by (simp_all add: ws_arrive_def ws_outlet_def chat_layout_effect_def chat_layout_cleanup_def registerNewConversationHandler_def
      set_content_frame split: option.split)

lemma arrive_chat:
  "ws_chat (ws_arrive rr loc w) = (if ar_element (rr_match rr (fst loc)) = Page ChatPage
     then Some (case ws_chat w of Some c \<Rightarrow> chat_route (snd loc) c | None \<Rightarrow> chat_mount [] (snd loc)) else None)"
  by (simp add: ws_arrive_def ws_outlet_def chat_layout_effect_def chat_layout_cleanup_def set_content_frame split: option.split)

lemma arrive_located: "(\<And>q. ar_element (rr_match rr (fst loc)) \<noteq> Navigate q) \<Longrightarrow> ws_located rr (ws_arrive rr loc w)"
  by (simp add: ws_located_def arrive_frame arrive_chat chat_route_route chat_mount_route split: option.split)

lemma router_sop:
  assumes "router_ok rr"
  shows "rr_visit rr (str ''/sop'') = (str ''/sop'', None)" "ar_element (rr_match rr (str ''/sop'')) = Page ChatPage"
    "ar_element (rr_match rr p) = Navigate q \<Longrightarrow> q = str ''/sop''"
    "ar_element (rr_match rr p) = Page ChatPage \<Longrightarrow> getWorkspaceRouteKey p = Key_sop"
proof -
  have "rr_visit rr (rt_path (workspaceRoutes Key_sop)) = (rt_path (workspaceRoutes Key_sop), None)"
    using assms unfolding router_ok_def by blast
  then show "rr_visit rr (str ''/sop'') = (str ''/sop'', None)" by simp
  show "ar_element (rr_match rr (str ''/sop'')) = Page ChatPage" using assms unfolding router_ok_def by blast
  have "rr_match rr p \<in> set app_routes" using assms unfolding router_ok_def by blast
  then show "q = str ''/sop''" if "ar_element (rr_match rr p) = Navigate q"
    using that by (auto simp: app_routes_def open_route_def guarded_def)
  show "getWorkspaceRouteKey p = Key_sop" if "ar_element (rr_match rr p) = Page ChatPage"
    using assms that unfolding router_ok_def getWorkspaceRouteKey_def by (metis WorkspaceRouteKey.distinct(1,3,5))
qed

lemma goto_cases:
  assumes "router_ok rr"
  obtains loc w' where "ws_goto rr path w = ws_arrive rr loc w'" "w' = w \<or> w' = ws_arrive rr (rr_visit rr path) w"
    "\<And>q. ar_element (rr_match rr (fst loc)) \<noteq> Navigate q"
proof (cases "ar_element (rr_match rr (fst (rr_visit rr path)))")
  case (Page pg)
  then show ?thesis by (intro that [of "rr_visit rr path" w]) (simp_all add: ws_goto_def Let_def)
next
  case (Navigate q)
  then have q: "q = str ''/sop''" using router_sop(3) [OF assms] by blast
  show ?thesis
    by (rule that [of "rr_visit rr (str ''/sop'')" "ws_arrive rr (rr_visit rr path) w"])
      (simp_all add: ws_goto_def Navigate q router_sop(1,2) [OF assms])
qed

lemma goto_inv:
  assumes "router_ok rr" "ws_base w"
  shows "ws_base (ws_goto rr path w)" "ws_located rr (ws_goto rr path w)"
proof -
  obtain loc w' where g: "ws_goto rr path w = ws_arrive rr loc w'" "w' = w \<or> w' = ws_arrive rr (rr_visit rr path) w"
    and n: "\<And>q. ar_element (rr_match rr (fst loc)) \<noteq> Navigate q" using goto_cases [OF assms(1)] by metis
  show "ws_base (ws_goto rr path w)" using g assms(2) by (auto simp: arrive_base)
  show "ws_located rr (ws_goto rr path w)" unfolding g(1) using n by (rule arrive_located)
qed

lemma goto_to:
  assumes "router_ok rr" "rr_visit rr path = (p, i)" "ar_element (rr_match rr p) = Page pg"
  shows "ws_goto rr path w = ws_arrive rr (p, i) w"
  using assms by (simp add: ws_goto_def)

lemma refresh_base: "ws_base w \<Longrightarrow> ws_base (ws_refresh w)"
  using recent_refresh_ok by (fastforce simp: ws_base_def ws_refresh_def refreshRecentSopQualityChecks_def Let_def option.pred_map comp_def
    intro: option.pred_mono_strong)

lemma refresh_frame: "ws_pathname (ws_refresh w) = ws_pathname w" "ws_chat (ws_refresh w) = ws_chat w" "ws_checkId (ws_refresh w) = ws_checkId w"
  by (simp_all add: ws_refresh_def Let_def)

lemma located_frame: "ws_located rr (w\<lparr>ws_user := u\<rparr>) = ws_located rr w" "ws_located rr (w\<lparr>ws_left := cs\<rparr>) = ws_located rr w"
  "ws_located rr (w\<lparr>ws_panel := r\<rparr>) = ws_located rr w"
  "ws_chat w = Some c \<Longrightarrow> ws_located rr w \<Longrightarrow> ch_route d = ch_route c \<Longrightarrow> ws_located rr (w\<lparr>ws_chat := Some d\<rparr>)"
  by (simp_all add: ws_located_def)

lemma chat_local_step: "chat_local c d \<Longrightarrow> chat_step c d" "chat_local c d \<Longrightarrow> ch_route d = ch_route c"
  by (auto elim!: chat_localE intro: chat_step.intros)
    (auto simp: chat_env_effect_def chat_type_sop_def chat_submit_def handleSend_def handleEnvironmentChange_def Let_def)

lemma settled_route: "ch_route (snd (chat_settled q out c)) = ch_route c"
  by (auto simp: chat_settled_def Let_def split: sum.split StartSopQualityCheckResult.split)

lemma after_start_inv:
  assumes "router_ok rr" "ws_base w" "ws_located rr w"
  shows "ws_base (ws_after_start rr nav w) \<and> ws_located rr (ws_after_start rr nav w)"
  using assms goto_inv [OF assms(1) refresh_base [OF assms(2)]] by (simp add: ws_after_start_def split: option.split)

lemma nav_inv:
  assumes "router_ok rr" "ws_base w" "ws_located rr w"
  shows "ws_base (ws_nav rr e w) \<and> ws_located rr (ws_nav rr e w)"
proof (cases e)
  case Nav_Handler
  show ?thesis
  proof (cases "ws_chat w")
    case (Some c)
    then have "chat_here (snd (handleNewConversation c))"
      using ws_baseD(3) [OF assms(2)] by (auto intro: chat_here_step chat_step.conversation)
    then have "ws_base (w\<lparr>ws_chat := Some (snd (handleNewConversation c))\<rparr>)" using Some assms(2) base_frame(4) by blast
    from goto_inv [OF assms(1) this] show ?thesis by (simp add: ws_nav_def Nav_Handler Some split_def)
  qed (use assms in \<open>simp add: ws_nav_def Nav_Handler\<close>)
qed (use assms goto_inv in \<open>simp_all add: ws_nav_def\<close>)

lemma toggle_inv: "ws_base w \<Longrightarrow> ws_located rr w \<Longrightarrow> ws_base (ws_toggle w) \<and> ws_located rr (ws_toggle w)"
  using ws_baseD [of w]
  by (simp add: ws_toggle_def set_content_base frame_toggle_def) (simp add: ws_located_def set_content_frame)

lemma ws_step_inv:
  assumes "router_ok rr" "ws_step rr w w'" "ws_base w" "ws_located rr w"
  shows "ws_base w' \<and> ws_located rr w'"
  using assms(2)
proof (cases rule: ws_step.cases)
  case (chat c d)
  then have "chat_here d" "ch_route d = ch_route c"
    using chat_local_step [of c d] ws_baseD(3) [OF assms(3)] chat_here_step [of c d] by auto
  then show ?thesis using chat assms(3,4) by (simp add: base_frame(4) located_frame(4))
next
  case (settled c q out)
  let ?d = "snd (chat_settled q out c)"
  have "chat_here ?d"
    using settled ws_baseD(3) [OF assms(3)] by (auto intro: chat_here_step chat_step.settled)
  then have "ws_base (w\<lparr>ws_chat := Some ?d\<rparr>)" "ws_located rr (w\<lparr>ws_chat := Some ?d\<rparr>)"
    using settled assms(3,4) by (simp_all add: base_frame(4) located_frame(4) settled_route)
  from after_start_inv [OF assms(1) this] show ?thesis using settled by (simp add: ws_settled_def split_def)
next
  case (left_settled i q out)
  then show ?thesis using after_start_inv [OF assms(1)] assms(3,4)
    by (simp add: ws_left_settled_def Let_def base_frame located_frame)
next
  case (panel r r')
  then have "recent_ok (fr_recentRefreshKey (ws_frame w)) r'" using recent_step_ok ws_baseD(4) [OF assms(3)] by auto
  with panel assms(3,4) show ?thesis by (simp add: located_frame) (simp add: ws_base_def)
qed (use assms in \<open>auto simp: toggle_inv nav_inv goto_inv ws_routeClick_def base_frame located_frame\<close>)

lemma ws_reachable_inv: "ws_reachable rr w \<Longrightarrow> router_ok rr \<Longrightarrow> ws_base w \<and> ws_located rr w"
proof (induction rule: ws_reachable.induct)
  case (mount u path)
  let ?w = "\<lparr>ws_user = u, ws_frame = frame_init, ws_sidebarContent = None, ws_pathname = [], ws_checkId = None, ws_chat = None,
      ws_left = [], ws_panel = Some (recent_mount (fr_recentRefreshKey frame_init))\<rparr>"
  have "ws_base ?w" by (simp add: ws_base_def frame_init_def recent_mount_ok)
  from goto_inv [OF mount this] show ?case by (simp add: ws_mount_def)
qed (use ws_step_inv in blast)

subsection \<open>Properties\<close>

text \<open>C7. The workspace in every reachable state, under every interleaving of clicks, links, answers of
  requests and changes of user. The handler for a new conversation is registered exactly while the
  chat page is on the screen, which then has the check of the location as its route; a redirection
  is never on the screen, and a management page only for an administrator. The slot of the sidebar is
  never filled, so the panel of recent checks is there exactly while the sidebar is open; it asks for
  the environment it selected with the current refresh key, and its loading flags and errors are
  accurate.\<close>
theorem workspace_invariant:
  assumes "router_ok rr" "ws_reachable rr w"
  shows "(fr_hasHandler (ws_frame w) \<longleftrightarrow> ws_screen rr dev w = Screen_Element (Page ChatPage))
    \<and> map_option ch_route (ws_chat w) = (if ws_screen rr dev w = Screen_Element (Page ChatPage) then Some (ws_checkId w) else None)
    \<and> ws_screen rr dev w \<noteq> Screen_Element (Navigate q)
    \<and> (ws_screen rr dev w = Screen_Element (Page pg) \<longrightarrow> pg = ChatPage \<or> cu_is_admin (ws_user w))
    \<and> sb_content (WorkspaceSidebar dev p w) = None
    \<and> (sb_recent (WorkspaceSidebar dev p w) \<noteq> None \<longleftrightarrow> fr_sidebarOpen (ws_frame w))
    \<and> (case ws_panel w of None \<Rightarrow> True | Some r \<Rightarrow> r_key (rc_history r) = (rc_selectedEnv r, fr_recentRefreshKey (ws_frame w))
         \<and> async_shown_ok [] (rc_history r) \<and> async_shown_ok [] (rc_environments r))"
proof -
  have base: "ws_base w" and loc: "ws_located rr w" using ws_reachable_inv [OF assms(2,1)] by auto
  have r: "rr_match rr (ws_pathname w) \<in> set app_routes" using assms(1) unfolding router_ok_def by blast
  have chat: "ws_screen rr dev w = Screen_Element (Page ChatPage) \<longleftrightarrow> ar_element (rr_match rr (ws_pathname w)) = Page ChatPage"
    using app_route_cases [OF r] by (auto simp: ws_screen_def AuthenticatedWorkspace_def ProtectedRoute_def split: if_splits)
  have shown: "ws_screen rr dev w = Screen_Element e \<Longrightarrow> e = ar_element (rr_match rr (ws_pathname w)) \<and> (cu_is_admin (ws_user w) \<or> ar_guard (rr_match rr (ws_pathname w)) = None)" for e
    using app_route_cases [OF r]
    by (auto simp: ws_screen_def AuthenticatedWorkspace_def ProtectedRoute_def guard_needs_admin useAuthz_admin split: if_splits)
  show ?thesis
  proof (intro conjI)
    show "map_option ch_route (ws_chat w) = (if ws_screen rr dev w = Screen_Element (Page ChatPage) then Some (ws_checkId w) else None)"
      using loc unfolding chat by (cases "ws_chat w") (simp_all add: ws_located_def)
    show "ws_screen rr dev w = Screen_Element (Page pg) \<longrightarrow> pg = ChatPage \<or> cu_is_admin (ws_user w)"
      using shown [of "Page pg"] app_route_cases [OF r] by auto
    show "ws_screen rr dev w \<noteq> Screen_Element (Navigate q)" using shown [of "Navigate q"] loc by (metis ws_located_def)
    show "case ws_panel w of None \<Rightarrow> True | Some r \<Rightarrow> r_key (rc_history r) = (rc_selectedEnv r, fr_recentRefreshKey (ws_frame w))
         \<and> async_shown_ok [] (rc_history r) \<and> async_shown_ok [] (rc_environments r)"
      using ws_baseD(4) [OF base]
      by (auto simp: recent_ok_shown split: option.split)
  qed (use ws_baseD [OF base] loc in \<open>auto simp: chat ws_located_def WorkspaceSidebar_def Let_def\<close>)
qed

definition demo_router :: router where
  "demo_router = \<lparr>rr_visit = (\<lambda>p. if startsWith p (str ''/sop?checkId='') then (str ''/sop'', Some (drop 13 p)) else (p, None)),
     rr_match = (\<lambda>p. if p = str ''/sop'' then open_route (Some [Lit ''sop'']) (Page ChatPage)
       else if p = str ''/mcp'' then guarded Key_mcp [Lit ''mcp''] McpListPage
       else open_route None (Navigate (str ''/sop'')))\<rparr>"

lemma demo_router_ok: "router_ok demo_router"
proof -
  have "rr_visit demo_router (rt_path (workspaceRoutes k)) = (rt_path (workspaceRoutes k), None)" for k
    by (cases k; simp add: demo_router_def startsWith_def str_def)
  moreover have "rr_match demo_router p \<in> set app_routes" for p
    by (simp add: demo_router_def app_routes_def)
  moreover have "\<not> startsWith (str ''/sop'') (rt_path (workspaceRoutes k))" if "k \<noteq> Key_sop" for k
    using that by (cases k; simp; code_simp)
  then have "ar_element (rr_match demo_router p) \<noteq> Page ChatPage" if "k \<noteq> Key_sop" "startsWith p (rt_path (workspaceRoutes k))" for k p
    using that by (auto simp: demo_router_def open_route_def guarded_def)
  moreover have "rr_visit demo_router (str ''/sop?checkId='' @ i) = (str ''/sop'', Some i)" for i
    by (simp add: demo_router_def startsWith_def str_def)
  moreover have "ar_element (rr_match demo_router (str ''/sop'')) = Page ChatPage" by (simp add: demo_router_def open_route_def)
  ultimately show ?thesis unfolding router_ok_def by blast
qed

definition demo_user :: CurrentUser where
  "demo_user = \<lparr>cu_id = [], cu_account = str ''admin'', cu_is_admin = True, cu_meta = JNull\<rparr>"

definition demo_workspace :: workspace where
  \<comment> \<open>the user opens the chat page and goes to the MCP servers\<close>
  "demo_workspace = ws_routeClick demo_router Key_mcp (ws_mount demo_router demo_user (str ''/sop''))"

lemma demo_workspace_reachable: "ws_reachable demo_router demo_workspace"
  unfolding demo_workspace_def by (rule ws_reachable.step [OF ws_reachable.mount], rule ws_step.click) code_simp

theorem workspace_invariant_witness:
  "\<not> fr_hasHandler (ws_frame demo_workspace) \<and> ws_chat demo_workspace = None \<and> length (ws_left demo_workspace) = 1"
proof -
  have "length (ws_left demo_workspace) = 1" "ws_screen demo_router False demo_workspace \<noteq> Screen_Element (Page ChatPage)" by code_simp+
  then show ?thesis using workspace_invariant [OF demo_router_ok demo_workspace_reachable, of False] by simp
qed

lemma new_conversation_goto:
  assumes "router_ok rr" "ws_base w" "ws_located rr w"
  shows "ws_routeClick rr Key_sop w = ws_arrive rr (str ''/sop'', None)
    (w\<lparr>ws_chat := map_option (\<lambda>c. snd (handleNewConversation c)) (ws_chat w)\<rparr>)"
proof -
  note goto = goto_to [OF assms(1) router_sop(1) [OF assms(1)] router_sop(2) [OF assms(1)]]
  have sop: "rt_path (workspaceRoutes Key_sop) = str ''/sop''" by simp
  show ?thesis
  proof (cases "ws_chat w")
    case None
    have w: "w\<lparr>ws_chat := None\<rparr> = w" using None by (cases w) simp
    have "\<not> fr_hasHandler (ws_frame w)" using None ws_baseD(2) [OF assms(2)] by simp
    then have "handleRouteClick (ws_activeKey w) (ws_frame w) Key_sop = Nav_To (str ''/sop'')"
      by (simp add: handleRouteClick_def sidebar_handleNewConversation_def frame_handleNewConversation_def frame_handleNavigate_def)
    then show ?thesis by (simp add: None w ws_routeClick_def ws_nav_def goto)
  next
    case (Some c)
    then have "ws_activeKey w = Key_sop" using assms(3) router_sop(4) [OF assms(1)] by (simp add: ws_located_def ws_activeKey_def)
    moreover have "fr_hasHandler (ws_frame w)" using Some ws_baseD(2) [OF assms(2)] by simp
    ultimately show ?thesis using Some
      by (simp add: ws_routeClick_def ws_nav_def handleRouteClick_def sidebar_handleNewConversation_def frame_handleNewConversation_def
          split_def goto) (simp add: handleNewConversation_def goto)
  qed
qed

lemma superseded_settle: "sr_id q \<noteq> ch_startRequestRef c \<Longrightarrow>
    chat_settled q out c = (None, c\<lparr>ch_inflight := filter (\<lambda>x. sr_id x \<noteq> sr_id q) (ch_inflight c)\<rparr>)"
  by (auto simp: chat_settled_def Let_def split: sum.split)

lemma sop_screen: "router_ok rr \<Longrightarrow> ws_pathname w = str ''/sop'' \<Longrightarrow> ws_screen rr dev w = Screen_Element (Page ChatPage)"
  using app_route_cases [of "rr_match rr (str ''/sop'')"]
  by (auto simp: ws_screen_def AuthenticatedWorkspace_def ProtectedRoute_def router_ok_def split: if_splits)

text \<open>C20. The first button of the sidebar starts a new conversation from wherever the user is: it leads
  to the chat page with no check shown, empty fields, no message and no start in progress, and no
  request that this page still awaits can change that.\<close>
theorem new_conversation_starts_afresh:
  assumes "router_ok rr" "ws_reachable rr w"
  shows "ws_pathname (ws_routeClick rr Key_sop w) = str ''/sop'' \<and> ws_checkId (ws_routeClick rr Key_sop w) = None
    \<and> ws_screen rr dev (ws_routeClick rr Key_sop w) = Screen_Element (Page ChatPage)
    \<and> (\<exists>c. ws_chat (ws_routeClick rr Key_sop w) = Some c \<and> ch_observed c = None \<and> ch_sopId c = [] \<and> ch_pendingSopId c = []
        \<and> ch_startError c = None \<and> ch_startMessage c = None \<and> \<not> ch_starting c
        \<and> list_all (\<lambda>q. ws_settled rr q out (ws_routeClick rr Key_sop w) = (ws_routeClick rr Key_sop w)
             \<lparr>ws_chat := Some (c\<lparr>ch_inflight := filter (\<lambda>x. sr_id x \<noteq> sr_id q) (ch_inflight c)\<rparr>)\<rparr>) (ch_inflight c))"
proof -
  have base: "ws_base w" and loc: "ws_located rr w" using ws_reachable_inv [OF assms(2,1)] by auto
  let ?w = "ws_routeClick rr Key_sop w"
  note w = new_conversation_goto [OF assms(1) base loc]
  obtain c where c: "ws_chat ?w = Some c" "chat_here c" "ch_observed c = None" "ch_sopId c = []" "ch_pendingSopId c = []" "ch_startError c = None"
    "ch_startMessage c = None" "\<not> ch_starting c"
  proof (cases "ws_chat w")
    case None
    then show ?thesis using chat_here_mount
      by (intro that [of "chat_mount [] None"]) (simp_all add: w arrive_chat router_sop [OF assms(1)], simp_all add: chat_mount_def route_effect_def)
  next
    case (Some d)
    then have "chat_here d" using ws_baseD(3) [OF base] by simp
    then have d: "chat_here (snd (handleNewConversation d))" "ch_initialSopId d = []"
      by (rule chat_here_step [OF _ chat_step.conversation]) (use \<open>chat_here d\<close> in \<open>simp add: chat_here_def\<close>)
    have "chat_here (chat_route None (snd (handleNewConversation d)))" using d(1) by (rule chat_here_step [OF _ chat_step.route])
    then show ?thesis using Some d(2)
      by (intro that [of "chat_route None (snd (handleNewConversation d))"])
        (simp_all add: w arrive_chat router_sop [OF assms(1)], simp_all add: handleNewConversation_def chat_route_def route_effect_def)
  qed
  have path: "ws_pathname ?w = str ''/sop''" "ws_checkId ?w = None" unfolding w by (simp_all add: arrive_frame)
  have "sr_id q \<noteq> ch_startRequestRef c" if "q \<in> set (ch_inflight c)" for q
    using that c(2,8) chat_reachable_inv [of c] by (force simp: chat_here_def chat_inv_def)
  then have "list_all (\<lambda>q. ws_settled rr q out ?w = ?w\<lparr>ws_chat := Some (c\<lparr>ch_inflight := filter (\<lambda>x. sr_id x \<noteq> sr_id q) (ch_inflight c)\<rparr>)\<rparr>) (ch_inflight c)"
    using c(1) by (simp add: list_all_iff ws_settled_def superseded_settle ws_after_start_def)
  with c path sop_screen [OF assms(1) path(1)] show ?thesis by blast
qed

theorem new_conversation_starts_afresh_witness:
  "ws_screen demo_router False demo_workspace = Screen_Element (Page McpListPage)
   \<and> ws_screen demo_router False (ws_routeClick demo_router Key_sop demo_workspace) = Screen_Element (Page ChatPage)"
proof -
  have "ws_screen demo_router False demo_workspace = Screen_Element (Page McpListPage)" by code_simp
  with new_conversation_starts_afresh [OF demo_router_ok demo_workspace_reachable] show ?thesis by blast
qed

lemma accepted_settle:
  assumes "sr_id q = ch_startRequestRef c" "ch_observed c = sr_observedAtStart q"
  shows "fst (chat_settled q (Inr res) c) = Some (str ''/sop?checkId='' @ started_check res)"
    "ch_observed (snd (chat_settled q (Inr res) c)) = Some (started_check res)" "\<not> ch_starting (snd (chat_settled q (Inr res) c))"
  using assms by (simp_all add: chat_settled_def Let_def split: StartSopQualityCheckResult.split)

lemma goto_check:
  assumes "router_ok rr" "plain_id i"
  shows "ws_goto rr (str ''/sop?checkId='' @ i) w = ws_arrive rr (str ''/sop'', Some i) w"
proof (rule goto_to [OF assms(1) _ router_sop(2) [OF assms(1)]])
  show "rr_visit rr (str ''/sop?checkId='' @ i) = (str ''/sop'', Some i)" using assms unfolding router_ok_def by blast
qed

lemma chat_route_observed:
  assumes "ch_observed c = Some i" "i \<noteq> []" "\<not> ch_starting c"
  shows "ch_observed (chat_route (Some i) c) = Some i \<and> \<not> ch_starting (chat_route (Some i) c)"
  using assms by (simp add: chat_route_def route_effect_def)

lemma refreshed_history:
  assumes "recent_ok k r"
  shows "rc_history (recent_refresh (k + 1) r) = useRecentSopQualityChecks_effect ((rc_history r)\<lparr>r_key := (rc_selectedEnv r, k + 1)\<rparr>)"
  using assms by (simp add: recent_refresh_def history_key_def recent_ok_def)


definition demo_pending :: workspace where
  \<comment> \<open>on the chat page, with a start request sent\<close>
  "demo_pending = (let w = ws_mount demo_router demo_user (str ''/sop'') in
     w\<lparr>ws_chat := map_option (\<lambda>c. chat_submit (chat_type_sop (str ''s1'') (handleEnvironmentChange (str ''prod'') c))) (ws_chat w)\<rparr>)"

definition demo_start :: start_request where
  "demo_start = \<lparr>sr_id = 2, sr_sopId = str ''s1'', sr_env = str ''prod'', sr_observedAtStart = None\<rparr>"

lemma demo_pending_reachable: "ws_reachable demo_router demo_pending"
proof -
  let ?w = "ws_mount demo_router demo_user (str ''/sop'')"
  have "ws_chat ?w \<noteq> None" by code_simp
  then obtain c where c: "ws_chat ?w = Some c" by blast
  let ?c1 = "handleEnvironmentChange (str ''prod'') c"
  let ?c2 = "chat_type_sop (str ''s1'') ?c1"
  have "ws_reachable demo_router (?w\<lparr>ws_chat := Some ?c1\<rparr>)"
    using c by (rule ws_reachable.step [OF ws_reachable.mount ws_step.chat]) (rule chat_local.environment)
  then have "ws_reachable demo_router (?w\<lparr>ws_chat := Some ?c1, ws_chat := Some ?c2\<rparr>)"
    by (rule ws_reachable.step) (rule ws_step.chat, simp, rule chat_local.typing)
  then have "ws_reachable demo_router (?w\<lparr>ws_chat := Some ?c1, ws_chat := Some ?c2, ws_chat := Some (chat_submit ?c2)\<rparr>)"
    by (rule ws_reachable.step) (rule ws_step.chat, simp, rule chat_local.submit)
  then show ?thesis by (simp add: demo_pending_def Let_def c)
qed


text \<open>The answer to a start request is not tied to the page that sent it: a user who has left the chat
  page since is taken back to it.\<close>
lemma left_start_pulls_back:
  assumes "router_ok rr" "i < length (ws_left w)" "sr_id q = ch_startRequestRef (ws_left w ! i)"
    and "ch_observed (ws_left w ! i) = sr_observedAtStart q" "plain_id (started_check res)"
  shows "ws_pathname (ws_left_settled rr i q (Inr res) w) = str ''/sop''
    \<and> ws_checkId (ws_left_settled rr i q (Inr res) w) = Some (started_check res)"
  using accepted_settle(1) [OF assms(3,4), of res]
  by (simp add: ws_left_settled_def Let_def ws_after_start_def goto_check [OF assms(1,5)] arrive_frame)

text \<open>A location without a check does not end the check that is shown: going back from
  \<open>/sop?checkId=i\<close> to \<open>/sop\<close> leaves the page showing \<open>i\<close>.\<close>
lemma back_keeps_check:
  assumes "router_ok rr" "ws_chat w = Some c" "ch_observed c = Some i"
  shows "ws_checkId (ws_goto rr (str ''/sop'') w) = None \<and> map_option ch_observed (ws_chat (ws_goto rr (str ''/sop'') w)) = Some (Some i)"
  using assms(2,3) router_sop [OF assms(1)]
  by (simp add: goto_to [OF assms(1) router_sop(1) [OF assms(1)] router_sop(2) [OF assms(1)]] arrive_frame arrive_chat)
    (simp add: chat_route_def route_effect_def)

lemma left_start_example:
  "ws_screen demo_router False (ws_routeClick demo_router Key_mcp demo_pending) = Screen_Element (Page McpListPage)
   \<and> ws_screen demo_router False (ws_left_settled demo_router 0 demo_start (Inr (Started_Created (str ''c1'')))
        (ws_routeClick demo_router Key_mcp demo_pending)) = Screen_Element (Page ChatPage)"
  by code_simp

end
