(* ===== verification/Mutations.thy ===== *)
theory Mutations
  imports Api
begin

text \<open>
  The mutation hooks \<open>useMcpMutations\<close>, \<open>useAgentMutations\<close> and \<open>useLlmProviderMutations\<close>. One call
  of \<open>runMutation\<close> is a run with an identity and the stage it awaits: the request, or one of the
  success callbacks. An operation starts a run or continues it with the outcome of the promise it
  awaits, so any interleaving of several runs is a sequence of operations. What the promise
  returned to the caller settles with is kept in \<open>mut_results\<close>. The contract that a hook counts its
  runs in flight is the locale \<open>mutation_hook\<close>.
\<close>

subsection \<open>State\<close>

datatype 'r stage =
    Awaiting_Action
  | Awaiting_Hook_Callback 'r \<comment> \<open>\<open>onSuccess\<close> of the hook's options\<close>
  | Awaiting_Callback 'r "js_error option" \<comment> \<open>\<open>onSuccess\<close> of the call's options, and \<open>callbackError\<close>\<close>

datatype 'r settled = Action_Settled "thrown + 'r" | Callback_Settled "thrown + unit"

record 'r run =
  run_id :: nat
  run_hook_cb :: bool \<comment> \<open>the hook was given an \<open>onSuccess\<close>\<close>
  run_cb :: bool \<comment> \<open>the call was given an \<open>onSuccess\<close>\<close>
  run_stage :: "'r stage"

record 'r mutations =
  pendingCount :: int
  mut_error :: "js_error option"
  mut_mounted :: bool
  mut_next :: nat \<comment> \<open>the identity of the next run\<close>
  mut_runs :: "'r run list" \<comment> \<open>in flight\<close>
  mut_results :: "(nat \<times> (js_error + 'r)) list" \<comment> \<open>what the calls' promises settled with\<close>

definition mutations_init :: "'r mutations" where
  "mutations_init = \<lparr>pendingCount = 0, mut_error = None, mut_mounted = True, mut_next = 0, mut_runs = [], mut_results = []\<rparr>"

definition mut_pending :: "'r mutations \<Rightarrow> bool" where
  "mut_pending h \<longleftrightarrow> pendingCount h > 0"

definition mut_unmount :: "'r mutations \<Rightarrow> 'r mutations" where
  "mut_unmount h = h\<lparr>mut_mounted := False\<rparr>"

definition find_run :: "nat \<Rightarrow> 'r mutations \<Rightarrow> 'r run option" where
  "find_run i h = find (\<lambda>r. run_id r = i) (mut_runs h)"

definition add_run :: "bool \<Rightarrow> bool \<Rightarrow> 'r mutations \<Rightarrow> 'r mutations" where
  "add_run hook_cb cb h = h\<lparr>mut_next := Suc (mut_next h),
     mut_runs := mut_runs h @ [\<lparr>run_id = mut_next h, run_hook_cb = hook_cb, run_cb = cb, run_stage = Awaiting_Action\<rparr>]\<rparr>"

definition to_stage :: "nat \<Rightarrow> 'r stage \<Rightarrow> 'r mutations \<Rightarrow> 'r mutations" where
  "to_stage i s h = h\<lparr>mut_runs := map (\<lambda>r. if run_id r = i then r\<lparr>run_stage := s\<rparr> else r) (mut_runs h)\<rparr>"

definition end_run :: "nat \<Rightarrow> js_error + 'r \<Rightarrow> 'r mutations \<Rightarrow> 'r mutations" where
  "end_run i res h = h\<lparr>mut_runs := filter (\<lambda>r. run_id r \<noteq> i) (mut_runs h), mut_results := mut_results h @ [(i, res)]\<rparr>"

definition dec_pending :: "'r mutations \<Rightarrow> 'r mutations" where
  "dec_pending h = h\<lparr>pendingCount := max 0 (pendingCount h - 1)\<rparr>"

subsection \<open>\<open>useMcpMutations\<close>\<close>

text \<open>A failing callback does not fail the mutation: its error is shown, the first of the two
  callbacks' errors if both fail, and the call returns the result.\<close>

definition mcp_run :: "bool \<Rightarrow> bool \<Rightarrow> 'r mutations \<Rightarrow> 'r mutations" where
  "mcp_run hook_cb cb h = add_run hook_cb cb (h\<lparr>pendingCount := pendingCount h + 1, mut_error := None\<rparr>)"

definition mcp_finish :: "nat \<Rightarrow> 'r \<Rightarrow> js_error option \<Rightarrow> 'r mutations \<Rightarrow> 'r mutations" where
  "mcp_finish i result callbackError h =
     dec_pending (end_run i (Inr result)
       (case callbackError of None \<Rightarrow> h | Some e \<Rightarrow> h\<lparr>mut_error := Some e\<rparr>))"

definition mcp_fail :: "nat \<Rightarrow> thrown \<Rightarrow> 'r mutations \<Rightarrow> 'r mutations" where
  "mcp_fail i mutationError h =
     (let nextError = asError mutationError
      in dec_pending (end_run i (Inl nextError) (h\<lparr>mut_error := Some nextError\<rparr>)))"

definition mcp_after_hook_callback :: "'r run \<Rightarrow> 'r \<Rightarrow> js_error option \<Rightarrow> 'r mutations \<Rightarrow> 'r mutations" where
  "mcp_after_hook_callback r result callbackError h =
     (if run_cb r then to_stage (run_id r) (Awaiting_Callback result callbackError) h
      else mcp_finish (run_id r) result callbackError h)"

definition callback_error :: "js_error option \<Rightarrow> thrown + unit \<Rightarrow> js_error option" where
  "callback_error callbackError out = (case out of
     Inr _ \<Rightarrow> callbackError
   | Inl e \<Rightarrow> (case callbackError of None \<Rightarrow> Some (asError e) | Some _ \<Rightarrow> callbackError))"

definition mcp_continue :: "nat \<Rightarrow> 'r settled \<Rightarrow> 'r mutations \<Rightarrow> 'r mutations" where
  "mcp_continue i out h = (case find_run i h of None \<Rightarrow> h | Some r \<Rightarrow>
     (case (run_stage r, out) of
        (Awaiting_Action, Action_Settled (Inl e)) \<Rightarrow> mcp_fail i e h
      | (Awaiting_Action, Action_Settled (Inr result)) \<Rightarrow>
          if run_hook_cb r then to_stage i (Awaiting_Hook_Callback result) h
          else mcp_after_hook_callback r result None h
      | (Awaiting_Hook_Callback result, Callback_Settled c) \<Rightarrow>
          mcp_after_hook_callback r result (callback_error None c) h
      | (Awaiting_Callback result callbackError, Callback_Settled c) \<Rightarrow>
          mcp_finish i result (callback_error callbackError c) h
      | _ \<Rightarrow> h))"

subsection \<open>\<open>useAgentMutations\<close>\<close>

text \<open>The callback is awaited inside the \<open>try\<close>, so its failure fails the mutation; an unmounted
  component's state is left alone.\<close>

definition agent_run :: "bool \<Rightarrow> 'r mutations \<Rightarrow> 'r mutations" where
  "agent_run cb h = add_run False cb
     (if mut_mounted h then h\<lparr>pendingCount := pendingCount h + 1, mut_error := None\<rparr> else h)"

definition agent_finish :: "nat \<Rightarrow> js_error + 'r \<Rightarrow> 'r mutations \<Rightarrow> 'r mutations" where
  "agent_finish i res h =
     (if \<not> mut_mounted h then end_run i res h
      else dec_pending (end_run i res (case res of Inl e \<Rightarrow> h\<lparr>mut_error := Some e\<rparr> | Inr _ \<Rightarrow> h)))"

definition agent_continue :: "nat \<Rightarrow> 'r settled \<Rightarrow> 'r mutations \<Rightarrow> 'r mutations" where
  "agent_continue i out h = (case find_run i h of None \<Rightarrow> h | Some r \<Rightarrow>
     (case (run_stage r, out) of
        (Awaiting_Action, Action_Settled (Inl e)) \<Rightarrow> agent_finish i (Inl (asError e)) h
      | (Awaiting_Action, Action_Settled (Inr result)) \<Rightarrow>
          if run_cb r then to_stage i (Awaiting_Callback result None) h else agent_finish i (Inr result) h
      | (Awaiting_Callback result _, Callback_Settled c) \<Rightarrow>
          agent_finish i (case c of Inl e \<Rightarrow> Inl (asError e) | Inr _ \<Rightarrow> Inr result) h
      | _ \<Rightarrow> h))"

subsection \<open>\<open>useLlmProviderMutations\<close>\<close>

definition llm_run :: "bool \<Rightarrow> 'r mutations \<Rightarrow> 'r mutations" where
  "llm_run cb h = add_run False cb (h\<lparr>pendingCount := pendingCount h + 1, mut_error := None\<rparr>)"

definition llm_finish :: "nat \<Rightarrow> js_error + 'r \<Rightarrow> 'r mutations \<Rightarrow> 'r mutations" where
  "llm_finish i res h =
     dec_pending (end_run i res (case res of Inl e \<Rightarrow> h\<lparr>mut_error := Some e\<rparr> | Inr _ \<Rightarrow> h))"

definition llm_continue :: "nat \<Rightarrow> 'r settled \<Rightarrow> 'r mutations \<Rightarrow> 'r mutations" where
  "llm_continue i out h = (case find_run i h of None \<Rightarrow> h | Some r \<Rightarrow>
     (case (run_stage r, out) of
        (Awaiting_Action, Action_Settled (Inl e)) \<Rightarrow> llm_finish i (Inl (asError e)) h
      | (Awaiting_Action, Action_Settled (Inr result)) \<Rightarrow>
          if run_cb r then to_stage i (Awaiting_Callback result None) h else llm_finish i (Inr result) h
      | (Awaiting_Callback result _, Callback_Settled c) \<Rightarrow>
          llm_finish i (case c of Inl e \<Rightarrow> Inl (asError e) | Inr _ \<Rightarrow> Inr result) h
      | _ \<Rightarrow> h))"

subsection \<open>The requests of the mutations\<close>

datatype mcp_mutation =
    Mcp_createServer McpServerCreate | Mcp_updateServer jstr McpServerUpdate | Mcp_deleteServer jstr
  | Mcp_startServer jstr | Mcp_stopServer jstr | Mcp_restartServer jstr | Mcp_checkServer jstr

fun mcp_mutation_request :: "mcp_mutation \<Rightarrow> js_exn + Request" where
  "mcp_mutation_request (Mcp_createServer payload) = Inr (createMcpServer payload)"
| "mcp_mutation_request (Mcp_updateServer serverId payload) = updateMcpServer serverId payload"
| "mcp_mutation_request (Mcp_deleteServer serverId) = deleteMcpServer serverId"
| "mcp_mutation_request (Mcp_startServer serverId) = startMcpServer serverId"
| "mcp_mutation_request (Mcp_stopServer serverId) = stopMcpServer serverId"
| "mcp_mutation_request (Mcp_restartServer serverId) = restartMcpServer serverId"
| "mcp_mutation_request (Mcp_checkServer serverId) = checkMcpServer serverId"

datatype agent_mutation = Agent_createAgent AgentCreate | Agent_updateAgentDraft jstr AgentDraftUpdate

fun agent_mutation_request :: "agent_mutation \<Rightarrow> js_exn + Request" where
  "agent_mutation_request (Agent_createAgent payload) = Inr (createAgent payload)"
| "agent_mutation_request (Agent_updateAgentDraft agentId payload) = updateAgentDraft agentId payload"

datatype llm_mutation =
    Llm_createProvider LlmProviderCreate | Llm_deleteProvider jstr
  | Llm_testProviderModel jstr jstr | Llm_updateProvider jstr LlmProviderUpdate

fun llm_mutation_request :: "llm_mutation \<Rightarrow> js_exn + Request" where
  "llm_mutation_request (Llm_createProvider payload) = Inr (createLlmProvider payload)"
| "llm_mutation_request (Llm_deleteProvider providerId) = deleteLlmProvider providerId"
| "llm_mutation_request (Llm_testProviderModel providerId model) = testLlmProviderModel providerId model"
| "llm_mutation_request (Llm_updateProvider providerId payload) = updateLlmProvider providerId payload"

subsection \<open>The contract\<close>

inductive mutations_reachable ::
  "('o \<Rightarrow> 'r mutations \<Rightarrow> 'r mutations) \<Rightarrow> (nat \<Rightarrow> 'r settled \<Rightarrow> 'r mutations \<Rightarrow> 'r mutations) \<Rightarrow> 'r mutations \<Rightarrow> bool"
  for run :: "'o \<Rightarrow> 'r mutations \<Rightarrow> 'r mutations" and cont :: "nat \<Rightarrow> 'r settled \<Rightarrow> 'r mutations \<Rightarrow> 'r mutations" where
  init: "mutations_reachable run cont mutations_init"
| start: "mutations_reachable run cont h \<Longrightarrow> mutations_reachable run cont (run opts h)"
| settle: "mutations_reachable run cont h \<Longrightarrow> mutations_reachable run cont (cont i out h)"
| unmount: "mutations_reachable run cont h \<Longrightarrow> mutations_reachable run cont (mut_unmount h)"

definition mut_ids :: "'r mutations \<Rightarrow> nat list" where
  "mut_ids h = map run_id (mut_runs h)"

definition mut_inv :: "'r mutations \<Rightarrow> bool" where
  "mut_inv h \<longleftrightarrow> distinct (mut_ids h @ map fst (mut_results h))
     \<and> set (mut_ids h @ map fst (mut_results h)) = {..<mut_next h}
     \<and> (mut_mounted h \<longrightarrow> pendingCount h = int (length (mut_runs h)))"

definition mut_frame :: "'r mutations \<Rightarrow> 'r mutations \<Rightarrow> bool" where
  "mut_frame h h' \<longleftrightarrow> mut_mounted h' = mut_mounted h \<and> mut_next h' = mut_next h"

definition mut_advances :: "'r mutations \<Rightarrow> 'r mutations \<Rightarrow> bool" where
  "mut_advances h h' \<longleftrightarrow> mut_frame h h' \<and> mut_ids h' = mut_ids h \<and> mut_results h' = mut_results h
     \<and> pendingCount h' = pendingCount h \<and> mut_error h' = mut_error h"

definition mut_finishes :: "nat \<Rightarrow> 'r mutations \<Rightarrow> 'r mutations \<Rightarrow> bool" where
  "mut_finishes i h h' \<longleftrightarrow> mut_frame h h' \<and> i \<in> set (mut_ids h) \<and> mut_ids h' = filter (\<lambda>j. j \<noteq> i) (mut_ids h)
     \<and> (\<exists>res. mut_results h' = mut_results h @ [(i, res)])
     \<and> (mut_mounted h \<longrightarrow> pendingCount h' = max 0 (pendingCount h - 1))"

lemma finish_keeps_inv:
  assumes "mut_inv h" "mut_finishes i h h'"
  shows "mut_inv h'"
proof -
  have i: "i \<in> set (mut_ids h)" and d: "distinct (mut_ids h)" using assms by (auto simp: mut_inv_def mut_finishes_def)
  have "length (filter (\<lambda>j. j \<noteq> i) (mut_ids h)) = length (mut_ids h) - 1"
    using distinct_remove1_removeAll [OF d, of i] i length_remove1 [of i "mut_ids h"]
    by (simp add: removeAll_filter_not_eq neq_commute)
  moreover have "length (mut_ids h) > 0" using i by (cases "mut_ids h") auto
  moreover have "length (mut_runs h) = length (mut_ids h)" "length (mut_runs h') = length (mut_ids h')" by (simp_all add: mut_ids_def)
  ultimately have "mut_mounted h' \<longrightarrow> pendingCount h' = int (length (mut_runs h'))"
    using assms by (simp add: mut_inv_def mut_finishes_def mut_frame_def of_nat_diff Suc_le_eq)
  moreover obtain res where "mut_results h' = mut_results h @ [(i, res)]" using assms(2) by (auto simp: mut_finishes_def)
  moreover have "set (filter (\<lambda>j. j \<noteq> i) xs) \<union> insert i B = set xs \<union> B" if "i \<in> set xs" for xs B using that by auto
  ultimately show ?thesis using assms i by (simp add: mut_inv_def mut_finishes_def mut_frame_def) blast
qed

lemma advance_keeps_inv: "mut_inv h \<Longrightarrow> mut_advances h h' \<Longrightarrow> mut_inv h'"
  using map_eq_imp_length_eq [of run_id "mut_runs h'" run_id "mut_runs h"]
  by (auto simp: mut_inv_def mut_advances_def mut_frame_def mut_ids_def)

locale mutation_hook =
  fixes run :: "'o \<Rightarrow> 'r mutations \<Rightarrow> 'r mutations"
    and cont :: "nat \<Rightarrow> 'r settled \<Rightarrow> 'r mutations \<Rightarrow> 'r mutations"
  assumes run_next: "mut_next (run opts h) = Suc (mut_next h)"
    and run_ids: "mut_ids (run opts h) = mut_ids h @ [mut_next h]"
    and run_frame: "mut_results (run opts h) = mut_results h" "mut_mounted (run opts h) = mut_mounted h"
    and run_count: "mut_mounted h \<Longrightarrow> pendingCount (run opts h) = pendingCount h + 1"
    and cont_law: "mut_advances h (cont i out h) \<or> mut_finishes i h (cont i out h)"
begin

lemma run_inv:
  assumes "mut_inv h"
  shows "mut_inv (run opts h)"
proof -
  have "length (mut_runs (run opts h)) = Suc (length (mut_runs h))"
    using arg_cong [OF run_ids, of length opts h] by (simp add: mut_ids_def)
  with assms show ?thesis by (auto simp: mut_inv_def run_next run_ids run_frame run_count)
qed

lemma reachable_mut_inv: "mutations_reachable run cont h \<Longrightarrow> mut_inv h"
proof (induction rule: mutations_reachable.induct)
  case init
  show ?case by (simp add: mut_inv_def mutations_init_def mut_ids_def)
next
  case (start h opts)
  then show ?case by (simp add: run_inv)
next
  case (settle h i out)
  then show ?case using cont_law [of h i out] advance_keeps_inv finish_keeps_inv by blast
next
  case (unmount h)
  then show ?case by (simp add: mut_inv_def mut_unmount_def mut_ids_def)
qed

lemma counts_runs:
  assumes "mutations_reachable run cont h"
  shows "distinct (mut_ids h @ map fst (mut_results h)) \<and> set (mut_ids h @ map fst (mut_results h)) = {..<mut_next h}
    \<and> (mut_mounted h \<longrightarrow> pendingCount h = int (length (mut_runs h)) \<and> (mut_pending h \<longleftrightarrow> mut_runs h \<noteq> []))"
  using reachable_mut_inv [OF assms] by (auto simp: mut_inv_def mut_pending_def)

end

lemma find_run_Some:
  assumes "find_run i h = Some r"
  shows "run_id r = i" "i \<in> set (mut_ids h)"
  using assms by (auto simp: find_run_def find_Some_iff mut_ids_def)

lemma to_stage_advances: "mut_advances h (to_stage i s h)"
  by (simp add: mut_advances_def to_stage_def mut_frame_def mut_ids_def comp_def if_distrib cong: if_cong)

lemma nothing_advances: "mut_advances h h"
  by (simp add: mut_advances_def mut_frame_def)

lemma end_run_finishes:
  assumes "i \<in> set (mut_ids h)"
  shows "mut_finishes i h (dec_pending (end_run i res h))"
    "mut_finishes i h (dec_pending (end_run i res (h\<lparr>mut_error := e\<rparr>)))"
    "\<not> mut_mounted h \<Longrightarrow> mut_finishes i h (end_run i res h)"
  using assms by (auto simp: mut_finishes_def dec_pending_def end_run_def mut_frame_def mut_ids_def filter_map comp_def)

lemmas finish_defs = mcp_finish_def mcp_fail_def agent_finish_def llm_finish_def mcp_after_hook_callback_def
lemmas run_step_laws = to_stage_advances nothing_advances end_run_finishes

interpretation mcp_mut: mutation_hook "\<lambda>(hook_cb, cb). mcp_run hook_cb cb" mcp_continue
proof (unfold_locales, goal_cases)
  case (6 h i out)
  show ?case
    by (auto simp: mcp_continue_def finish_defs Let_def to_stage_advances nothing_advances
      intro: end_run_finishes dest: find_run_Some split: option.splits stage.splits settled.splits sum.splits)
qed (auto simp: mcp_run_def add_run_def mut_ids_def)

interpretation agent_mut: mutation_hook agent_run agent_continue
proof (unfold_locales, goal_cases)
  case (6 h i out)
  show ?case
    by (auto simp: agent_continue_def finish_defs Let_def to_stage_advances nothing_advances
      intro: end_run_finishes dest: find_run_Some split: option.splits stage.splits settled.splits sum.splits)
qed (auto simp: agent_run_def add_run_def mut_ids_def)

interpretation llm_mut: mutation_hook llm_run llm_continue
proof (unfold_locales, goal_cases)
  case (6 h i out)
  show ?case
    by (auto simp: llm_continue_def finish_defs Let_def to_stage_advances nothing_advances
      intro: end_run_finishes dest: find_run_Some split: option.splits stage.splits settled.splits sum.splits)
qed (auto simp: llm_run_def add_run_def mut_ids_def)

subsection \<open>Properties\<close>

text \<open>C30. In every reachable state of a mutation hook, whatever the interleaving of its runs,
  each run that was started is either in flight or has settled its caller's promise, once; and
  while the component is mounted \<open>pendingCount\<close> is the number of runs in flight, so that \<open>pending\<close>
  is shown exactly while a mutation is running. Holds of all three hooks.\<close>
theorem pending_counts_runs_in_flight:
  "(mutations_reachable (\<lambda>(hook_cb, cb). mcp_run hook_cb cb) mcp_continue h
     \<or> mutations_reachable agent_run agent_continue h \<or> mutations_reachable llm_run llm_continue h) \<Longrightarrow>
   distinct (map run_id (mut_runs h) @ map fst (mut_results h))
   \<and> set (map run_id (mut_runs h) @ map fst (mut_results h)) = {..<mut_next h}
   \<and> (mut_mounted h \<longrightarrow> pendingCount h = int (length (mut_runs h)) \<and> (mut_pending h \<longleftrightarrow> mut_runs h \<noteq> []))"
  using mcp_mut.counts_runs agent_mut.counts_runs llm_mut.counts_runs unfolding mut_ids_def by blast

theorem pending_counts_runs_in_flight_witness:
  "mut_pending (mcp_continue 0 (Action_Settled (Inr ())) (mcp_run False False (mcp_run False False mutations_init)))
   \<and> map run_id (mut_runs (mcp_continue 0 (Action_Settled (Inr ())) (mcp_run False False (mcp_run False False mutations_init)))) = [1]"
proof -
  let ?go = "\<lambda>(hook_cb, cb). mcp_run hook_cb cb"
  let ?h = "mcp_continue 0 (Action_Settled (Inr ())) (?go (False, False) (?go (False, False) mutations_init))"
  have r: "mutations_reachable ?go mcp_continue ?h"
    by (intro mutations_reachable.settle mutations_reachable.start mutations_reachable.init)
  have "mut_mounted ?h" "map run_id (mut_runs ?h) = [1]" "mut_runs ?h \<noteq> []" by code_simp+
  with pending_counts_runs_in_flight [OF disjI1, OF r] show ?thesis by simp
qed

lemma fresh_find:
  assumes "mut_inv h"
  shows "find (\<lambda>r. run_id r = mut_next h) (mut_runs h) = None"
    "filter (\<lambda>r. run_id r \<noteq> mut_next h) (mut_runs h) = mut_runs h"
    "map (\<lambda>r. if run_id r = mut_next h then r\<lparr>run_stage := s\<rparr> else r) (mut_runs h) = mut_runs h"
proof -
  have "\<forall>r \<in> set (mut_runs h). run_id r \<noteq> mut_next h"
  proof -
    have "set (mut_ids h) \<subseteq> {..<mut_next h}" using assms unfolding mut_inv_def set_append by blast
    then show ?thesis by (auto simp: mut_ids_def)
  qed
  then show "find (\<lambda>r. run_id r = mut_next h) (mut_runs h) = None"
    "filter (\<lambda>r. run_id r \<noteq> mut_next h) (mut_runs h) = mut_runs h"
    "map (\<lambda>r. if run_id r = mut_next h then r\<lparr>run_stage := s\<rparr> else r) (mut_runs h) = mut_runs h"
    by (auto simp: find_None_iff filter_id_conv intro!: map_idI)
qed

lemma find_append: "find P (xs @ ys) = (case find P xs of None \<Rightarrow> find P ys | Some x \<Rightarrow> Some x)"
  by (induction xs) auto

lemmas mutation_defs = mcp_run_def agent_run_def llm_run_def mcp_continue_def agent_continue_def llm_continue_def
  finish_defs add_run_def to_stage_def end_run_def dec_pending_def find_run_def find_append Let_def

lemma mcp_failed_request:
  assumes "mut_inv h" "mut_mounted h"
  shows "mcp_continue (mut_next h) (Action_Settled (Inl e)) (mcp_run hook_cb cb h)
      = h\<lparr>mut_next := Suc (mut_next h), mut_error := Some (asError e), mut_results := mut_results h @ [(mut_next h, Inl (asError e))]\<rparr>"
proof -
  have "pendingCount h \<ge> 0" using assms by (simp add: mut_inv_def)
  with assms show ?thesis by (simp_all add: mutation_defs fresh_find callback_error_def)
qed

lemma mcp_callbacks:
  assumes "mut_inv h" "mut_mounted h"
  shows "mcp_continue (mut_next h) (Callback_Settled c2) (mcp_continue (mut_next h) (Callback_Settled c1)
        (mcp_continue (mut_next h) (Action_Settled (Inr x)) (mcp_run True True h)))
      = h\<lparr>mut_next := Suc (mut_next h), mut_results := mut_results h @ [(mut_next h, Inr x)],
          mut_error := (case (c1, c2) of (Inl e1, _) \<Rightarrow> Some (asError e1) | (_, Inl e2) \<Rightarrow> Some (asError e2) | _ \<Rightarrow> None)\<rparr>"
proof -
  have "pendingCount h \<ge> 0" using assms by (simp add: mut_inv_def)
  with assms show ?thesis by (cases c1; cases c2) (simp_all add: mutation_defs fresh_find callback_error_def)
qed

lemma agent_callback:
  assumes "mut_inv h" "mut_mounted h"
  shows "agent_continue (mut_next h) (Callback_Settled c) (agent_continue (mut_next h) (Action_Settled (Inr y)) (agent_run True h))
      = h\<lparr>mut_next := Suc (mut_next h), mut_error := (case c of Inl e' \<Rightarrow> Some (asError e') | Inr _ \<Rightarrow> None),
          mut_results := mut_results h @ [(mut_next h, case c of Inl e' \<Rightarrow> Inl (asError e') | Inr _ \<Rightarrow> Inr y)]\<rparr>"
proof -
  have "pendingCount h \<ge> 0" using assms by (simp add: mut_inv_def)
  with assms show ?thesis by (cases c) (simp_all add: mutation_defs fresh_find callback_error_def)
qed

lemma llm_callback:
  assumes "mut_inv h" "mut_mounted h"
  shows "llm_continue (mut_next h) (Callback_Settled c) (llm_continue (mut_next h) (Action_Settled (Inr y)) (llm_run True h))
      = h\<lparr>mut_next := Suc (mut_next h), mut_error := (case c of Inl e' \<Rightarrow> Some (asError e') | Inr _ \<Rightarrow> None),
          mut_results := mut_results h @ [(mut_next h, case c of Inl e' \<Rightarrow> Inl (asError e') | Inr _ \<Rightarrow> Inr y)]\<rparr>"
proof -
  have "pendingCount h \<ge> 0" using assms by (simp add: mut_inv_def)
  with assms show ?thesis by (cases c) (simp_all add: mutation_defs fresh_find callback_error_def)
qed

text \<open>What one mutation comes to, from any reachable state. Of the MCP hook: a failed request
  rejects the call and shows its error; a request that succeeds returns its result whatever the
  callbacks do, and the error shown is the hook callback's if it failed, else the call
  callback's. Of the other two hooks, a failing callback rejects the call although the request
  succeeded. In every case the pending count is what it was, and no other run is touched.\<close>
theorem mutation_outcomes:
  assumes "mutations_reachable (\<lambda>(hook_cb, cb). mcp_run hook_cb cb) mcp_continue h" "mut_mounted h"
    and "mutations_reachable agent_run agent_continue f" "mut_mounted f"
    and "mutations_reachable llm_run llm_continue g" "mut_mounted g"
  shows "mcp_continue (mut_next h) (Action_Settled (Inl e)) (mcp_run hook_cb cb h)
      = h\<lparr>mut_next := Suc (mut_next h), mut_error := Some (asError e), mut_results := mut_results h @ [(mut_next h, Inl (asError e))]\<rparr>
   \<and> mcp_continue (mut_next h) (Callback_Settled c2) (mcp_continue (mut_next h) (Callback_Settled c1)
        (mcp_continue (mut_next h) (Action_Settled (Inr x)) (mcp_run True True h)))
      = h\<lparr>mut_next := Suc (mut_next h), mut_results := mut_results h @ [(mut_next h, Inr x)],
          mut_error := (case (c1, c2) of (Inl e1, _) \<Rightarrow> Some (asError e1) | (_, Inl e2) \<Rightarrow> Some (asError e2) | _ \<Rightarrow> None)\<rparr>
   \<and> agent_continue (mut_next f) (Callback_Settled c) (agent_continue (mut_next f) (Action_Settled (Inr y)) (agent_run True f))
      = f\<lparr>mut_next := Suc (mut_next f), mut_error := (case c of Inl e' \<Rightarrow> Some (asError e') | Inr _ \<Rightarrow> None),
          mut_results := mut_results f @ [(mut_next f, case c of Inl e' \<Rightarrow> Inl (asError e') | Inr _ \<Rightarrow> Inr y)]\<rparr>
   \<and> llm_continue (mut_next g) (Callback_Settled c) (llm_continue (mut_next g) (Action_Settled (Inr y)) (llm_run True g))
      = g\<lparr>mut_next := Suc (mut_next g), mut_error := (case c of Inl e' \<Rightarrow> Some (asError e') | Inr _ \<Rightarrow> None),
          mut_results := mut_results g @ [(mut_next g, case c of Inl e' \<Rightarrow> Inl (asError e') | Inr _ \<Rightarrow> Inr y)]\<rparr>"
  using mcp_failed_request [OF mcp_mut.reachable_mut_inv [OF assms(1)] assms(2)]
    mcp_callbacks [OF mcp_mut.reachable_mut_inv [OF assms(1)] assms(2)]
    agent_callback [OF agent_mut.reachable_mut_inv [OF assms(3)] assms(4)]
    llm_callback [OF llm_mut.reachable_mut_inv [OF assms(5)] assms(6)]
  by blast

theorem mutation_outcomes_witness:
  "mut_results (mcp_continue 0 (Callback_Settled (Inl (Thrown_Value (str ''x'')))) (mcp_continue 0 (Callback_Settled (Inr ()))
     (mcp_continue 0 (Action_Settled (Inr True)) (mcp_run True True mutations_init)))) = [(0, Inr True)]
   \<and> mut_results (llm_continue 0 (Callback_Settled (Inl (Thrown_Value (str ''x'')))) (llm_continue 0 (Action_Settled (Inr True)) (llm_run True mutations_init)))
     = [(0, Inl (Error (str ''x'') None))]"
proof -
  have z: "mut_next (mutations_init :: bool mutations) = 0" "mut_mounted (mutations_init :: bool mutations)"
    "mut_results (mutations_init :: bool mutations) = []"
    by (simp_all add: mutations_init_def)
  show ?thesis
    using mutation_outcomes [where ?c1.0 = "Inr ()" and ?c2.0 = "Inl (Thrown_Value (str ''x''))" and x = True
        and c = "Inl (Thrown_Value (str ''x''))" and y = True,
      OF mutations_reachable.init z(2) mutations_reachable.init z(2) mutations_reachable.init z(2)]
    by (simp add: z)
qed

end
