(* ===== verification/McpMenu.thy ===== *)
theory McpMenu
  imports DataTypes Complex_Main
begin

text \<open>
  The row actions menu of \<open>features/mcp/components/McpRowActionsMenu.tsx\<close>: which actions a server's
  runtime status offers, where the menu is placed in the viewport, and the focus its keyboard
  handlers move. What the handlers read from the DOM (the trigger's rectangle, the menu's height, the
  size of the window) is an argument; lengths are rational numbers of pixels. The component's cells,
  its refs and the focused element are one record. The list of items is built anew at every render,
  so the effect that focuses the initial item runs after every render of an open menu.
\<close>

subsection \<open>Items\<close>

definition canStart :: "McpServerRuntimeStatus \<Rightarrow> bool" where
  "canStart s \<longleftrightarrow> s = Rt_Stopped \<or> s = Rt_Error \<or> s = Rt_Unknown"

definition canStop :: "McpServerRuntimeStatus \<Rightarrow> bool" where
  "canStop s \<longleftrightarrow> s = Rt_Running \<or> s = Rt_Starting"

datatype mcp_action = Act_Start | Act_Stop | Act_Restart | Act_Check | Act_Delete

datatype item_kind = Separator | LinkTo jstr | Action mcp_action

record menu_item =
  mi_id :: jstr
  mi_label :: jstr
  mi_kind :: item_kind
  mi_destructive :: bool

definition menu_items :: "McpServerRuntimeStatus \<Rightarrow> jstr \<Rightarrow> menu_item list" where
  "menu_items runtimeStatus serverId =
    [\<lparr>mi_id = str ''view'', mi_label = [0x67E5, 0x770B, 0x8BE6, 0x60C5], mi_kind = LinkTo (str ''/mcp/'' @ serverId), mi_destructive = False\<rparr>,
     \<lparr>mi_id = str ''edit'', mi_label = [0x7F16, 0x8F91], mi_kind = LinkTo (str ''/mcp/'' @ serverId @ str ''/edit''), mi_destructive = False\<rparr>,
     \<lparr>mi_id = str ''sep1'', mi_label = [], mi_kind = Separator, mi_destructive = False\<rparr>]
    @ (if canStart runtimeStatus
       then [\<lparr>mi_id = str ''start'', mi_label = [0x542F, 0x52A8], mi_kind = Action Act_Start, mi_destructive = False\<rparr>] else [])
    @ (if canStop runtimeStatus
       then [\<lparr>mi_id = str ''stop'', mi_label = [0x505C, 0x6B62], mi_kind = Action Act_Stop, mi_destructive = False\<rparr>] else [])
    @ [\<lparr>mi_id = str ''restart'', mi_label = [0x91CD, 0x542F], mi_kind = Action Act_Restart, mi_destructive = False\<rparr>,
       \<lparr>mi_id = str ''check'', mi_label = [0x68C0, 0x67E5], mi_kind = Action Act_Check, mi_destructive = False\<rparr>,
       \<lparr>mi_id = str ''sep2'', mi_label = [], mi_kind = Separator, mi_destructive = False\<rparr>,
       \<lparr>mi_id = str ''delete'', mi_label = [0x5220, 0x9664], mi_kind = Action Act_Delete, mi_destructive = True\<rparr>]"

definition visible_items :: "McpServerRuntimeStatus \<Rightarrow> jstr \<Rightarrow> menu_item list" where
  "visible_items st sid = filter (\<lambda>i. mi_kind i \<noteq> Separator) (menu_items st sid)"

subsection \<open>Placement\<close>

definition MENU_WIDTH :: rat where "MENU_WIDTH = 176"
definition MENU_GAP :: rat where "MENU_GAP = 6"
definition VIEWPORT_PADDING :: rat where "VIEWPORT_PADDING = 8"

record rect =
  rc_right :: rat
  rc_top :: rat
  rc_bottom :: rat

record geometry =
  geo_trigger :: "rect option" \<comment> \<open>\<open>None\<close>: no element behind \<open>triggerRef\<close>\<close>
  geo_menuHeight :: "rat option" \<comment> \<open>\<open>None\<close>: no element behind \<open>menuRef\<close>\<close>
  geo_innerWidth :: rat
  geo_innerHeight :: rat

record MenuPosition =
  pos_left :: rat
  pos_top :: rat

definition calculateMenuPosition :: "geometry \<Rightarrow> MenuPosition option" where
  "calculateMenuPosition g = (case geo_trigger g of None \<Rightarrow> None | Some triggerRect \<Rightarrow>
     (let menuHeight = (case geo_menuHeight g of None \<Rightarrow> 0 | Some h \<Rightarrow> h);
          maxLeft = geo_innerWidth g - MENU_WIDTH - VIEWPORT_PADDING;
          left = max VIEWPORT_PADDING (min (rc_right triggerRect - MENU_WIDTH) maxLeft);
          hasBottomSpace = (menuHeight = 0
            \<or> rc_bottom triggerRect + MENU_GAP + menuHeight \<le> geo_innerHeight g - VIEWPORT_PADDING);
          top = (if hasBottomSpace then rc_bottom triggerRect + MENU_GAP
                 else max VIEWPORT_PADDING (rc_top triggerRect - menuHeight - MENU_GAP))
      in Some \<lparr>pos_left = left, pos_top = top\<rparr>))"

subsection \<open>State\<close>

datatype initial_focus = Focus_First | Focus_Last

datatype focus = On_Item jstr | On_Trigger | Elsewhere

record menu =
  mn_open :: bool
  mn_position :: "MenuPosition option"
  mn_initialFocusRef :: initial_focus
  mn_focus :: focus \<comment> \<open>\<open>document.activeElement\<close>\<close>

definition menu_init :: menu where
  "menu_init = \<lparr>mn_open = False, mn_position = None, mn_initialFocusRef = Focus_First, mn_focus = Elsewhere\<rparr>"

definition menu_rendered :: "menu \<Rightarrow> bool" where
  "menu_rendered m \<longleftrightarrow> mn_open m \<and> mn_position m \<noteq> None"

definition menu_close :: "menu \<Rightarrow> menu" where
  "menu_close m = m\<lparr>mn_open := False, mn_focus := On_Trigger\<rparr>"

definition updateMenuPosition :: "geometry \<Rightarrow> menu \<Rightarrow> menu" where
  "updateMenuPosition g m = (case calculateMenuPosition g of None \<Rightarrow> m | Some p \<Rightarrow> m\<lparr>mn_position := Some p\<rparr>)"

definition openMenu :: "initial_focus \<Rightarrow> geometry \<Rightarrow> menu \<Rightarrow> menu" where
  "openMenu f g m = (updateMenuPosition g (m\<lparr>mn_initialFocusRef := f\<rparr>))\<lparr>mn_open := True\<rparr>"

definition clamp_index :: "int \<Rightarrow> 'a list \<Rightarrow> nat" where
  "clamp_index index vis = nat (max 0 (min index (int (length vis) - 1)))"

definition focusItem :: "menu_item list \<Rightarrow> int \<Rightarrow> menu \<Rightarrow> menu" where
  \<comment> \<open>only a rendered item can take the focus\<close>
  "focusItem vis index m =
     (if clamp_index index vis < length vis \<and> menu_rendered m
      then m\<lparr>mn_focus := On_Item (mi_id (vis ! clamp_index index vis))\<rparr> else m)"

definition focus_effect :: "menu_item list \<Rightarrow> menu \<Rightarrow> menu" where
  "focus_effect vis m =
     (if \<not> mn_open m then m
      else focusItem vis (case mn_initialFocusRef m of Focus_Last \<Rightarrow> int (length vis) - 1 | Focus_First \<Rightarrow> 0) m)"

fun find_index :: "('a \<Rightarrow> bool) \<Rightarrow> 'a list \<Rightarrow> int" where
  "find_index P [] = - 1"
| "find_index P (x # xs) = (if P x then 0 else let i = find_index P xs in if i < 0 then - 1 else i + 1)"

definition focus_index :: "menu_item list \<Rightarrow> menu \<Rightarrow> int" where
  "focus_index vis m = find_index (\<lambda>i. mn_focus m = On_Item (mi_id i)) vis"

datatype key = Key_ArrowDown | Key_ArrowUp | Key_Enter | Key_Space | Key_Escape | Key_Home | Key_End | Key_Other

definition handleTriggerKeyDown :: "key \<Rightarrow> geometry \<Rightarrow> menu \<Rightarrow> menu" where
  "handleTriggerKeyDown k g m =
     (if k \<in> {Key_ArrowDown, Key_Enter, Key_Space} then openMenu Focus_First g m
      else if k = Key_ArrowUp then openMenu Focus_Last g m else m)"

definition handleMenuKeyDown :: "menu_item list \<Rightarrow> key \<Rightarrow> menu \<Rightarrow> menu" where
  "handleMenuKeyDown vis k m = (case k of
     Key_Escape \<Rightarrow> menu_close m
   | Key_ArrowDown \<Rightarrow> focusItem vis (focus_index vis m + 1) m
   | Key_ArrowUp \<Rightarrow> focusItem vis (focus_index vis m - 1) m
   | Key_Home \<Rightarrow> focusItem vis 0 m
   | Key_End \<Rightarrow> focusItem vis (int (length vis) - 1) m
   | _ \<Rightarrow> m)"

definition handleItemClick :: "menu_item \<Rightarrow> menu \<Rightarrow> mcp_action option \<times> menu" where
  \<comment> \<open>the action called, if the item has one; a link only closes the menu\<close>
  "handleItemClick i m = ((case mi_kind i of Action a \<Rightarrow> Some a | _ \<Rightarrow> None), menu_close m)"

definition outside_mousedown :: "menu \<Rightarrow> menu" where
  \<comment> \<open>a press outside the menu and the trigger; the listener is there while the menu is open\<close>
  "outside_mousedown m = (if menu_rendered m then menu_close m else m)"

subsection \<open>Events\<close>

datatype menu_event =
    Trigger_Click geometry geometry \<comment> \<open>the geometry before the menu is rendered, and after\<close>
  | Trigger_Key key geometry geometry
  | Menu_Key key
  | Item_Click nat
  | Outside_Press
  | Window_Moved geometry \<comment> \<open>a resize or a scroll\<close>
  | Parent_Render

definition opened :: "menu_item list \<Rightarrow> geometry \<Rightarrow> menu \<Rightarrow> menu \<Rightarrow> menu" where
  \<comment> \<open>the layout effect of the render that opened the menu, then the focus effect\<close>
  "opened vis g old m = focus_effect vis (if mn_open m \<and> \<not> mn_open old then updateMenuPosition g m else m)"

fun menu_step :: "menu_item list \<Rightarrow> menu \<Rightarrow> menu_event \<Rightarrow> menu" where
  "menu_step vis m (Trigger_Click g g') = opened vis g' m (openMenu Focus_First g m)"
| "menu_step vis m (Trigger_Key k g g') =
     (if k \<in> {Key_ArrowDown, Key_ArrowUp, Key_Enter, Key_Space} then opened vis g' m (handleTriggerKeyDown k g m) else m)"
| "menu_step vis m (Menu_Key k) = (if menu_rendered m then handleMenuKeyDown vis k m else m)"
| "menu_step vis m (Item_Click n) = (if menu_rendered m \<and> n < length vis then snd (handleItemClick (vis ! n) m) else m)"
| "menu_step vis m Outside_Press = outside_mousedown m"
| "menu_step vis m (Window_Moved g) =
     (if mn_open m \<and> calculateMenuPosition g \<noteq> None then focus_effect vis (updateMenuPosition g m) else m)"
| "menu_step vis m Parent_Render = focus_effect vis m"

subsection \<open>Facts\<close>

lemma visible_items_expand:
  "map mi_id (visible_items st sid) = [str ''view'', str ''edit''] @ (if canStart st then [str ''start''] else [])
     @ (if canStop st then [str ''stop''] else []) @ [str ''restart'', str ''check'', str ''delete'']"
  by (simp add: visible_items_def menu_items_def)

lemma visible_items_distinct: "distinct (map mi_id (visible_items st sid))"
  by (simp add: visible_items_expand)

lemma visible_items_nonempty: "visible_items st sid \<noteq> []"
  by (simp add: visible_items_def menu_items_def)

lemma find_index_nth:
  assumes "distinct (map f xs)" "n < length xs"
  shows "find_index (\<lambda>x. f (xs ! n) = f x) xs = int n"
  using assms
proof (induction xs arbitrary: n)
  case (Cons x xs)
  show ?case
  proof (cases n)
    case (Suc k)
    with Cons.prems have "f (xs ! k) \<in> f ` set xs" "f x \<notin> f ` set xs" by simp_all
    then have "f (xs ! k) \<noteq> f x" by metis
    with Cons Suc show ?thesis by (simp add: Let_def)
  qed simp
qed simp

lemma focus_index_nth:
  assumes "distinct (map mi_id vis)" "n < length vis" "mn_focus m = On_Item (mi_id (vis ! n))"
  shows "focus_index vis m = int n"
  using find_index_nth [OF assms(1,2)] assms(3) by (simp add: focus_index_def)

lemma clamp_index_less: "0 < length vis \<Longrightarrow> clamp_index i vis < length vis"
  unfolding clamp_index_def by linarith

lemma focusItem_focus:
  "0 < length vis \<Longrightarrow> menu_rendered m \<Longrightarrow> mn_focus (focusItem vis i m) = On_Item (mi_id (vis ! clamp_index i vis))"
  by (simp add: focusItem_def clamp_index_less)

lemma focus_frame [simp]:
  "mn_open (focusItem vis i m) = mn_open m" "mn_position (focusItem vis i m) = mn_position m"
  "mn_initialFocusRef (focusItem vis i m) = mn_initialFocusRef m"
  "mn_open (focus_effect vis m) = mn_open m" "mn_position (focus_effect vis m) = mn_position m"
  by (simp_all add: focusItem_def focus_effect_def)

lemma rendered_frame [simp]:
  "menu_rendered (focusItem vis i m) = menu_rendered m" "menu_rendered (focus_effect vis m) = menu_rendered m"
  by (simp_all add: menu_rendered_def)

definition focus_ok :: "menu_item list \<Rightarrow> menu \<Rightarrow> bool" where
  "focus_ok vis m \<longleftrightarrow> menu_rendered m \<longrightarrow> mn_focus m \<in> On_Item ` mi_id ` set vis"

lemma focusItem_ok: "0 < length vis \<Longrightarrow> focus_ok vis (focusItem vis i m)"
  by (auto simp: focus_ok_def focusItem_focus clamp_index_less)

lemma focus_effect_ok: "0 < length vis \<Longrightarrow> focus_ok vis (focus_effect vis m)"
  by (auto simp: focus_effect_def focusItem_ok) (simp add: focus_ok_def menu_rendered_def)

lemma close_ok: "focus_ok vis (menu_close m)"
  by (simp add: focus_ok_def menu_close_def menu_rendered_def)

lemma menu_step_ok: "0 < length vis \<Longrightarrow> focus_ok vis m \<Longrightarrow> focus_ok vis (menu_step vis m e)"
  by (cases e) (auto simp: opened_def focus_effect_ok close_ok handleMenuKeyDown_def focusItem_ok handleItemClick_def
    outside_mousedown_def split: key.split)

subsection \<open>Properties\<close>



text \<open>From its first render on, whatever happens to it, a menu that is shown has the focus on
  one of its items; and its keys move the focus as a menu's should: one item down or up without
  leaving the list, to the first or the last item, and back to the trigger on Escape, which closes
  it.\<close>
theorem menu_keyboard_navigation:
  fixes st :: McpServerRuntimeStatus and sid :: jstr
  defines "vis \<equiv> visible_items st sid"
  shows "focus_ok vis (foldl (menu_step vis) menu_init es)
    \<and> (menu_rendered m \<and> n < length vis \<and> mn_focus m = On_Item (mi_id (vis ! n)) \<longrightarrow>
        mn_focus (menu_step vis m (Menu_Key Key_ArrowDown)) = On_Item (mi_id (vis ! min (n + 1) (length vis - 1)))
      \<and> mn_focus (menu_step vis m (Menu_Key Key_ArrowUp)) = On_Item (mi_id (vis ! (n - 1)))
      \<and> mn_focus (menu_step vis m (Menu_Key Key_Home)) = On_Item (mi_id (hd vis))
      \<and> mn_focus (menu_step vis m (Menu_Key Key_End)) = On_Item (mi_id (last vis))
      \<and> menu_step vis m (Menu_Key Key_Escape) = m\<lparr>mn_open := False, mn_focus := On_Trigger\<rparr>)"
proof (intro conjI impI; (elim conjE)?)
  have ne: "0 < length vis" by (simp add: vis_def visible_items_nonempty)
  then have "focus_ok vis (foldl (menu_step vis) m' es)" if "focus_ok vis m'" for m'
    using that by (induction es arbitrary: m') (simp_all add: menu_step_ok)
  then show "focus_ok vis (foldl (menu_step vis) menu_init es)" by (simp add: focus_ok_def menu_init_def menu_rendered_def)
  assume r: "menu_rendered m" "n < length vis" "mn_focus m = On_Item (mi_id (vis ! n))"
  have i: "focus_index vis m = int n" using visible_items_distinct r(2,3) unfolding vis_def by (intro focus_index_nth)
  note key = handleMenuKeyDown_def focusItem_focus [OF ne] i r(1)
  have c: "clamp_index (int n + 1) vis = min (n + 1) (length vis - 1)" "clamp_index (int n - 1) vis = n - 1"
    "clamp_index 0 vis = 0" "clamp_index (int (length vis) - 1) vis = length vis - 1"
    using r(2) by (auto simp: clamp_index_def)
  show "mn_focus (menu_step vis m (Menu_Key Key_ArrowDown)) = On_Item (mi_id (vis ! min (n + 1) (length vis - 1)))"
    "mn_focus (menu_step vis m (Menu_Key Key_ArrowUp)) = On_Item (mi_id (vis ! (n - 1)))"
    "mn_focus (menu_step vis m (Menu_Key Key_Home)) = On_Item (mi_id (hd vis))"
    "mn_focus (menu_step vis m (Menu_Key Key_End)) = On_Item (mi_id (last vis))"
    "menu_step vis m (Menu_Key Key_Escape) = m\<lparr>mn_open := False, mn_focus := On_Trigger\<rparr>"
    using ne by (simp_all add: key c hd_conv_nth last_conv_nth menu_close_def)
qed

theorem menu_keyboard_navigation_witness:
  "mn_focus (menu_step (visible_items Rt_Running (str ''s1'')) \<lparr>mn_open = True, mn_position = Some \<lparr>pos_left = 8, pos_top = 8\<rparr>,
     mn_initialFocusRef = Focus_First, mn_focus = On_Item (str ''view'')\<rparr> (Menu_Key Key_ArrowDown)) = On_Item (str ''edit'')"
proof -
  let ?m = "\<lparr>mn_open = True, mn_position = Some \<lparr>pos_left = 8, pos_top = 8\<rparr>, mn_initialFocusRef = Focus_First, mn_focus = On_Item (str ''view'')\<rparr>"
  have "mn_focus (menu_step (visible_items Rt_Running (str ''s1'')) ?m (Menu_Key Key_ArrowDown))
    = On_Item (mi_id (visible_items Rt_Running (str ''s1'') ! min (0 + 1) (length (visible_items Rt_Running (str ''s1'')) - 1)))"
    using menu_keyboard_navigation [of Rt_Running "str ''s1''" "[]" ?m 0]
    by (simp add: menu_rendered_def visible_items_def menu_items_def)
  then show ?thesis by (simp add: visible_items_def menu_items_def canStart_def canStop_def)
qed

text \<open>The focus effect depends on the list of items, which every render builds anew: a scroll or a
  resize moves the focus of an open menu back to the item it opened with.\<close>
lemma scrolling_resets_focus:
  assumes "mn_open m" "mn_initialFocusRef m = Focus_First" "calculateMenuPosition g \<noteq> None"
  shows "mn_focus (menu_step (visible_items st sid) m (Window_Moved g)) = On_Item (str ''view'')"
  using assms visible_items_nonempty [of st sid]
  by (auto simp: focus_effect_def updateMenuPosition_def focusItem_def clamp_index_def menu_rendered_def visible_items_def menu_items_def)

end
