(* ===== verification/McpPages.thy ===== *)
theory McpPages
  imports Mutations AsyncHooks McpMenu
begin

text \<open>
  The MCP pages: the error messages, the server table, the list page with its filter and row actions,
  the detail page and the form pages (\<open>features/mcp/components\<close> and \<open>features/mcp/pages\<close>). A page is
  the record of the hooks and cells it uses; what it renders is a value of a view type, without the
  styling. \<open>toLowerCase\<close> and the formatting of dates are arguments.
\<close>

subsection \<open>Error messages\<close>

fun getErrorStatus :: "js_error \<Rightarrow> int option" where
  "getErrorStatus (ApiError status statusText detail) = Some status"
| "getErrorStatus (Error m status) = status"

fun api_detail :: "js_error \<Rightarrow> jstr option" where
  \<comment> \<open>\<open>error instanceof ApiError && error.detail\<close>\<close>
  "api_detail (ApiError status statusText detail) = (case detail of None \<Rightarrow> None | Some d \<Rightarrow> nonempty d)"
| "api_detail (Error m status) = None"

definition getMcpErrorMessage :: "js_error option \<Rightarrow> jstr option" where
  "getMcpErrorMessage error = (case error of None \<Rightarrow> None | Some e \<Rightarrow>
     (let status = getErrorStatus e in
      if status = Some 409 then Some [0x8BF7, 0x5148, 0x505C, 0x6B62, 0x670D, 0x52A1, 0x518D, 0x4FEE, 0x6539, 0x914D, 0x7F6E]
      else if status = Some 404
      then Some (str ''MCP '' @ [0x670D, 0x52A1, 0x4E0D, 0x5B58, 0x5728, 0xFF0C, 0x8BF7, 0x5237, 0x65B0, 0x5217, 0x8868, 0x540E, 0x91CD, 0x8BD5])
      else if status = Some 502 \<or> status = Some 503
      then Some (str ''MCP '' @ [0x670D, 0x52A1, 0x64CD, 0x4F5C, 0x5931, 0x8D25, 0xFF0C, 0x8BF7, 0x6267, 0x884C] @ str '' check '' @ [0x540E, 0x91CD, 0x8BD5])
      else Some (orElse (api_detail e) (error_message e))))"

definition isMcpNotFoundError :: "js_error option \<Rightarrow> bool" where
  "isMcpNotFoundError error = (case error of None \<Rightarrow> False | Some e \<Rightarrow> getErrorStatus e = Some 404)"

subsection \<open>The table\<close>

definition getCommandSummary :: "'a McpServerSummary_scheme \<Rightarrow> jstr" where
  "getCommandSummary server = (if srv_transport server = Http then orElse (srv_url server) (str ''-'') else orElse (srv_command server) (str ''-''))"

definition getConfigSummary :: "'a McpServerSummary_scheme \<Rightarrow> jstr" where
  "getConfigSummary server =
     (if srv_transport server = Http then orElse (srv_url server) (str ''-'')
      else if srv_args server \<noteq> [] then join (str '' '') (srv_args server)
      else [0x672A, 0x914D, 0x7F6E] @ str '' args'')"

definition formatLastChecked :: "(jstr \<Rightarrow> jstr option) \<Rightarrow> jstr option \<Rightarrow> jstr" where
  \<comment> \<open>\<open>format\<close> is \<open>None\<close> on a string that is not a date\<close>
  "formatLastChecked format v = (case v of None \<Rightarrow> [0x672A, 0x68C0, 0x67E5] | Some s \<Rightarrow>
     if s = [] then [0x672A, 0x68C0, 0x67E5] else orElse (format s) s)"

datatype 'row table_body = Body_Loading | Body_Error jstr | Body_Empty | Body_Rows "'row list"

definition table_body_of :: "bool \<Rightarrow> jstr option \<Rightarrow> 'a list \<Rightarrow> 'a table_body" where
  \<comment> \<open>an empty message is falsy\<close>
  "table_body_of loading error rows =
     (if loading then Body_Loading
      else case error of
        Some (c # cs) \<Rightarrow> Body_Error (c # cs)
      | _ \<Rightarrow> if rows = [] then Body_Empty else Body_Rows rows)"

record mcp_row =
  row_link :: jstr
  row_name :: jstr
  row_transport :: McpTransport
  row_enabled_label :: jstr
  row_desired :: McpDesiredState
  row_endpoint_label :: jstr
  row_command :: jstr
  row_config :: jstr
  row_tool_count :: int
  row_tool_unit :: jstr
  row_status :: McpServerRuntimeStatus
  row_has_error :: bool
  row_last_checked :: jstr

definition McpServerMetricRow :: "(jstr \<Rightarrow> jstr option) \<Rightarrow> McpServerSummary \<Rightarrow> mcp_row" where
  "McpServerMetricRow format server =
     \<lparr>row_link = str ''/mcp/'' @ srv_id server, row_name = srv_name server, row_transport = srv_transport server,
      row_enabled_label = (if srv_enabled server then [0x5DF2, 0x542F, 0x7528] else [0x5DF2, 0x505C, 0x7528]),
      row_desired = srv_desired_state server,
      row_endpoint_label = (if srv_transport server = Http then str ''URL'' else str ''command''),
      row_command = getCommandSummary server, row_config = getConfigSummary server,
      row_tool_count = srv_tool_count server,
      row_tool_unit = (if srv_tool_count server = 1 then str ''tool'' else str ''tools''),
      row_status = srv_runtime_status server,
      row_has_error = (case srv_last_error server of None \<Rightarrow> False | Some e \<Rightarrow> e \<noteq> []),
      row_last_checked = formatLastChecked format (srv_last_checked_at server)\<rparr>"

definition McpServerTable :: "(jstr \<Rightarrow> jstr option) \<Rightarrow> bool \<Rightarrow> js_error option \<Rightarrow> McpServerSummary list \<Rightarrow> mcp_row table_body" where
  "McpServerTable format loading error servers =
     map_table_body (McpServerMetricRow format) (table_body_of loading (getMcpErrorMessage error) servers)"

subsection \<open>The list page\<close>

datatype McpStatusFilter = Filter_All | Filter_Status McpServerRuntimeStatus

record 'r mcp_list_page =
  lp_servers :: "(unit, McpServerSummary list) resource"
  lp_mutations :: "'r mutations"
  lp_searchText :: jstr
  lp_statusFilter :: McpStatusFilter

definition list_page_init :: "'r mcp_list_page" where
  "list_page_init = \<lparr>lp_servers = useMcpServers_mount, lp_mutations = mutations_init, lp_searchText = [], lp_statusFilter = Filter_All\<rparr>"

definition filteredServers :: "(jstr \<Rightarrow> jstr) \<Rightarrow> jstr \<Rightarrow> McpStatusFilter \<Rightarrow> McpServerSummary list \<Rightarrow> McpServerSummary list" where
  "filteredServers lower searchText statusFilter data =
     (let query = lower (trim searchText) in
      filter (\<lambda>server.
        if statusFilter \<noteq> Filter_All \<and> Filter_Status (srv_runtime_status server) \<noteq> statusFilter then False
        else if query \<noteq> [] \<and> \<not> str_includes (lower (srv_name server)) query then False
        else True) data)"

definition getServerName :: "jstr \<Rightarrow> McpServerSummary list \<Rightarrow> jstr" where
  "getServerName serverId data =
     (case find (\<lambda>s. srv_id s = serverId) data of None \<Rightarrow> [0x8FD9, 0x4E2A] @ str '' MCP Server'' | Some s \<Rightarrow> srv_name s)"

fun action_mutation :: "jstr \<Rightarrow> mcp_action \<Rightarrow> mcp_mutation" where
  "action_mutation sid Act_Start = Mcp_startServer sid"
| "action_mutation sid Act_Stop = Mcp_stopServer sid"
| "action_mutation sid Act_Restart = Mcp_restartServer sid"
| "action_mutation sid Act_Check = Mcp_checkServer sid"
| "action_mutation sid Act_Delete = Mcp_deleteServer sid"

definition action_confirm :: "jstr \<Rightarrow> mcp_action \<Rightarrow> jstr option" where
  \<comment> \<open>the question \<open>window.confirm\<close> asks about a server of this name, if any\<close>
  "action_confirm name a = (case a of
     Act_Delete \<Rightarrow> Some ([0x786E, 0x8BA4, 0x5220, 0x9664] @ str '' '' @ name @ [0xFF1F])
   | Act_Restart \<Rightarrow> Some ([0x786E, 0x8BA4, 0x91CD, 0x542F] @ str '' '' @ name @ [0xFF1F])
   | _ \<Rightarrow> None)"

definition list_page_act :: "(jstr \<Rightarrow> bool) \<Rightarrow> jstr \<Rightarrow> mcp_action \<Rightarrow> 'r mcp_list_page \<Rightarrow> mcp_mutation option \<times> 'r mcp_list_page" where
  \<comment> \<open>the row action handlers; \<open>confirm\<close> answers the question asked\<close>
  "list_page_act confirm sid a p =
     (case action_confirm (getServerName sid (st_data (r_state (lp_servers p)))) a of
        Some q \<Rightarrow> if confirm q then (Some (action_mutation sid a), p\<lparr>lp_mutations := mcp_run False False (lp_mutations p)\<rparr>) else (None, p)
      | None \<Rightarrow> (Some (action_mutation sid a), p\<lparr>lp_mutations := mcp_run False False (lp_mutations p)\<rparr>))"

definition list_page_settled :: "nat \<Rightarrow> thrown + 'r \<Rightarrow> 'r mcp_list_page \<Rightarrow> 'r mcp_list_page" where
  \<comment> \<open>\<open>runMutation\<close>: a refetch after the action succeeded, nothing after it failed\<close>
  "list_page_settled i out p =
     (let q = p\<lparr>lp_mutations := mcp_continue i (Action_Settled out) (lp_mutations p)\<rparr>
      in case out of Inl e \<Rightarrow> q | Inr r \<Rightarrow> q\<lparr>lp_servers := useMcpServers_refetch (lp_servers q)\<rparr>)"

definition list_page_view :: "(jstr \<Rightarrow> jstr) \<Rightarrow> (jstr \<Rightarrow> jstr option) \<Rightarrow> 'r mcp_list_page \<Rightarrow> jstr option \<times> mcp_row table_body" where
  \<comment> \<open>the mutation error and the table\<close>
  "list_page_view lower format p =
     (Option.bind (mut_error (lp_mutations p)) (\<lambda>e. nonempty (error_message e)),
      McpServerTable format (st_loading (r_state (lp_servers p))) (st_error (r_state (lp_servers p)))
        (filteredServers lower (lp_searchText p) (lp_statusFilter p) (st_data (r_state (lp_servers p)))))"

subsection \<open>The detail and form pages\<close>

record 'r mcp_detail_page =
  dp_detail :: "(jstr option, McpServerDetail option) resource"
  dp_servers :: "(unit, McpServerSummary list) resource"
  dp_mutations :: "'r mutations"

definition detail_refetch_both :: "'r mcp_detail_page \<Rightarrow> 'r mcp_detail_page" where
  "detail_refetch_both p = p\<lparr>dp_servers := useMcpServers_refetch (dp_servers p), dp_detail := useMcpServerDetail_refetch (dp_detail p)\<rparr>"

definition detail_page_settled :: "nat \<Rightarrow> thrown + 'r \<Rightarrow> 'r mcp_detail_page \<Rightarrow> 'r mcp_detail_page" where
  "detail_page_settled i out p =
     (let q = p\<lparr>dp_mutations := mcp_continue i (Action_Settled out) (dp_mutations p)\<rparr>
      in case out of
           Inr r \<Rightarrow> detail_refetch_both q
         | Inl e \<Rightarrow> if isMcpNotFoundError (Some (asError e)) then q\<lparr>dp_servers := useMcpServers_refetch (dp_servers q)\<rparr>
                   else detail_refetch_both q)"

definition target_server :: "jstr option \<Rightarrow> McpServerDetail option \<Rightarrow> jstr" where
  "target_server serverId server = (case server of Some s \<Rightarrow> srv_id s | None \<Rightarrow> orElse serverId [])"

definition detail_handleDelete :: "(jstr \<Rightarrow> bool) \<Rightarrow> jstr option \<Rightarrow> 'r mcp_detail_page \<Rightarrow> mcp_mutation option \<times> 'r mcp_detail_page" where
  "detail_handleDelete confirm serverId p = (case st_data (r_state (dp_detail p)) of
     None \<Rightarrow> (None, p)
   | Some server \<Rightarrow>
       if confirm ([0x786E, 0x8BA4, 0x5220, 0x9664] @ str '' '' @ srv_name server @ [0xFF1F])
       then (Some (Mcp_deleteServer (target_server serverId (Some server))), p\<lparr>dp_mutations := mcp_run False False (dp_mutations p)\<rparr>)
       else (None, p))"

definition detail_delete_settled :: "nat \<Rightarrow> thrown + 'r \<Rightarrow> 'r mcp_detail_page \<Rightarrow> jstr option \<times> 'r mcp_detail_page" where
  \<comment> \<open>the list is fetched again; the navigation happens once it answered\<close>
  "detail_delete_settled i out p =
     (let q = p\<lparr>dp_mutations := mcp_continue i (Action_Settled out) (dp_mutations p)\<rparr>
      in case out of Inl e \<Rightarrow> (None, q) | Inr r \<Rightarrow> (Some (str ''/mcp''), q\<lparr>dp_servers := useMcpServers_refetch (dp_servers q)\<rparr>))"

definition getNavigationNotice :: "string \<Rightarrow> json option \<Rightarrow> jstr option" where
  \<comment> \<open>the location's state, and the property that holds the notice\<close>
  "getNavigationNotice prop state = (case state of
     Some (JObj ob) \<Rightarrow> (case obj_get (str prop) ob of Some (JStr s) \<Rightarrow> if trim s \<noteq> [] then Some s else None | _ \<Rightarrow> None)
   | _ \<Rightarrow> None)"

datatype detail_part = Part_Notice jstr | Part_MutationError jstr | Part_Loading | Part_NotFound | Part_Content McpServerDetail

definition detail_page_view :: "json option \<Rightarrow> 'r mcp_detail_page \<Rightarrow> detail_part list" where
  "detail_page_view state p =
     (let d = r_state (dp_detail p); isLoading = (st_loading d \<and> st_data d = None) in
      (case getNavigationNotice ''mcpNotice'' state of None \<Rightarrow> [] | Some n \<Rightarrow> [Part_Notice n])
      @ (case getMcpErrorMessage (mut_error (dp_mutations p)) of Some (c # cs) \<Rightarrow> [Part_MutationError (c # cs)] | _ \<Rightarrow> [])
      @ (if isLoading then [Part_Loading] else [])
      @ (if isMcpNotFoundError (st_error d) \<and> \<not> isLoading then [Part_NotFound] else [])
      @ (case st_data d of None \<Rightarrow> [] | Some s \<Rightarrow> [Part_Content s]))"

definition mcp_created :: "McpServerDetail \<Rightarrow> jstr \<times> json" where
  \<comment> \<open>where the create page goes, and with which state\<close>
  "mcp_created created = (str ''/mcp/'' @ srv_id created, JObj [(str ''mcpNotice'', JStr (str ''MCP Server '' @ [0x5DF2, 0x521B, 0x5EFA, 0x3002]))])"

definition mcp_saved :: "jstr option \<Rightarrow> McpServerDetail option \<Rightarrow> jstr \<times> json" where
  "mcp_saved serverId server = (str ''/mcp/'' @ target_server serverId server,
     JObj [(str ''mcpNotice'', JStr (str ''MCP Server '' @ [0x914D, 0x7F6E, 0x5DF2, 0x4FDD, 0x5B58, 0x3002]))])"

subsection \<open>Properties\<close>

lemma includes_iff: "str_includes s p \<longleftrightarrow> (\<exists>a b. s = a @ p @ b)"
proof -
  have "str_includes s p \<longleftrightarrow> (\<exists>t. suffix t s \<and> (\<exists>b. t = p @ b))"
    unfolding str_includes_def list_ex_iff startsWith_iff set_suffixes_eq by blast
  then show ?thesis by (auto simp: suffix_def)
qed

lemma in_filteredServers:
  "server \<in> set (filteredServers lower q f data) \<longleftrightarrow> server \<in> set data \<and> (f = Filter_All \<or> f = Filter_Status (srv_runtime_status server))
     \<and> (\<exists>a b. lower (srv_name server) = a @ lower (trim q) @ b)"
proof -
  have "\<exists>a b. x = a @ [] @ b" for x :: jstr by (intro exI [of _ "[]"] exI [of _ x]) simp
  then show ?thesis by (auto simp: filteredServers_def Let_def includes_iff)
qed

lemma settled_run:
  assumes "mut_inv h" "mut_mounted h"
  shows "mcp_continue (mut_next h) (Action_Settled (Inr x)) (mcp_run False False h)
    = h\<lparr>mut_next := Suc (mut_next h), mut_error := None, mut_results := mut_results h @ [(mut_next h, Inr x)]\<rparr>"
proof -
  have "pendingCount h \<ge> 0" using assms by (simp add: mut_inv_def)
  with assms show ?thesis by (simp add: mutation_defs fresh_find)
qed

text \<open>A row action of the MCP list page, from any reachable state of its mutations. When its
  request succeeds the list is fetched again and no error is shown; when it fails the list is left
  as it was and the error is shown; a question that is not confirmed sends nothing and changes
  nothing.\<close>
theorem list_action_outcomes:
  assumes "mutations_reachable (\<lambda>(hook_cb, cb). mcp_run hook_cb cb) mcp_continue (lp_mutations p)" "mut_mounted (lp_mutations p)"
    and "list_page_act confirm sid a p = (m, q)" "i = mut_next (lp_mutations p)"
  shows "case m of
      Some mu \<Rightarrow> mu = action_mutation sid a
        \<and> list_page_settled i (Inr x) q = p\<lparr>lp_servers := useMcpServers_refetch (lp_servers p),
            lp_mutations := (lp_mutations p)\<lparr>mut_next := Suc i, mut_error := None, mut_results := mut_results (lp_mutations p) @ [(i, Inr x)]\<rparr>\<rparr>
        \<and> lp_servers (list_page_settled i (Inl e) q) = lp_servers p
        \<and> fst (list_page_view lower format (list_page_settled i (Inl e) q)) = nonempty (error_message (asError e))
    | None \<Rightarrow> q = p \<and> a \<in> {Act_Delete, Act_Restart}
        \<and> \<not> confirm (the (action_confirm (getServerName sid (st_data (r_state (lp_servers p)))) a))"
proof (cases m)
  case None
  with assms(3) show ?thesis by (auto simp: list_page_act_def action_confirm_def split: mcp_action.splits if_splits)
next
  case (Some mu)
  note inv = mcp_mut.reachable_mut_inv [OF assms(1)]
  have q: "q = p\<lparr>lp_mutations := mcp_run False False (lp_mutations p)\<rparr>" "mu = action_mutation sid a"
    using assms(3) Some by (auto simp: list_page_act_def split: option.splits if_splits)
  show ?thesis
    using settled_run [OF inv assms(2), of x] mcp_failed_request [OF inv assms(2), of e False False]
    by (simp add: Some q assms(4) list_page_settled_def list_page_view_def Let_def)
qed

theorem list_action_outcomes_witness:
  "fst (list_page_view id Some (list_page_settled 0 (Inl (Thrown_Value (str ''down'')))
     (snd (list_page_act (\<lambda>_. True) (str ''s1'') Act_Delete (list_page_init :: unit mcp_list_page))))) = Some (str ''down'')"
proof -
  let ?p = "list_page_init :: unit mcp_list_page"
  let ?r = "list_page_act (\<lambda>_. True) (str ''s1'') Act_Delete ?p"
  have "fst ?r = Some (Mcp_deleteServer (str ''s1''))" by (simp add: list_page_act_def action_confirm_def)
  moreover from this have "?r = (Some (Mcp_deleteServer (str ''s1'')), snd ?r)" by (metis prod.collapse)
  moreover have "mutations_reachable (\<lambda>(hook_cb, cb). mcp_run hook_cb cb) mcp_continue (lp_mutations ?p)" "mut_mounted (lp_mutations ?p)"
    "0 = mut_next (lp_mutations ?p)"
    by (simp_all add: list_page_init_def mutations_reachable.init) (simp_all add: mutations_init_def)
  ultimately show ?thesis
    using list_action_outcomes [of ?p "\<lambda>_. True" "str ''s1''" Act_Delete "Some (Mcp_deleteServer (str ''s1''))" "snd ?r" 0 "()" "Thrown_Value (str ''down'')" id Some]
    by (simp add: nonempty_def)
qed

lemma lifecycle_request:
  "postLifecycle sid w = Inr rq \<longleftrightarrow> (\<exists>u. buildServerUrl sid = Inr u \<and> rq = requestJson_request (u @ [47] @ str w) (post_init ''POST''))"
  by (auto simp: postLifecycle_def map_sum_Inr)

fun action_path :: "mcp_action \<Rightarrow> jstr" where
  "action_path Act_Start = str ''/start''"
| "action_path Act_Stop = str ''/stop''"
| "action_path Act_Restart = str ''/restart''"
| "action_path Act_Check = str ''/check''"
| "action_path Act_Delete = []"

lemma action_request:
  assumes "mcp_mutation_request (action_mutation sid a) = Inr rq"
  shows "\<exists>u. buildServerUrl sid = Inr u \<and> req_url rq = u @ action_path a
    \<and> init_method rq = Some (if a = Act_Delete then str ''DELETE'' else str ''POST'')"
proof (cases a)
  case Act_Delete
  then show ?thesis using assms by (auto simp: deleteMcpServer_def map_sum_Inr bare_delete_def)
qed (use assms in \<open>auto simp: startMcpServer_def stopMcpServer_def restartMcpServer_def checkMcpServer_def lifecycle_request
      requestJson_request_def post_init_def str_def\<close>)

text \<open>From a click in the menu to the request. An action item of a server's menu is offered
  only when the server's status allows it, and \<open>start\<close> never together with \<open>stop\<close>; clicking it
  closes the menu and, confirmed where the page asks, sends one request: a \<open>DELETE\<close> of the server's
  own URL for the deletion, a \<open>POST\<close> to the action's path below that URL for the others.\<close>
theorem menu_click_sends_request:
  assumes "item \<in> set (visible_items status sid)" "handleItemClick item mn = (Some a, mn')"
    and "list_page_act confirm sid a p = (Some mu, q)" "mcp_mutation_request mu = Inr rq"
  shows "\<not> mn_open mn'
    \<and> (a = Act_Start \<longrightarrow> canStart status \<and> \<not> canStop status) \<and> (a = Act_Stop \<longrightarrow> canStop status \<and> \<not> canStart status)
    \<and> (a \<in> {Act_Delete, Act_Restart} \<longrightarrow> confirm (the (action_confirm (getServerName sid (st_data (r_state (lp_servers p)))) a)))
    \<and> (\<exists>u. buildServerUrl sid = Inr u \<and> req_url rq = u @ action_path a
        \<and> init_method rq = Some (if a = Act_Delete then str ''DELETE'' else str ''POST''))"
proof -
  have "mi_kind item = Action a" "mn' = menu_close mn"
    using assms(2) by (auto simp: handleItemClick_def split: item_kind.splits)
  moreover from this have "(a = Act_Start \<longrightarrow> canStart status) \<and> (a = Act_Stop \<longrightarrow> canStop status)"
    using assms(1) by (auto simp: visible_items_def menu_items_def split: if_splits)
  moreover have "mu = action_mutation sid a" "a \<in> {Act_Delete, Act_Restart} \<longrightarrow>
      confirm (the (action_confirm (getServerName sid (st_data (r_state (lp_servers p)))) a))"
    using assms(3) by (auto simp: list_page_act_def action_confirm_def split: option.splits if_splits mcp_action.splits)
  ultimately show ?thesis
    using action_request [of sid a rq] assms(4) by (auto simp: menu_close_def canStart_def canStop_def)
qed

theorem menu_click_sends_request_witness:
  "\<exists>u. buildServerUrl (str ''s1'') = Inr u
     \<and> map_sum id req_url (mcp_mutation_request (Mcp_stopServer (str ''s1''))) = Inr (u @ str ''/stop'')"
proof -
  let ?item = "\<lparr>mi_id = str ''stop'', mi_label = [0x505C, 0x6B62], mi_kind = Action Act_Stop, mi_destructive = False\<rparr>"
  have "buildServerUrl (str ''s1'') = Inr (str ''/api/mcp/servers/s1'')" by code_simp
  then obtain rq where rq: "mcp_mutation_request (Mcp_stopServer (str ''s1'')) = Inr rq"
    by (simp add: stopMcpServer_def postLifecycle_def)
  moreover have "?item \<in> set (visible_items Rt_Running (str ''s1''))"
    by (simp add: visible_items_def menu_items_def canStop_def canStart_def)
  moreover have "handleItemClick ?item menu_init = (Some Act_Stop, menu_close menu_init)" by (simp add: handleItemClick_def)
  moreover have "list_page_act (\<lambda>_. False) (str ''s1'') Act_Stop (list_page_init :: unit mcp_list_page)
      = (Some (Mcp_stopServer (str ''s1'')), snd (list_page_act (\<lambda>_. False) (str ''s1'') Act_Stop (list_page_init :: unit mcp_list_page)))"
    by (simp add: list_page_act_def action_confirm_def)
  ultimately have "\<exists>u. buildServerUrl (str ''s1'') = Inr u \<and> req_url rq = u @ action_path Act_Stop"
    using menu_click_sends_request [of ?item Rt_Running "str ''s1''" menu_init Act_Stop "menu_close menu_init" "\<lambda>_. False"
      "list_page_init :: unit mcp_list_page" "Mcp_stopServer (str ''s1'')"] by fastforce
  then show ?thesis using rq by auto
qed

text \<open>A detail request that fails with any status but 404 leaves the detail page with nothing on
  it: its error is not among the parts the page shows.\<close>
lemma detail_page_blank_on_error:
  assumes "mountedRef (dp_detail p)" "r_pending (dp_detail p) = [requestIdRef (dp_detail p)]"
    and "getErrorStatus (asError e) \<noteq> Some 404" "mut_error (dp_mutations p) = None"
  shows "detail_page_view None (p\<lparr>dp_detail := useMcpServerDetail_response (requestIdRef (dp_detail p)) (Inl e) (dp_detail p)\<rparr>) = []"
  using assms by (simp add: detail_page_view_def useMcpServerDetail_response_def async_response_def response_state_def
    Let_def getNavigationNotice_def getMcpErrorMessage_def isMcpNotFoundError_def)

end
