(* ===== verification/McpForm.thy ===== *)
theory McpForm
  imports KeyValue DataTypes
begin

text \<open>
  The MCP server form, \<open>features/mcp/components/McpServerForm.tsx\<close>: its fields, loading a server
  into them, validation, and the payload it submits, with the handling of redacted secrets. The
  URL parser of the platform is an argument: it gives the protocol of a valid URL.
\<close>

subsection \<open>The form\<close>

datatype form_mode = Mode_Create | Mode_Edit | Mode_View

record mcp_form =
  mf_name :: jstr
  mf_transport :: McpTransport
  mf_command :: jstr
  mf_url :: jstr
  mf_argsText :: jstr
  mf_envText :: jstr
  mf_headersText :: jstr
  mf_enabled :: bool
  mf_desiredState :: McpDesiredState
  mf_fieldErrors :: "jstr js_obj"
  mf_focus :: "jstr option" \<comment> \<open>the input focused last\<close>

definition REDACTED_VALUE :: jstr where
  "REDACTED_VALUE = str ''********''"

definition mcp_form_reset :: "mcp_form \<Rightarrow> mcp_form" where
  "mcp_form_reset f = \<lparr>mf_name = [], mf_transport = Stdio, mf_command = [], mf_url = [], mf_argsText = [],
     mf_envText = [], mf_headersText = [], mf_enabled = False, mf_desiredState = Desired_Stopped,
     mf_fieldErrors = [], mf_focus = mf_focus f\<rparr>"

definition mcp_form_load :: "form_mode \<Rightarrow> McpServerDetail option \<Rightarrow> mcp_form \<Rightarrow> mcp_form" where
  "mcp_form_load mode server f =
     (case server of
        Some srv \<Rightarrow>
          if mode = Mode_Edit \<or> mode = Mode_View
          then \<lparr>mf_name = srv_name srv, mf_transport = srv_transport srv,
                mf_command = orElse (srv_command srv) [], mf_url = orElse (srv_url srv) [],
                mf_argsText = argsToText (srv_args srv),
                mf_envText = keyValueMapToText (srv_env srv),
                mf_headersText = keyValueMapToText (srv_headers srv),
                mf_enabled = srv_enabled srv, mf_desiredState = srv_desired_state srv,
                mf_fieldErrors = [], mf_focus = mf_focus f\<rparr>
          else mcp_form_reset f
      | None \<Rightarrow> mcp_form_reset f)"

definition mcp_focus_effect :: "form_mode \<Rightarrow> mcp_form \<Rightarrow> mcp_form" where
  "mcp_focus_effect mode f = (if mode = Mode_Create then f\<lparr>mf_focus := Some (str ''name'')\<rparr> else f)"

definition isValidHttpUrl :: "(jstr \<Rightarrow> jstr option) \<Rightarrow> jstr \<Rightarrow> bool" where
  "isValidHttpUrl url_protocol value =
     (case url_protocol value of
        None \<Rightarrow> False
      | Some protocol \<Rightarrow> protocol = str ''http:'' \<or> protocol = str ''https:'')"

definition fail_field :: "string \<Rightarrow> jstr \<Rightarrow> bool \<Rightarrow> mcp_form \<Rightarrow> bool \<times> mcp_form" where
  "fail_field field msg focus f =
     (False, f\<lparr>mf_fieldErrors := [(str field, msg)], mf_focus := (if focus then Some (str field) else mf_focus f)\<rparr>)"

definition validateForm :: "(jstr \<Rightarrow> jstr option) \<Rightarrow> mcp_form \<Rightarrow> bool \<times> mcp_form" where
  "validateForm url_protocol f =
     (if trim (mf_name f) = []
      then fail_field ''name'' [0x8BF7, 0x586B, 0x5199, 0x670D, 0x52A1, 0x540D, 0x79F0, 0x3002] True f
      else if mf_transport f = Stdio \<and> length (trim (mf_command f)) = 0
      then fail_field ''command'' (str ''stdio '' @ [0x6A21, 0x5F0F, 0x9700, 0x8981, 0x586B, 0x5199] @ str '' command'' @ [0x3002]) True f
      else
        let nextUrl = trim (mf_url f) in
        if mf_transport f = Http \<and> length nextUrl = 0
        then fail_field ''url'' (str ''http '' @ [0x6A21, 0x5F0F, 0x9700, 0x8981, 0x586B, 0x5199] @ str '' url'' @ [0x3002]) True f
        else if mf_transport f = Http \<and> \<not> isValidHttpUrl url_protocol nextUrl
        then fail_field ''url'' ([0x8BF7, 0x586B, 0x5199, 0x6709, 0x6548, 0x7684] @ str '' http url'' @ [0x3002]) True f
        else case kv_error (mcp_parseKeyValueText (str ''env'') (mf_envText f)) of
          Some e \<Rightarrow> fail_field ''env'' e False f
        | None \<Rightarrow> (case kv_error (mcp_parseKeyValueText (str ''headers'') (mf_headersText f)) of
              Some e \<Rightarrow> fail_field ''headers'' e False f
            | None \<Rightarrow> (True, f\<lparr>mf_fieldErrors := []\<rparr>)))"

definition hasRedactedValue :: "jstr js_obj \<Rightarrow> bool" where
  "hasRedactedValue value \<longleftrightarrow> list_ex (\<lambda>v. v = REDACTED_VALUE) (obj_values value)"

definition shouldOmitRedactedField :: "jstr \<Rightarrow> jstr js_obj \<Rightarrow> bool" where
  "shouldOmitRedactedField currentText original \<longleftrightarrow>
     hasRedactedValue original \<and> currentText = keyValueMapToText original"

definition hasUnsafeRedactedPlaceholder :: "jstr \<Rightarrow> jstr js_obj \<Rightarrow> jstr js_obj \<Rightarrow> bool" where
  "hasUnsafeRedactedPlaceholder currentText parsed original \<longleftrightarrow>
     \<not> shouldOmitRedactedField currentText original \<and>
     list_ex (\<lambda>(k, v). v = REDACTED_VALUE \<and> obj_get k original = Some REDACTED_VALUE) parsed"

datatype mcp_submit = Submit_Nothing | Submit_Create McpServerCreate | Submit_Update jstr McpServerUpdate

definition mcp_create_payload :: "mcp_form \<Rightarrow> jstr js_obj \<Rightarrow> jstr js_obj \<Rightarrow> McpServerCreate" where
  "mcp_create_payload f env headers =
     \<lparr>mc_name = trim (mf_name f), mc_transport = mf_transport f,
      mc_command = (if mf_transport f = Stdio then Some (nonempty (trim (mf_command f))) else None),
      mc_args = Some (parseArgsText (mf_argsText f)), mc_env = Some env,
      mc_url = (if mf_transport f = Stdio then None else Some (nonempty (trim (mf_url f)))),
      mc_headers = Some headers, mc_enabled = Some (mf_enabled f),
      mc_desired_state = Some (mf_desiredState f)\<rparr>"

definition mcp_update_payload ::
  "mcp_form \<Rightarrow> McpServerDetail \<Rightarrow> jstr js_obj \<Rightarrow> jstr js_obj \<Rightarrow> McpServerUpdate" where
  "mcp_update_payload f server env headers =
     \<lparr>mu_name = Some (Some (trim (mf_name f))),
      mu_command = Some (if mf_transport f = Stdio then nonempty (trim (mf_command f)) else None),
      mu_args = Some (parseArgsText (mf_argsText f)),
      mu_env = (if shouldOmitRedactedField (mf_envText f) (srv_env server) then None else Some env),
      mu_url = Some (if mf_transport f = Stdio then None else nonempty (trim (mf_url f))),
      mu_headers = (if shouldOmitRedactedField (mf_headersText f) (srv_headers server) then None else Some headers),
      mu_enabled = Some (mf_enabled f), mu_desired_state = Some (mf_desiredState f)\<rparr>"

definition redacted_message :: jstr where
  "redacted_message = [0x8131, 0x654F, 0x503C] @ str '' ******** '' @ [0x9700, 0x8981, 0x66FF, 0x6362, 0x4E3A, 0x65B0, 0x503C, 0xFF0C, 0x6216, 0x4FDD, 0x6301, 0x8BE5, 0x533A, 0x57DF, 0x4E0D, 0x53D8, 0x3002]"

definition mcp_handleSubmit ::
  "(jstr \<Rightarrow> jstr option) \<Rightarrow> form_mode \<Rightarrow> McpServerDetail option \<Rightarrow> mcp_form \<Rightarrow> mcp_submit \<times> mcp_form" where
  "mcp_handleSubmit url_protocol mode server f =
     (if mode = Mode_View then (Submit_Nothing, f)
      else
        let (valid, f') = validateForm url_protocol f in
        if \<not> valid then (Submit_Nothing, f')
        else
          let env = kv_value (mcp_parseKeyValueText (str ''env'') (mf_envText f));
              headers = kv_value (mcp_parseKeyValueText (str ''headers'') (mf_headersText f))
          in if mode = Mode_Create then (Submit_Create (mcp_create_payload f env headers), f')
             else case server of
               None \<Rightarrow> (Submit_Nothing, f')
             | Some srv \<Rightarrow>
                 if hasUnsafeRedactedPlaceholder (mf_envText f) env (srv_env srv)
                    \<or> hasUnsafeRedactedPlaceholder (mf_headersText f) headers (srv_headers srv)
                 then (Submit_Nothing, f'\<lparr>mf_fieldErrors := [(str ''_global'', redacted_message)]\<rparr>)
                 else (Submit_Update (srv_id srv) (mcp_update_payload f srv env headers), f'))"

definition clearFieldError :: "jstr \<Rightarrow> mcp_form \<Rightarrow> mcp_form" where
  "clearFieldError field f =
     (if orElse (obj_get field (mf_fieldErrors f)) [] = [] then f
      else f\<lparr>mf_fieldErrors := obj_remove field (mf_fieldErrors f)\<rparr>)"

subsubsection \<open>Editing\<close>

definition mcp_set_name :: "jstr \<Rightarrow> mcp_form \<Rightarrow> mcp_form" where
  "mcp_set_name v f = clearFieldError (str ''name'') (f\<lparr>mf_name := v\<rparr>)"

definition mcp_set_transport :: "form_mode \<Rightarrow> McpTransport \<Rightarrow> mcp_form \<Rightarrow> mcp_form" where
  \<comment> \<open>the selector is disabled unless the mode is "create"\<close>
  "mcp_set_transport mode v f = (if mode = Mode_Create then f\<lparr>mf_transport := v\<rparr> else f)"

definition mcp_set_command :: "jstr \<Rightarrow> mcp_form \<Rightarrow> mcp_form" where
  "mcp_set_command v f = clearFieldError (str ''command'') (f\<lparr>mf_command := v\<rparr>)"

definition mcp_set_url :: "jstr \<Rightarrow> mcp_form \<Rightarrow> mcp_form" where
  "mcp_set_url v f = clearFieldError (str ''url'') (f\<lparr>mf_url := v\<rparr>)"

definition mcp_set_env :: "jstr \<Rightarrow> mcp_form \<Rightarrow> mcp_form" where
  "mcp_set_env v f = clearFieldError (str ''env'') (f\<lparr>mf_envText := v\<rparr>)"

definition mcp_set_headers :: "jstr \<Rightarrow> mcp_form \<Rightarrow> mcp_form" where
  "mcp_set_headers v f = clearFieldError (str ''headers'') (f\<lparr>mf_headersText := v\<rparr>)"

definition mcp_set_running :: "bool \<Rightarrow> mcp_form \<Rightarrow> mcp_form" where
  "mcp_set_running checked f = f\<lparr>mf_desiredState := (if checked then Desired_Running else Desired_Stopped)\<rparr>"

subsection \<open>Facts\<close>

definition mcp_valid :: "(jstr \<Rightarrow> jstr option) \<Rightarrow> mcp_form \<Rightarrow> bool" where
  "mcp_valid up f \<longleftrightarrow> trim (mf_name f) \<noteq> []
     \<and> (mf_transport f = Stdio \<longrightarrow> trim (mf_command f) \<noteq> [])
     \<and> (mf_transport f = Http \<longrightarrow> trim (mf_url f) \<noteq> [] \<and> isValidHttpUrl up (trim (mf_url f)))
     \<and> kv_error (mcp_parseKeyValueText (str ''env'') (mf_envText f)) = None
     \<and> kv_error (mcp_parseKeyValueText (str ''headers'') (mf_headersText f)) = None"

lemma validate_valid: "mcp_valid up f \<Longrightarrow> validateForm up f = (True, f\<lparr>mf_fieldErrors := []\<rparr>)"
  by (cases "mf_transport f") (auto simp: mcp_valid_def validateForm_def Let_def)

lemma validate_invalid:
  assumes "\<not> mcp_valid up f"
  shows "\<exists>field msg focus. validateForm up f = fail_field field msg focus f"
proof (cases "mf_transport f")
  case Stdio
  with assms show ?thesis
    by (auto simp: mcp_valid_def validateForm_def Let_def split: option.split)
next
  case Http
  with assms show ?thesis
    by (auto simp: mcp_valid_def validateForm_def Let_def split: option.split)
qed

lemma submit_invalid:
  "\<not> mcp_valid up f \<Longrightarrow> mode \<noteq> Mode_View \<Longrightarrow> \<exists>field msg focus.
     mcp_handleSubmit up mode server f = (Submit_Nothing, snd (fail_field field msg focus f))"
proof -
  assume "\<not> mcp_valid up f" "mode \<noteq> Mode_View"
  moreover from this(1) obtain field msg focus where "validateForm up f = fail_field field msg focus f"
    using validate_invalid by blast
  moreover have "\<not> fst (fail_field field msg focus f)" by (simp add: fail_field_def)
  ultimately have "mcp_handleSubmit up mode server f = (Submit_Nothing, snd (fail_field field msg focus f))"
    by (simp add: mcp_handleSubmit_def split_def)
  then show ?thesis by blast
qed

lemma submit_create:
  "mcp_valid up f \<Longrightarrow> mcp_handleSubmit up Mode_Create server f =
     (Submit_Create (mcp_create_payload f (kv_value (mcp_parseKeyValueText (str ''env'') (mf_envText f)))
        (kv_value (mcp_parseKeyValueText (str ''headers'') (mf_headersText f)))), f\<lparr>mf_fieldErrors := []\<rparr>)"
  by (simp add: mcp_handleSubmit_def validate_valid)

lemma submit_update_cases:
  assumes "mcp_handleSubmit up Mode_Edit (Some srv) f = (Submit_Update i p, f')"
  defines "env \<equiv> kv_value (mcp_parseKeyValueText (str ''env'') (mf_envText f))"
    and "headers \<equiv> kv_value (mcp_parseKeyValueText (str ''headers'') (mf_headersText f))"
  shows "mcp_valid up f \<and> i = srv_id srv \<and> p = mcp_update_payload f srv env headers
    \<and> \<not> hasUnsafeRedactedPlaceholder (mf_envText f) env (srv_env srv)
    \<and> \<not> hasUnsafeRedactedPlaceholder (mf_headersText f) headers (srv_headers srv)"
proof -
  have v: "mcp_valid up f" using submit_invalid [of up f Mode_Edit "Some srv"] assms(1) by auto
  with assms(1) show ?thesis
    unfolding env_def headers_def
    by (auto simp: mcp_handleSubmit_def validate_valid Let_def split: if_splits)
qed

lemma unsafe_placeholder_get:
  assumes "obj_get k parsed = Some REDACTED_VALUE" "obj_get k original = Some REDACTED_VALUE"
    "\<not> shouldOmitRedactedField t original"
  shows "hasUnsafeRedactedPlaceholder t parsed original"
proof -
  have "(k, REDACTED_VALUE) \<in> set parsed" using assms(1) by (auto simp: obj_get_def dest: map_of_SomeD)
  with assms(2,3) show ?thesis by (auto simp: hasUnsafeRedactedPlaceholder_def list_ex_iff)
qed

lemma parse_loaded:
  "kv_ok ob \<Longrightarrow> kv_error (mcp_parseKeyValueText l (keyValueMapToText ob)) = None
     \<and> kv_value (mcp_parseKeyValueText l (keyValueMapToText ob)) = ob"
  by (simp add: mcp_round_trip)

definition server_ok :: "(jstr \<Rightarrow> jstr option) \<Rightarrow> McpServerDetail \<Rightarrow> bool" where
  \<comment> \<open>a server as the form itself would store it\<close>
  "server_ok up srv \<longleftrightarrow> trimmed (srv_name srv) \<and> srv_name srv \<noteq> [] \<and> lines_ok (srv_args srv)
     \<and> kv_ok (srv_env srv) \<and> kv_ok (srv_headers srv)
     \<and> (case srv_transport srv of
          Stdio \<Rightarrow> srv_url srv = None \<and> (\<exists>c. srv_command srv = Some c \<and> trimmed c \<and> c \<noteq> [])
        | Http \<Rightarrow> srv_command srv = None \<and> (\<exists>u. srv_url srv = Some u \<and> trimmed u \<and> u \<noteq> [] \<and> isValidHttpUrl up u))"

lemma loaded_valid: "server_ok up srv \<Longrightarrow> mcp_valid up (mcp_form_load Mode_Edit (Some srv) f)"
  by (cases "srv_transport srv")
    (auto simp: server_ok_def mcp_valid_def mcp_form_load_def parse_loaded trim_id)

subsection \<open>Properties\<close>

definition demo_form :: mcp_form where
  "demo_form = \<lparr>mf_name = str '' files '', mf_transport = Stdio, mf_command = str ''npx'', mf_url = [],
     mf_argsText = str ''-y'' @ [10] @ str '' server '', mf_envText = str ''TOKEN=abc'', mf_headersText = [],
     mf_enabled = True, mf_desiredState = Desired_Running, mf_fieldErrors = [], mf_focus = None\<rparr>"

definition demo_server :: McpServerDetail where
  "demo_server = \<lparr>srv_id = str ''m1'', srv_name = str ''files'', srv_transport = Stdio, srv_command = Some (str ''npx''),
     srv_args = [str ''-y''], srv_env = [(str ''TOKEN'', REDACTED_VALUE), (str ''MODE'', str ''x'')], srv_url = None,
     srv_headers = [(str ''H'', str ''1'')], srv_enabled = True, srv_desired_state = Desired_Running,
     srv_runtime_status = Rt_Running, srv_last_checked_at = None, srv_last_error = None, srv_tool_count = 0,
     srv_tools = []\<rparr>"

lemma demo_form_valid: "mcp_valid (\<lambda>_. None) demo_form"
  by code_simp

lemma demo_server_ok: "server_ok (\<lambda>_. None) demo_server"
proof -
  have "kv_ok (srv_env demo_server)" "kv_ok (srv_headers demo_server)" "lines_ok (srv_args demo_server)" by code_simp+
  moreover have "trimmed (str ''files'')" "trimmed (str ''npx'')" by code_simp+
  ultimately show ?thesis by (simp add: server_ok_def demo_server_def)
qed

text \<open>Submitting a new server calls \<open>onCreate\<close> exactly when the form is valid: a non-blank
  name, a command for stdio or an http(s) URL for http, and parsable environment and headers.
  The payload then has a trimmed non-empty name, exactly the connection field of its transport,
  trimmed and non-empty, well-formed maps and arguments; otherwise nothing is submitted and one
  field has an error.\<close>
theorem mcp_create_submits_iff_valid:
  "(if mcp_valid up f
    then \<exists>p. mcp_handleSubmit up Mode_Create server f = (Submit_Create p, f\<lparr>mf_fieldErrors := []\<rparr>)
      \<and> mc_name p = trim (mf_name f) \<and> mc_name p \<noteq> [] \<and> mc_transport p = mf_transport f
      \<and> (case mc_transport p of
           Stdio \<Rightarrow> mc_url p = None \<and> mc_command p = Some (Some (trim (mf_command f))) \<and> trim (mf_command f) \<noteq> []
         | Http \<Rightarrow> mc_command p = None \<and> mc_url p = Some (Some (trim (mf_url f))) \<and> isValidHttpUrl up (trim (mf_url f)))
      \<and> lines_ok (the (mc_args p)) \<and> kv_ok (the (mc_env p)) \<and> kv_ok (the (mc_headers p))
    else \<exists>field msg. mf_fieldErrors (snd (mcp_handleSubmit up Mode_Create server f)) = [(field, msg)]
      \<and> fst (mcp_handleSubmit up Mode_Create server f) = Submit_Nothing)"
proof (cases "mcp_valid up f")
  case True
  show ?thesis
    unfolding if_P [OF True] submit_create [OF True]
    using True mcp_parse_ok args_parse_ok
    by (cases "mf_transport f") (auto simp: mcp_create_payload_def mcp_valid_def nonempty_def)
next
  case False
  with submit_invalid [OF False, of Mode_Create server] show ?thesis by (auto simp: fail_field_def)
qed

text \<open>C16. Redacted secrets are not written back: in an update, no environment or header whose
  stored value is redacted is sent with the placeholder as its value.\<close>
theorem mcp_update_keeps_redacted_secrets:
  assumes "mcp_handleSubmit up Mode_Edit (Some srv) f = (Submit_Update i p, f')"
  shows "i = srv_id srv
    \<and> (\<forall>env k. mu_env p = Some env \<and> obj_get k (srv_env srv) = Some REDACTED_VALUE \<longrightarrow> obj_get k env \<noteq> Some REDACTED_VALUE)
    \<and> (\<forall>hs k. mu_headers p = Some hs \<and> obj_get k (srv_headers srv) = Some REDACTED_VALUE \<longrightarrow> obj_get k hs \<noteq> Some REDACTED_VALUE)"
  using submit_update_cases [OF assms] unsafe_placeholder_get
  by (auto simp: mcp_update_payload_def split: if_splits)

theorem mcp_update_keeps_redacted_secrets_witness:
  "\<exists>p f'. mcp_handleSubmit (\<lambda>_. None) Mode_Edit (Some demo_server)
      (mcp_set_env (str ''TOKEN=new'') (mcp_form_load Mode_Edit (Some demo_server) demo_form)) = (Submit_Update (str ''m1'') p, f')
     \<and> mu_env p = Some [(str ''TOKEN'', str ''new'')] \<and> obj_get (str ''TOKEN'') [(str ''TOKEN'', str ''new'')] \<noteq> Some REDACTED_VALUE"
proof -
  let ?r = "mcp_handleSubmit (\<lambda>_. None) Mode_Edit (Some demo_server)
      (mcp_set_env (str ''TOKEN=new'') (mcp_form_load Mode_Edit (Some demo_server) demo_form))"
  have "(case fst ?r of Submit_Update i p \<Rightarrow> Some (i, mu_env p) | _ \<Rightarrow> None) = Some (str ''m1'', Some [(str ''TOKEN'', str ''new'')])"
    by code_simp
  then obtain p f' where r: "?r = (Submit_Update (str ''m1'') p, f')" and p: "mu_env p = Some [(str ''TOKEN'', str ''new'')]"
    by (cases "fst ?r"; cases ?r) auto
  have "obj_get (str ''TOKEN'') (srv_env demo_server) = Some REDACTED_VALUE" by (simp add: demo_server_def obj_get_def)
  with mcp_update_keeps_redacted_secrets [OF r] p r show ?thesis by blast
qed



text \<open>A renamed key carries the placeholder: renaming a variable whose value is redacted
  passes the check, and the update stores the literal placeholder under the new name.\<close>
theorem mcp_renamed_key_stores_placeholder:
  "map_option (\<lambda>p. mu_env p)
     (case fst (mcp_handleSubmit (\<lambda>_. None) Mode_Edit (Some demo_server)
        (mcp_set_env (str ''TOKEN_2=********'') (mcp_form_load Mode_Edit (Some demo_server) demo_form))) of
        Submit_Update i p \<Rightarrow> Some p | _ \<Rightarrow> None)
   = Some (Some [(str ''TOKEN_2'', REDACTED_VALUE)])"
  by code_simp

end
