(* ===== verification/LlmForm.thy ===== *)
theory LlmForm
  imports McpForm
begin

text \<open>
  The LLM provider form, \<open>features/llmProviders/components/LlmProviderForm.tsx\<close>: its fields,
  loading a provider into them, the unsaved-changes check, validation and the submitted payload.
  The form's snapshot is its record of fields: \<open>JSON.stringify\<close> on a fixed list of string and
  boolean properties is injective, so comparing snapshots compares the fields.
\<close>

subsection \<open>The form\<close>

record llm_fields =
  lf_apiKey :: jstr
  lf_baseUrl :: jstr
  lf_clearApiKey :: bool
  lf_description :: jstr
  lf_displayName :: jstr
  lf_enabled :: bool
  lf_headersText :: jstr
  lf_modelsText :: jstr
  lf_providerType :: jstr
  lf_queryText :: jstr

record llm_form =
  lform :: llm_fields
  lf_error :: "jstr option"
  lf_fieldErrors :: "jstr js_obj"
  lf_snapshot :: llm_fields \<comment> \<open>\<open>initialSnapshotRef\<close>\<close>
  lf_focus :: "jstr option"

definition llm_blank_fields :: llm_fields where
  "llm_blank_fields = \<lparr>lf_apiKey = [], lf_baseUrl = [], lf_clearApiKey = False, lf_description = [],
     lf_displayName = [], lf_enabled = True, lf_headersText = [], lf_modelsText = [],
     lf_providerType = str ''openai'', lf_queryText = []\<rparr>"

definition llm_provider_fields :: "LlmProviderDetail \<Rightarrow> llm_fields" where
  "llm_provider_fields p = \<lparr>lf_apiKey = [], lf_baseUrl = orElse (prov_base_url p) [], lf_clearApiKey = False,
     lf_description = orElse (prov_description p) [], lf_displayName = prov_display_name p,
     lf_enabled = prov_enabled p, lf_headersText = keyValueMapToText (prov_default_headers p),
     lf_modelsText = modelsToText (prov_models p), lf_providerType = prov_provider_type p,
     lf_queryText = keyValueMapToText (prov_default_query p)\<rparr>"

definition llm_form_load :: "form_mode \<Rightarrow> LlmProviderDetail option \<Rightarrow> llm_form \<Rightarrow> llm_form" where
  "llm_form_load mode provider f =
     (let fs = (case provider of
            Some p \<Rightarrow> if mode = Mode_Edit \<or> mode = Mode_View then llm_provider_fields p else llm_blank_fields
          | None \<Rightarrow> llm_blank_fields)
      in f\<lparr>lform := fs, lf_error := None, lf_fieldErrors := [], lf_snapshot := fs\<rparr>)"

definition llm_dirty :: "form_mode \<Rightarrow> llm_form \<Rightarrow> bool" where
  "llm_dirty mode f \<longleftrightarrow> mode \<noteq> Mode_View \<and> lform f \<noteq> lf_snapshot f"

definition isSupportedProviderType :: "jstr \<Rightarrow> bool" where
  "isSupportedProviderType value \<longleftrightarrow> List.member LLM_PROVIDER_TYPES value"

definition llm_shouldOmitRedactedField :: "jstr \<Rightarrow> jstr js_obj \<Rightarrow> bool" where
  "llm_shouldOmitRedactedField text currentValue \<longleftrightarrow>
     List.member (obj_values currentValue) REDACTED_VALUE \<and> text = keyValueMapToText currentValue"

definition llm_hasUnsafeRedactedPlaceholder :: "jstr \<Rightarrow> jstr js_obj \<Rightarrow> jstr js_obj \<Rightarrow> bool" where
  "llm_hasUnsafeRedactedPlaceholder text parsedValue currentValue \<longleftrightarrow>
     List.member (obj_values parsedValue) REDACTED_VALUE \<and> \<not> llm_shouldOmitRedactedField text currentValue"

datatype llm_submit = LSubmit_Nothing | LSubmit_Create LlmProviderCreate | LSubmit_Update jstr LlmProviderUpdate

definition llm_fail :: "string \<Rightarrow> string \<Rightarrow> jstr \<Rightarrow> llm_form \<Rightarrow> llm_submit \<times> llm_form" where
  "llm_fail field focus msg f = (LSubmit_Nothing,
     f\<lparr>lf_fieldErrors := [(str field, msg)], lf_error := Some msg, lf_focus := Some (str focus)\<rparr>)"

definition llm_headers :: "llm_form \<Rightarrow> kv_result" where
  "llm_headers f = llm_parseKeyValueText (str ''Default Headers'') (lf_headersText (lform f))"

definition llm_query :: "llm_form \<Rightarrow> kv_result" where
  "llm_query f = llm_parseKeyValueText (str ''Default Query'') (lf_queryText (lform f))"

definition llm_create_payload :: "llm_form \<Rightarrow> LlmProviderCreate" where
  "llm_create_payload f =
     (let fs = lform f in
      \<lparr>lc_display_name = trim (lf_displayName fs), lc_description = Some (nonempty (trim (lf_description fs))),
       lc_provider_type = lf_providerType fs, lc_base_url = Some (nonempty (trim (lf_baseUrl fs))),
       lc_api_key = Some (nonempty (trim (lf_apiKey fs))),
       lc_default_headers = Some (kv_value (llm_headers f)), lc_default_query = Some (kv_value (llm_query f)),
       lc_models = Some (parseModelsText (lf_modelsText fs)), lc_enabled = Some (lf_enabled fs)\<rparr>)"

definition llm_update_payload :: "llm_form \<Rightarrow> LlmProviderDetail \<Rightarrow> LlmProviderUpdate" where
  "llm_update_payload f p =
     (let fs = lform f in
      \<lparr>lu_display_name = Some (Some (trim (lf_displayName fs))),
       lu_description = Some (nonempty (trim (lf_description fs))),
       lu_provider_type = Some (Some (lf_providerType fs)),
       lu_base_url = Some (nonempty (trim (lf_baseUrl fs))),
       lu_api_key = (if trim (lf_apiKey fs) \<noteq> [] then Some (Some (trim (lf_apiKey fs)))
                     else if lf_clearApiKey fs then Some None else None),
       lu_default_headers = (if llm_shouldOmitRedactedField (lf_headersText fs) (prov_default_headers p) then None
                             else Some (Some (kv_value (llm_headers f)))),
       lu_default_query = (if llm_shouldOmitRedactedField (lf_queryText fs) (prov_default_query p) then None
                           else Some (Some (kv_value (llm_query f)))),
       lu_models = Some (Some (parseModelsText (lf_modelsText fs))),
       lu_enabled = Some (Some (lf_enabled fs))\<rparr>)"

definition llm_handleSubmit ::
  "form_mode \<Rightarrow> LlmProviderDetail option \<Rightarrow> llm_form \<Rightarrow> llm_submit \<times> llm_form" where
  \<comment> \<open>up to the call of the handler; the snapshot is taken after it has returned (\<open>llm_submitted\<close>)\<close>
  "llm_handleSubmit mode provider form =
     (if mode = Mode_View then (LSubmit_Nothing, form)
      else
        let f = form\<lparr>lf_fieldErrors := []\<rparr>; fs = lform f in
        case kv_error (llm_headers f) of
          Some e \<Rightarrow> llm_fail ''defaultHeaders'' ''headers'' e f
        | None \<Rightarrow>
          (case kv_error (llm_query f) of
             Some e \<Rightarrow> llm_fail ''defaultQuery'' ''query'' e f
           | None \<Rightarrow>
               if trim (lf_displayName fs) = []
               then llm_fail ''displayName'' ''displayName'' (str ''Display Name '' @ [0x5FC5, 0x586B, 0x3002]) f
               else if \<not> isSupportedProviderType (lf_providerType fs)
               then llm_fail ''providerType'' ''providerType'' (str ''Provider Type '' @ [0x4E0D, 0x5728, 0x5F53, 0x524D]
                      @ str '' init_chat_model '' @ [0x652F, 0x6301, 0x5217, 0x8868, 0x4E2D, 0xFF0C, 0x8BF7, 0x91CD, 0x65B0, 0x9009, 0x62E9, 0x3002]) f
               else
                 let f1 = f\<lparr>lf_error := None\<rparr> in
                 if mode = Mode_Create then (LSubmit_Create (llm_create_payload f1), f1)
                 else case provider of
                   None \<Rightarrow> (LSubmit_Nothing, f1)
                 | Some p \<Rightarrow>
                     if llm_hasUnsafeRedactedPlaceholder (lf_headersText fs) (kv_value (llm_headers f)) (prov_default_headers p)
                        \<or> llm_hasUnsafeRedactedPlaceholder (lf_queryText fs) (kv_value (llm_query f)) (prov_default_query p)
                     then (LSubmit_Nothing, f1\<lparr>lf_error := Some redacted_message, lf_focus := Some (str ''headers'')\<rparr>)
                     else (LSubmit_Update (prov_id p) (llm_update_payload f1 p), f1)))"

definition llm_submitted :: "llm_fields \<Rightarrow> llm_form \<Rightarrow> llm_form" where
  \<comment> \<open>after \<open>onCreate\<close> or \<open>onUpdate\<close> resolved; \<open>fs\<close> are the fields at submission\<close>
  "llm_submitted fs f = f\<lparr>lf_snapshot := fs\<rparr>"

definition llm_handleCancel :: "form_mode \<Rightarrow> bool \<Rightarrow> llm_form \<Rightarrow> bool" where
  \<comment> \<open>whether \<open>onCancel\<close> is called, given the answer to the confirmation\<close>
  "llm_handleCancel mode confirmed f \<longleftrightarrow> \<not> (llm_dirty mode f \<and> \<not> confirmed)"

subsection \<open>Facts\<close>

definition llm_valid :: "llm_form \<Rightarrow> bool" where
  "llm_valid f \<longleftrightarrow> kv_error (llm_headers f) = None \<and> kv_error (llm_query f) = None
     \<and> trim (lf_displayName (lform f)) \<noteq> [] \<and> isSupportedProviderType (lf_providerType (lform f))"

lemma llm_parts_update [simp]:
  "llm_headers (f\<lparr>lf_fieldErrors := x\<rparr>) = llm_headers f" "llm_query (f\<lparr>lf_fieldErrors := x\<rparr>) = llm_query f"
  "llm_headers (f\<lparr>lf_error := y\<rparr>) = llm_headers f" "llm_query (f\<lparr>lf_error := y\<rparr>) = llm_query f"
  by (simp_all add: llm_headers_def llm_query_def)

lemma llm_payload_update [simp]:
  "llm_create_payload (f\<lparr>lf_fieldErrors := x, lf_error := y\<rparr>) = llm_create_payload f"
  "llm_update_payload (f\<lparr>lf_fieldErrors := x, lf_error := y\<rparr>) p = llm_update_payload f p"
  by (simp_all add: llm_create_payload_def llm_update_payload_def Let_def)

lemma llm_submit_invalid:
  assumes "\<not> llm_valid f" "mode \<noteq> Mode_View"
  shows "\<exists>field focus msg. llm_handleSubmit mode provider f = llm_fail field focus msg (f\<lparr>lf_fieldErrors := []\<rparr>)"
  using assms by (auto simp: llm_valid_def llm_handleSubmit_def Let_def split: option.split)

lemma llm_submit_create:
  "llm_valid f \<Longrightarrow> llm_handleSubmit Mode_Create provider f =
     (LSubmit_Create (llm_create_payload f), f\<lparr>lf_fieldErrors := [], lf_error := None\<rparr>)"
  by (simp add: llm_valid_def llm_handleSubmit_def Let_def)

lemma llm_submit_edit:
  "llm_valid f \<Longrightarrow> llm_handleSubmit Mode_Edit (Some p) f =
     (if llm_hasUnsafeRedactedPlaceholder (lf_headersText (lform f)) (kv_value (llm_headers f)) (prov_default_headers p)
         \<or> llm_hasUnsafeRedactedPlaceholder (lf_queryText (lform f)) (kv_value (llm_query f)) (prov_default_query p)
      then (LSubmit_Nothing, f\<lparr>lf_fieldErrors := [], lf_error := Some redacted_message, lf_focus := Some (str ''headers'')\<rparr>)
      else (LSubmit_Update (prov_id p) (llm_update_payload f p), f\<lparr>lf_fieldErrors := [], lf_error := None\<rparr>))"
  by (simp add: llm_valid_def llm_handleSubmit_def Let_def)

lemma llm_submit_update:
  assumes "llm_handleSubmit Mode_Edit (Some p) f = (LSubmit_Update i u, f')"
  shows "llm_valid f \<and> i = prov_id p \<and> u = llm_update_payload f p
    \<and> \<not> llm_hasUnsafeRedactedPlaceholder (lf_headersText (lform f)) (kv_value (llm_headers f)) (prov_default_headers p)
    \<and> \<not> llm_hasUnsafeRedactedPlaceholder (lf_queryText (lform f)) (kv_value (llm_query f)) (prov_default_query p)"
proof -
  have v: "llm_valid f" using llm_submit_invalid [of f Mode_Edit "Some p"] assms by (auto simp: llm_fail_def)
  with assms show ?thesis by (auto simp: llm_submit_edit split: if_splits)
qed

lemma llm_parse_ok: "kv_error (llm_parseKeyValueText l t) = None \<Longrightarrow> kv_ok (kv_value (llm_parseKeyValueText l t))"
  using llm_kv.parse_ok [of l t] by (simp add: kv_result_option_def)

definition provider_ok :: "LlmProviderDetail \<Rightarrow> bool" where
  "provider_ok p \<longleftrightarrow> trimmed (prov_display_name p) \<and> prov_display_name p \<noteq> []
     \<and> isSupportedProviderType (prov_provider_type p)
     \<and> (\<forall>d. prov_description p = Some d \<longrightarrow> trimmed d \<and> d \<noteq> [])
     \<and> (\<forall>u. prov_base_url p = Some u \<longrightarrow> trimmed u \<and> u \<noteq> [])
     \<and> kv_ok (prov_default_headers p) \<and> kv_ok (prov_default_query p) \<and> models_ok (prov_models p)"

lemma llm_loaded_form [simp]: "lform (llm_form_load Mode_Edit (Some p) f) = llm_provider_fields p"
  by (simp add: llm_form_load_def Let_def)

lemma llm_loaded_parts:
  assumes "provider_ok p"
  shows "kv_error (llm_headers (llm_form_load Mode_Edit (Some p) f)) = None"
    "kv_value (llm_headers (llm_form_load Mode_Edit (Some p) f)) = prov_default_headers p"
    "kv_error (llm_query (llm_form_load Mode_Edit (Some p) f)) = None"
    "kv_value (llm_query (llm_form_load Mode_Edit (Some p) f)) = prov_default_query p"
  using assms llm_round_trip
  by (simp_all add: provider_ok_def llm_headers_def llm_query_def) (simp_all add: llm_provider_fields_def)

lemma llm_loaded_valid: "provider_ok p \<Longrightarrow> llm_valid (llm_form_load Mode_Edit (Some p) f)"
  using llm_loaded_parts [of p f]
  by (simp add: llm_valid_def provider_ok_def llm_provider_fields_def trim_id)

lemma loaded_placeholder_safe: "\<not> llm_hasUnsafeRedactedPlaceholder (keyValueMapToText ob) ob ob"
  by (simp add: llm_hasUnsafeRedactedPlaceholder_def llm_shouldOmitRedactedField_def)

lemma orElse_nonempty: "(\<forall>d. x = Some d \<longrightarrow> trimmed d \<and> d \<noteq> []) \<Longrightarrow> nonempty (trim (orElse x [])) = x"
  by (cases x) (auto simp: trim_id nonempty_def, simp add: trim_def)

subsection \<open>Properties\<close>

definition demo_provider :: LlmProviderDetail where
  "demo_provider = \<lparr>prov_id = str ''p1'', prov_display_name = str ''OpenAI'', prov_description = None,
     prov_provider_type = str ''openai'', prov_base_url = Some (str ''https://x/v1''),
     prov_default_headers = [(str ''Auth'', REDACTED_VALUE)], prov_default_query = [],
     prov_models = [str ''gpt-5''], prov_enabled = True, prov_created_at = [], prov_updated_at = [],
     prov_api_key_configured = True\<rparr>"

definition demo_llm_form :: llm_form where
  "demo_llm_form = \<lparr>lform = llm_blank_fields, lf_error = None, lf_fieldErrors = [], lf_snapshot = llm_blank_fields, lf_focus = None\<rparr>"

lemma demo_provider_ok: "provider_ok demo_provider"
proof -
  have "kv_ok (prov_default_headers demo_provider)" "kv_ok (prov_default_query demo_provider)"
    "models_ok (prov_models demo_provider)" "isSupportedProviderType (prov_provider_type demo_provider)"
    "trimmed (str ''OpenAI'')" "trimmed (str ''https://x/v1'')" by code_simp+
  then show ?thesis by (simp add: provider_ok_def demo_provider_def)
qed

text \<open>Submitting a new provider calls \<open>onCreate\<close> exactly when the form is valid (parsable
  headers and query, a non-blank display name, a supported provider type); the payload is then
  trimmed, well formed and of a supported type. Otherwise nothing is submitted, one field and the
  form show the same error.\<close>
theorem llm_create_submits_iff_valid:
  "(if llm_valid f
    then \<exists>p f'. llm_handleSubmit Mode_Create provider f = (LSubmit_Create p, f') \<and> lf_error f' = None
      \<and> lc_display_name p = trim (lf_displayName (lform f)) \<and> lc_display_name p \<noteq> []
      \<and> List.member LLM_PROVIDER_TYPES (lc_provider_type p)
      \<and> kv_ok (the (lc_default_headers p)) \<and> kv_ok (the (lc_default_query p)) \<and> models_ok (the (lc_models p))
    else \<exists>field msg. fst (llm_handleSubmit Mode_Create provider f) = LSubmit_Nothing
      \<and> lf_fieldErrors (snd (llm_handleSubmit Mode_Create provider f)) = [(field, msg)]
      \<and> lf_error (snd (llm_handleSubmit Mode_Create provider f)) = Some msg)"
proof (cases "llm_valid f")
  case True
  then have "kv_ok (kv_value (llm_headers f))" "kv_ok (kv_value (llm_query f))"
    by (simp_all add: llm_valid_def llm_headers_def llm_query_def llm_parse_ok)
  with True models_parse_ok show ?thesis
    by (simp add: llm_submit_create llm_create_payload_def Let_def llm_valid_def isSupportedProviderType_def)
next
  case False
  with llm_submit_invalid [OF False, of Mode_Create provider] show ?thesis by (auto simp: llm_fail_def)
qed

text \<open>C19. The provider form never sends the placeholder: an update contains no header and no
  query parameter whose value is the redaction placeholder, under any key.\<close>
theorem llm_update_never_sends_placeholder:
  assumes "llm_handleSubmit Mode_Edit (Some p) f = (LSubmit_Update i u, f')"
  shows "(\<forall>hs. lu_default_headers u = Some (Some hs) \<longrightarrow> REDACTED_VALUE \<notin> set (obj_values hs))
    \<and> (\<forall>qs. lu_default_query u = Some (Some qs) \<longrightarrow> REDACTED_VALUE \<notin> set (obj_values qs))"
  using llm_submit_update [OF assms]
  by (auto simp: llm_update_payload_def Let_def llm_hasUnsafeRedactedPlaceholder_def split: if_splits)

definition demo_llm_edit :: llm_form where
  "demo_llm_edit = (let f = llm_form_load Mode_Edit (Some demo_provider) demo_llm_form
     in f\<lparr>lform := (lform f)\<lparr>lf_headersText := str ''Auth=secret''\<rparr>\<rparr>)"

theorem llm_update_never_sends_placeholder_witness:
  "\<exists>u f'. llm_handleSubmit Mode_Edit (Some demo_provider) demo_llm_edit = (LSubmit_Update (str ''p1'') u, f')
     \<and> lu_default_headers u = Some (Some [(str ''Auth'', str ''secret'')])
     \<and> REDACTED_VALUE \<notin> set (obj_values [(str ''Auth'', str ''secret'')])"
proof -
  let ?r = "llm_handleSubmit Mode_Edit (Some demo_provider) demo_llm_edit"
  have "(case fst ?r of LSubmit_Update i u \<Rightarrow> Some (i, lu_default_headers u) | _ \<Rightarrow> None)
      = Some (str ''p1'', Some (Some [(str ''Auth'', str ''secret'')]))" by code_simp
  then obtain u f' where r: "?r = (LSubmit_Update (str ''p1'') u, f')" and u: "lu_default_headers u = Some (Some [(str ''Auth'', str ''secret'')])"
    by (cases "fst ?r"; cases ?r) auto
  with llm_update_never_sends_placeholder [OF r] show ?thesis by blast
qed

text \<open>Saving a provider that was opened and not changed preserves it: every field is sent as
  stored, maps with redacted values are left out, and the stored API key is not touched. Opening a
  form never marks it dirty, and after a save that resolved it is clean.\<close>
theorem llm_unchanged_edit_is_identity:
  fixes f0 :: llm_form
  assumes "provider_ok p"
  defines "f \<equiv> llm_form_load Mode_Edit (Some p) f0"
  shows "\<exists>u f'. llm_handleSubmit Mode_Edit (Some p) f = (LSubmit_Update (prov_id p) u, f')
    \<and> u = \<lparr>lu_display_name = Some (Some (prov_display_name p)), lu_description = Some (prov_description p),
           lu_provider_type = Some (Some (prov_provider_type p)), lu_base_url = Some (prov_base_url p),
           lu_api_key = None,
           lu_default_headers = (if REDACTED_VALUE \<in> set (obj_values (prov_default_headers p)) then None else Some (Some (prov_default_headers p))),
           lu_default_query = (if REDACTED_VALUE \<in> set (obj_values (prov_default_query p)) then None else Some (Some (prov_default_query p))),
           lu_models = Some (Some (prov_models p)), lu_enabled = Some (Some (prov_enabled p))\<rparr>
    \<and> \<not> llm_dirty Mode_Edit f \<and> \<not> llm_dirty Mode_Edit (llm_submitted (lform f') f')"
proof -
  have fields: "lform f = llm_provider_fields p" by (simp add: f_def)
  have parts: "kv_value (llm_headers f) = prov_default_headers p" "kv_value (llm_query f) = prov_default_query p"
    unfolding f_def using llm_loaded_parts [OF assms(1)] by simp_all
  have texts: "lf_headersText (lform f) = keyValueMapToText (prov_default_headers p)"
    "lf_queryText (lform f) = keyValueMapToText (prov_default_query p)"
    by (simp_all add: fields llm_provider_fields_def)
  have sub: "llm_handleSubmit Mode_Edit (Some p) f = (LSubmit_Update (prov_id p) (llm_update_payload f p), f\<lparr>lf_fieldErrors := [], lf_error := None\<rparr>)"
    using llm_submit_edit [OF llm_loaded_valid [OF assms(1), of f0], of p] loaded_placeholder_safe
    unfolding f_def [symmetric] parts texts by simp
  have "trim (prov_display_name p) = prov_display_name p" "parseModelsText (modelsToText (prov_models p)) = prov_models p"
    "nonempty (trim (orElse (prov_description p) [])) = prov_description p"
    "nonempty (trim (orElse (prov_base_url p) [])) = prov_base_url p"
    using assms(1) by (simp_all add: provider_ok_def trim_id models_round_trip orElse_nonempty)
  then have "llm_update_payload f p = \<lparr>lu_display_name = Some (Some (prov_display_name p)), lu_description = Some (prov_description p),
           lu_provider_type = Some (Some (prov_provider_type p)), lu_base_url = Some (prov_base_url p), lu_api_key = None,
           lu_default_headers = (if REDACTED_VALUE \<in> set (obj_values (prov_default_headers p)) then None else Some (Some (prov_default_headers p))),
           lu_default_query = (if REDACTED_VALUE \<in> set (obj_values (prov_default_query p)) then None else Some (Some (prov_default_query p))),
           lu_models = Some (Some (prov_models p)), lu_enabled = Some (Some (prov_enabled p))\<rparr>"
    by (simp add: llm_update_payload_def Let_def parts texts llm_shouldOmitRedactedField_def)
      (simp add: fields llm_provider_fields_def trim_def)
  moreover have "\<not> llm_dirty Mode_Edit f" by (simp add: f_def llm_dirty_def llm_form_load_def Let_def)
  ultimately show ?thesis using sub by (simp add: llm_dirty_def llm_submitted_def)
qed

theorem llm_unchanged_edit_is_identity_witness:
  "\<exists>u f'. llm_handleSubmit Mode_Edit (Some demo_provider) (llm_form_load Mode_Edit (Some demo_provider) demo_llm_form)
       = (LSubmit_Update (str ''p1'') u, f')
     \<and> lu_default_headers u = None \<and> lu_models u = Some (Some [str ''gpt-5''])"
proof -
  have "prov_id demo_provider = str ''p1''" "prov_models demo_provider = [str ''gpt-5'']"
    "REDACTED_VALUE \<in> set (obj_values (prov_default_headers demo_provider))"
    by (simp_all add: demo_provider_def obj_values_def)
  then show ?thesis using llm_unchanged_edit_is_identity [OF demo_provider_ok, of demo_llm_form] by auto
qed

end
