(* ===== verification/AgentForm.thy ===== *)
theory AgentForm
  imports KeyValue DataTypes McpForm
begin

text \<open>
  The agent form, \<open>features/agents/components/AgentForm.tsx\<close>: its fields, loading an agent, the
  two effects that pick a default provider and model, the availability checks that block saving,
  and the submitted payload. The provider list and its loading flag are the form's props.
\<close>

subsection \<open>The form\<close>

datatype ModelSource = Source_CodeAgent | Source_Provider

record agent_props =
  ap_mode :: form_mode \<comment> \<open>create or edit\<close>
  ap_agent :: "AgentDetail option"
  ap_providers :: "LlmProviderSummary list"
  ap_providersLoading :: bool

record agent_form =
  af_displayName :: jstr
  af_description :: jstr
  af_systemPrompt :: jstr
  af_modelSource :: ModelSource
  af_codeAgentModel :: jstr
  af_providerId :: jstr
  af_providerModel :: jstr
  af_enabled :: bool
  af_error :: "jstr option"
  af_errorField :: "jstr option"
  af_promptEditing :: bool \<comment> \<open>\<open>systemPromptView === "edit"\<close>\<close>

definition DEFAULT_CODEAGENT_MODEL :: jstr where
  "DEFAULT_CODEAGENT_MODEL = hd CODEAGENT_MODEL_OPTIONS"

definition DEFAULT_SYSTEM_PROMPT :: jstr where
  "DEFAULT_SYSTEM_PROMPT = [0x4F60, 0x662F, 0x8C28, 0x614E, 0x7684, 0x53D8, 0x66F4, 0x8D28, 0x91CF, 0x8BC4, 0x5BA1, 0x52A9, 0x624B, 0x3002, 0x8BF7, 0x57FA, 0x4E8E, 0x4E8B, 0x5B9E, 0x5BA1, 0x67E5, 0x8F93, 0x5165, 0x5185, 0x5BB9, 0xFF0C, 0x6307, 0x51FA, 0x98CE, 0x9669, 0x3001, 0x7F3A, 0x53E3, 0x548C, 0x53EF, 0x6267, 0x884C, 0x7684, 0x6574, 0x6539, 0x5EFA, 0x8BAE, 0x3002]"

definition agent_form_init :: "form_mode \<Rightarrow> agent_form" where
  "agent_form_init mode = \<lparr>af_displayName = [], af_description = [], af_systemPrompt = DEFAULT_SYSTEM_PROMPT,
     af_modelSource = Source_CodeAgent, af_codeAgentModel = DEFAULT_CODEAGENT_MODEL, af_providerId = [],
     af_providerModel = [], af_enabled = True, af_error = None, af_errorField = None,
     af_promptEditing = (mode \<noteq> Mode_Edit)\<rparr>"

definition draft_provider :: "AgentDraftConfig option \<Rightarrow> jstr" where
  \<comment> \<open>\<open>draft?.provider_id ?? ""\<close>\<close>
  "draft_provider d = orElse (Option.bind d dr_provider_id) []"

definition agent_form_load :: "form_mode \<Rightarrow> AgentDetail option \<Rightarrow> agent_form \<Rightarrow> agent_form" where
  "agent_form_load mode agent f =
     (let f0 = f\<lparr>af_error := None, af_errorField := None\<rparr> in
      case agent of
        Some a \<Rightarrow>
          if mode = Mode_Edit then
            (let draft = ag_draft a; has_provider = draft_provider draft \<noteq> [] in
             f0\<lparr>af_displayName := ag_display_name a, af_description := orElse (ag_description a) [],
                af_systemPrompt := orElse (map_option dr_system_prompt draft) [],
                af_enabled := ag_enabled a,
                af_modelSource := (if has_provider then Source_Provider else Source_CodeAgent),
                af_codeAgentModel := (if has_provider then DEFAULT_CODEAGENT_MODEL
                  else orElse (map_option dr_model draft) DEFAULT_CODEAGENT_MODEL),
                af_providerId := draft_provider draft,
                af_providerModel := (if has_provider then orElse (map_option dr_model draft) [] else [])\<rparr>)
          else f0\<lparr>af_displayName := [], af_description := [], af_systemPrompt := DEFAULT_SYSTEM_PROMPT,
                af_enabled := True, af_modelSource := Source_CodeAgent,
                af_codeAgentModel := DEFAULT_CODEAGENT_MODEL, af_providerId := [], af_providerModel := []\<rparr>
      | None \<Rightarrow> f0\<lparr>af_displayName := [], af_description := [], af_systemPrompt := DEFAULT_SYSTEM_PROMPT,
                af_enabled := True, af_modelSource := Source_CodeAgent,
                af_codeAgentModel := DEFAULT_CODEAGENT_MODEL, af_providerId := [], af_providerModel := []\<rparr>)"

subsubsection \<open>Derived values\<close>

definition enabledProviders :: "agent_props \<Rightarrow> LlmProviderSummary list" where
  "enabledProviders ps = filter prov_enabled (ap_providers ps)"

definition selectedProvider :: "agent_props \<Rightarrow> agent_form \<Rightarrow> LlmProviderSummary option" where
  "selectedProvider ps f = find (\<lambda>p. prov_id p = af_providerId f) (enabledProviders ps)"

definition selectedProviderModels :: "agent_props \<Rightarrow> agent_form \<Rightarrow> jstr list" where
  "selectedProviderModels ps f = orElse (map_option prov_models (selectedProvider ps f)) []"

definition unavailableCodeAgentModel :: "agent_props \<Rightarrow> agent_form \<Rightarrow> bool" where
  "unavailableCodeAgentModel ps f \<longleftrightarrow> ap_mode ps = Mode_Edit \<and> af_modelSource f = Source_CodeAgent
     \<and> af_codeAgentModel f \<noteq> [] \<and> \<not> List.member CODEAGENT_MODEL_OPTIONS (af_codeAgentModel f)"

definition unavailableDraftProvider :: "agent_props \<Rightarrow> agent_form \<Rightarrow> bool" where
  "unavailableDraftProvider ps f \<longleftrightarrow> ap_mode ps = Mode_Edit \<and> af_modelSource f = Source_Provider
     \<and> \<not> ap_providersLoading ps \<and> af_providerId f \<noteq> [] \<and> selectedProvider ps f = None"

definition unavailableProviderModel :: "agent_props \<Rightarrow> agent_form \<Rightarrow> bool" where
  "unavailableProviderModel ps f \<longleftrightarrow> ap_mode ps = Mode_Edit \<and> af_modelSource f = Source_Provider
     \<and> selectedProvider ps f \<noteq> None \<and> af_providerModel f \<noteq> [] \<and> 0 < length (selectedProviderModels ps f)
     \<and> \<not> List.member (selectedProviderModels ps f) (af_providerModel f)"

definition providerSaveBlocked :: "agent_props \<Rightarrow> agent_form \<Rightarrow> bool" where
  "providerSaveBlocked ps f \<longleftrightarrow> af_modelSource f = Source_Provider
     \<and> (ap_providersLoading ps \<or> unavailableDraftProvider ps f \<or> selectedProvider ps f = None
        \<or> length (selectedProviderModels ps f) = 0)"

definition saveBlocked :: "agent_props \<Rightarrow> agent_form \<Rightarrow> bool" where
  "saveBlocked ps f \<longleftrightarrow> providerSaveBlocked ps f \<or> (unavailableCodeAgentModel ps f \<or> unavailableProviderModel ps f)"

definition showProviderModelsMessage :: "agent_props \<Rightarrow> agent_form \<Rightarrow> bool" where
  "showProviderModelsMessage ps f \<longleftrightarrow> af_modelSource f = Source_Provider \<and> \<not> ap_providersLoading ps
     \<and> selectedProvider ps f \<noteq> None \<and> length (selectedProviderModels ps f) = 0"

subsubsection \<open>Effects and handlers\<close>

definition default_provider_effect :: "agent_props \<Rightarrow> agent_form \<Rightarrow> agent_form" where
  "default_provider_effect ps f =
     (if af_modelSource f \<noteq> Source_Provider \<or> length (enabledProviders ps) = 0 then f
      else if af_providerId f \<noteq> [] then f
      else f\<lparr>af_providerId := prov_id (hd (enabledProviders ps))\<rparr>)"

definition default_model_effect :: "agent_props \<Rightarrow> agent_form \<Rightarrow> agent_form" where
  "default_model_effect ps f =
     (case selectedProvider ps f of
        None \<Rightarrow> f
      | Some p \<Rightarrow>
          if af_modelSource f \<noteq> Source_Provider \<or> length (prov_models p) = 0 \<or> af_providerModel f \<noteq> [] then f
          else f\<lparr>af_providerModel := hd (prov_models p)\<rparr>)"

definition choose_provider :: "agent_props \<Rightarrow> jstr \<Rightarrow> agent_form \<Rightarrow> agent_form" where
  "choose_provider ps nextProviderId f =
     (let nextProvider = find (\<lambda>p. prov_id p = nextProviderId) (enabledProviders ps);
          models = orElse (map_option prov_models nextProvider) []
      in f\<lparr>af_providerId := nextProviderId, af_providerModel := (if models = [] then [] else hd models)\<rparr>)"

definition toggle_prompt_view :: "agent_form \<Rightarrow> agent_form" where
  "toggle_prompt_view f = f\<lparr>af_promptEditing := \<not> af_promptEditing f\<rparr>"

definition buildAgentDraftPayload :: "agent_form \<Rightarrow> AgentDraftConfig" where
  "buildAgentDraftPayload f =
     (let selectedModel = (if af_modelSource f = Source_Provider then af_providerModel f else af_codeAgentModel f)
      in \<lparr>dr_system_prompt = trim (af_systemPrompt f), dr_model = trim selectedModel,
          dr_provider_id = (if af_modelSource f = Source_Provider then Some (trim (af_providerId f)) else None),
          dr_model_config = [], dr_tool_allowlist = [], dr_mcp_server_ids = []\<rparr>)"

datatype agent_submit = ASubmit_Nothing | ASubmit_Create AgentCreate | ASubmit_Update jstr AgentDraftUpdate

definition agent_handleSubmit :: "agent_props \<Rightarrow> agent_form \<Rightarrow> agent_submit \<times> agent_form" where
  "agent_handleSubmit ps form =
     (let f = form\<lparr>af_error := None, af_errorField := None\<rparr> in
      if trim (af_displayName f) = []
      then (ASubmit_Nothing, f\<lparr>af_error := Some (str ''Agent '' @ [0x540D, 0x79F0, 0x5FC5, 0x586B, 0x3002]),
              af_errorField := Some (str ''display_name'')\<rparr>)
      else if trim (af_systemPrompt f) = []
      then (ASubmit_Nothing, f\<lparr>af_error := Some [0x7CFB, 0x7EDF, 0x63D0, 0x793A, 0x8BCD, 0x5FC5, 0x586B, 0x3002],
              af_errorField := Some (str ''system_prompt''), af_promptEditing := True\<rparr>)
      else if saveBlocked ps f then (ASubmit_Nothing, f)
      else
        let draft = buildAgentDraftPayload f in
        if ap_mode ps = Mode_Create
        then (ASubmit_Create \<lparr>ac_display_name = trim (af_displayName f),
                ac_description = Some (nonempty (trim (af_description f))), ac_draft = draft\<rparr>, f)
        else case ap_agent ps of
          None \<Rightarrow> (ASubmit_Nothing, f)
        | Some a \<Rightarrow> (ASubmit_Update (ag_id a) \<lparr>au_display_name = Some (Some (trim (af_displayName f))),
              au_description = Some (nonempty (trim (af_description f))), au_enabled = Some (Some (af_enabled f)),
              au_draft = Some (Some draft)\<rparr>, f))"

subsection \<open>Facts\<close>

definition submitted_draft :: "agent_submit \<Rightarrow> AgentDraftConfig option" where
  "submitted_draft r = (case r of ASubmit_Nothing \<Rightarrow> None | ASubmit_Create c \<Rightarrow> Some (ac_draft c)
     | ASubmit_Update i u \<Rightarrow> Option.bind (au_draft u) id)"

lemma derived_error_updates [simp]:
  "selectedProvider ps (f\<lparr>af_error := x, af_errorField := y\<rparr>) = selectedProvider ps f"
  "saveBlocked ps (f\<lparr>af_error := x, af_errorField := y\<rparr>) = saveBlocked ps f"
  "buildAgentDraftPayload (f\<lparr>af_error := x, af_errorField := y\<rparr>) = buildAgentDraftPayload f"
  by (simp_all add: selectedProvider_def saveBlocked_def providerSaveBlocked_def unavailableCodeAgentModel_def
      unavailableProviderModel_def unavailableDraftProvider_def selectedProviderModels_def buildAgentDraftPayload_def)

lemma agent_submit_draft:
  assumes "submitted_draft (fst (agent_handleSubmit ps f)) = Some d"
  shows "d = buildAgentDraftPayload f \<and> trim (af_displayName f) \<noteq> [] \<and> trim (af_systemPrompt f) \<noteq> [] \<and> \<not> saveBlocked ps f"
  using assms by (auto simp: agent_handleSubmit_def Let_def submitted_draft_def split: if_splits option.splits)

lemma selectedProvider_Some:
  "selectedProvider ps f = Some p \<Longrightarrow> p \<in> set (ap_providers ps) \<and> prov_enabled p \<and> prov_id p = af_providerId f"
  by (auto simp: selectedProvider_def enabledProviders_def find_Some_iff dest: nth_mem)

lemma not_blocked_provider:
  assumes "\<not> saveBlocked ps f" "af_modelSource f = Source_Provider"
  obtains p where "selectedProvider ps f = Some p" "prov_models p \<noteq> []" "\<not> ap_providersLoading ps"
    "ap_mode ps = Mode_Edit \<Longrightarrow> af_providerModel f \<noteq> [] \<Longrightarrow> af_providerModel f \<in> set (prov_models p)"
  using assms
  by (auto simp: saveBlocked_def providerSaveBlocked_def unavailableProviderModel_def selectedProviderModels_def)

definition settle_defaults :: "agent_props \<Rightarrow> agent_form \<Rightarrow> agent_form" where
  "settle_defaults ps f = default_model_effect ps (default_provider_effect ps f)"

lemma settle_defaults_source [simp]: "af_modelSource (settle_defaults ps f) = af_modelSource f"
  by (auto simp: settle_defaults_def default_model_effect_def default_provider_effect_def split: option.split)

definition providers_ok :: "agent_props \<Rightarrow> bool" where
  "providers_ok ps \<longleftrightarrow> (\<forall>p \<in> set (ap_providers ps). prov_id p \<noteq> [] \<and> trimmed (prov_id p) \<and> lines_ok (prov_models p))"

lemma hd_enabled_selected:
  "enabledProviders ps \<noteq> [] \<Longrightarrow> af_providerId f = prov_id (hd (enabledProviders ps)) \<Longrightarrow>
     selectedProvider ps f = Some (hd (enabledProviders ps))"
  by (cases "enabledProviders ps") (simp_all add: selectedProvider_def)

lemma hd_enabled_in: "enabledProviders ps \<noteq> [] \<Longrightarrow> hd (enabledProviders ps) \<in> set (ap_providers ps)"
  using hd_in_set [of "enabledProviders ps"] by (simp add: enabledProviders_def)

lemma default_provider_idem:
  "providers_ok ps \<Longrightarrow> af_modelSource g = af_modelSource f \<Longrightarrow> af_providerId g = af_providerId (default_provider_effect ps f) \<Longrightarrow>
     default_provider_effect ps g = g"
  using hd_enabled_in [of ps] by (auto simp: default_provider_effect_def providers_ok_def)

lemma default_model_keeps:
  "af_providerId (default_model_effect ps f) = af_providerId f" "af_modelSource (default_model_effect ps f) = af_modelSource f"
  by (simp_all add: default_model_effect_def split: option.split)

lemma selectedProvider_cong: "af_providerId f = af_providerId g \<Longrightarrow> selectedProvider ps f = selectedProvider ps g"
  by (simp add: selectedProvider_def)

lemma model_names_ok: "providers_ok ps \<Longrightarrow> selectedProvider ps f = Some p \<Longrightarrow> m \<in> set (prov_models p) \<Longrightarrow> m \<noteq> [] \<and> trimmed m"
  using selectedProvider_Some [of ps f p] by (auto simp: providers_ok_def lines_ok_def text_ok_def)

lemma default_model_idem:
  assumes "providers_ok ps"
  shows "default_model_effect ps (default_model_effect ps f) = default_model_effect ps f"
proof (cases "selectedProvider ps f")
  case None
  then show ?thesis by (simp add: default_model_effect_def)
next
  case (Some p)
  then have same: "selectedProvider ps (default_model_effect ps f) = Some p"
    using selectedProvider_cong [of "default_model_effect ps f" f ps] default_model_keeps(1) by simp
  show ?thesis
  proof (cases "prov_models p = []")
    case True
    with Some show ?thesis by (simp add: default_model_effect_def)
  next
    case False
    then have "hd (prov_models p) \<noteq> []" using model_names_ok [OF assms Some] by (cases "prov_models p") auto
    with Some same show ?thesis by (auto simp: default_model_effect_def selectedProvider_def)
  qed
qed

lemma settle_defaults_idem: "providers_ok ps \<Longrightarrow> settle_defaults ps (settle_defaults ps f) = settle_defaults ps f"
proof -
  assume ok: "providers_ok ps"
  have "default_provider_effect ps (settle_defaults ps f) = settle_defaults ps f"
    by (rule default_provider_idem [OF ok, where f = f])
      (simp_all add: settle_defaults_def default_model_keeps default_provider_effect_def)
  then show ?thesis using default_model_idem [OF ok] by (simp add: settle_defaults_def)
qed

lemma settled_model:
  assumes "providers_ok ps" "settle_defaults ps f = f" "af_modelSource f = Source_Provider"
    "selectedProvider ps f = Some p" "prov_models p \<noteq> []"
  shows "af_providerModel f \<noteq> []"
proof
  assume empty: "af_providerModel f = []"
  have "default_provider_effect ps f = f"
    using selectedProvider_Some [OF assms(4)] assms(1) by (auto simp: default_provider_effect_def providers_ok_def)
  with assms(2) have same: "default_model_effect ps f = f" by (simp add: settle_defaults_def)
  have "af_providerModel (default_model_effect ps f) = hd (prov_models p)"
    using assms(3,4,5) empty by (simp add: default_model_effect_def)
  then have "af_providerModel f = hd (prov_models p)" unfolding same .
  with empty model_names_ok [OF assms(1,4)] assms(5) show False by (cases "prov_models p") auto
qed

subsection \<open>Properties\<close>


definition demo_agent_provider :: LlmProviderSummary where
  "demo_agent_provider = \<lparr>prov_id = str ''p1'', prov_display_name = str ''P'', prov_description = None,
     prov_provider_type = str ''openai'', prov_base_url = None, prov_default_headers = [], prov_default_query = [],
     prov_models = [str ''m1'', str ''m2''], prov_enabled = True, prov_created_at = [], prov_updated_at = [],
     prov_api_key_configured = True\<rparr>"

definition demo_draft :: AgentDraftConfig where
  "demo_draft = \<lparr>dr_system_prompt = str ''Review.'', dr_model = str ''m2'', dr_provider_id = Some (str ''p1''),
     dr_model_config = [], dr_tool_allowlist = [str ''search''], dr_mcp_server_ids = [str ''s1'']\<rparr>"

definition demo_agent :: AgentDetail where
  "demo_agent = \<lparr>ag_id = str ''a1'', ag_display_name = str ''Reviewer'', ag_description = None, ag_enabled = True,
     ag_has_draft = True, ag_latest_version = None, ag_created_at = [], ag_updated_at = [], ag_draft = Some demo_draft\<rparr>"

definition demo_props :: agent_props where
  "demo_props = \<lparr>ap_mode = Mode_Edit, ap_agent = Some demo_agent, ap_providers = [demo_agent_provider], ap_providersLoading = False\<rparr>"

definition demo_agent_form :: agent_form where
  "demo_agent_form = agent_form_load Mode_Edit (Some demo_agent) (agent_form_init Mode_Edit)"

lemma demo_providers_ok: "providers_ok demo_props"
  by code_simp


text \<open>What is saved is usable: from a settled form, a submitted draft has a non-empty trimmed
  prompt; with an LLM provider it names an enabled provider of the list and a non-empty model,
  which in edit mode is one of that provider's models; with CodeAgent it names no provider and in
  edit mode a model that is empty or offered.\<close>
theorem agent_submits_usable_model:
  assumes "providers_ok ps" "settle_defaults ps f = f"
    and "submitted_draft (fst (agent_handleSubmit ps f)) = Some d"
  shows "dr_system_prompt d \<noteq> [] \<and> trimmed (dr_system_prompt d)
    \<and> (case af_modelSource f of
         Source_Provider \<Rightarrow> \<exists>p. List.member (ap_providers ps) p \<and> prov_enabled p \<and> dr_provider_id d = Some (prov_id p)
           \<and> \<not> ap_providersLoading ps
           \<and> (if ap_mode ps = Mode_Edit then List.member (prov_models p) (dr_model d) else af_providerModel f \<noteq> [])
       | Source_CodeAgent \<Rightarrow> dr_provider_id d = None
           \<and> (if ap_mode ps = Mode_Edit then af_codeAgentModel f = [] \<or> List.member CODEAGENT_MODEL_OPTIONS (af_codeAgentModel f) else True))"
proof -
  note d = agent_submit_draft [OF assms(3)]
  have prompt: "dr_system_prompt d \<noteq> [] \<and> trimmed (dr_system_prompt d)"
    using d by (simp add: buildAgentDraftPayload_def)
  show ?thesis
  proof (cases "af_modelSource f")
    case Source_CodeAgent
    with prompt d show ?thesis
      by (auto simp: buildAgentDraftPayload_def saveBlocked_def unavailableCodeAgentModel_def)
  next
    case Source_Provider
    from d have "\<not> saveBlocked ps f" by blast
    then obtain p where p: "selectedProvider ps f = Some p" "prov_models p \<noteq> []" "\<not> ap_providersLoading ps"
      "ap_mode ps = Mode_Edit \<Longrightarrow> af_providerModel f \<noteq> [] \<Longrightarrow> af_providerModel f \<in> set (prov_models p)"
      using not_blocked_provider Source_Provider by metis
    have model: "af_providerModel f \<noteq> []" using settled_model assms(1,2) Source_Provider p(1,2) by blast
    have id: "p \<in> set (ap_providers ps)" "prov_enabled p" "prov_id p = af_providerId f" "trim (prov_id p) = prov_id p"
      using selectedProvider_Some [OF p(1)] assms(1) by (auto simp: providers_ok_def trim_id)
    have "ap_mode ps = Mode_Edit \<Longrightarrow> trim (af_providerModel f) = af_providerModel f"
      using model_names_ok [OF assms(1) p(1)] p(4) model by (simp add: trim_id)
    with prompt d id p(3,4) model Source_Provider show ?thesis
      by (auto simp: buildAgentDraftPayload_def)
  qed
qed

theorem agent_submits_usable_model_witness:
  "\<exists>d. submitted_draft (fst (agent_handleSubmit demo_props demo_agent_form)) = Some d \<and> dr_provider_id d = Some (str ''p1'')
     \<and> (\<exists>p. List.member (ap_providers demo_props) p \<and> List.member (prov_models p) (dr_model d))"
proof -
  have s: "settle_defaults demo_props demo_agent_form = demo_agent_form" by code_simp
  have "map_option (\<lambda>d. (dr_provider_id d, dr_model d)) (submitted_draft (fst (agent_handleSubmit demo_props demo_agent_form)))
      = Some (Some (str ''p1''), str ''m2'')" by code_simp
  then obtain d where d: "submitted_draft (fst (agent_handleSubmit demo_props demo_agent_form)) = Some d" "dr_provider_id d = Some (str ''p1'')"
    by auto
  have "af_modelSource demo_agent_form = Source_Provider" "ap_mode demo_props = Mode_Edit" by code_simp+
  with agent_submits_usable_model [OF demo_providers_ok s d(1)] d show ?thesis by auto
qed

text \<open>Saving an agent resets its tools: an edit form that was opened and not changed submits a
  draft with the stored prompt, provider and model but with an empty tool allowlist, no MCP servers
  and an empty model configuration, whatever the stored draft had.\<close>
theorem agent_edit_resets_tools:
  assumes "submitted_draft (fst (agent_handleSubmit ps (agent_form_load Mode_Edit (Some a) f))) = Some d" "ag_draft a = Some old"
  shows "dr_system_prompt d = trim (dr_system_prompt old) \<and> dr_model d = trim (dr_model old)
    \<and> orElse (dr_provider_id d) [] = trim (orElse (dr_provider_id old) [])
    \<and> dr_tool_allowlist d = [] \<and> dr_mcp_server_ids d = [] \<and> dr_model_config d = []"
  using agent_submit_draft [OF assms(1)] assms(2)
  by (auto simp: buildAgentDraftPayload_def agent_form_load_def Let_def draft_provider_def trim_def)

theorem agent_edit_resets_tools_witness:
  "dr_tool_allowlist demo_draft = [str ''search''] \<and>
   (\<exists>d. submitted_draft (fst (agent_handleSubmit demo_props demo_agent_form)) = Some d \<and> dr_tool_allowlist d = [])"
proof -
  have "submitted_draft (fst (agent_handleSubmit demo_props demo_agent_form)) \<noteq> None" by code_simp
  then obtain d where d: "submitted_draft (fst (agent_handleSubmit demo_props demo_agent_form)) = Some d" by auto
  have "ag_draft demo_agent = Some demo_draft" by (simp add: demo_agent_def)
  with agent_edit_resets_tools [OF d [unfolded demo_agent_form_def]] d show ?thesis by (auto simp: demo_draft_def)
qed

end
