(* ===== verification/CatalogPages.thy ===== *)
theory CatalogPages
  imports McpPages LlmForm AgentForm
begin

text \<open>
  The pages of LLM providers and agents (\<open>features/llmProviders\<close> and \<open>features/agents\<close>, \<open>components\<close>
  and \<open>pages\<close>): the tables and their filters, the provider's detail page with its model tests and its
  deletion, and where the form pages go after a save. What a page renders is a value of a view type,
  without the styling. \<open>toLowerCase\<close> and the formatting of dates are arguments.
\<close>

subsection \<open>The provider table\<close>

definition filteredProviders :: "(jstr \<Rightarrow> jstr) \<Rightarrow> jstr \<Rightarrow> LlmProviderSummary list \<Rightarrow> LlmProviderSummary list" where
  "filteredProviders lower searchText data =
     (let query = lower (trim searchText) in
      if query = [] then data
      else filter (\<lambda>p. str_includes (lower (prov_id p)) query \<or> str_includes (lower (prov_display_name p)) query
        \<or> str_includes (lower (prov_provider_type p)) query) data)"

record provider_row =
  pr_link :: jstr
  pr_name :: jstr
  pr_id :: jstr
  pr_type :: jstr
  pr_base_url :: jstr
  pr_key_label :: jstr
  pr_enabled_label :: jstr

definition provider_row_of :: "LlmProviderSummary \<Rightarrow> provider_row" where
  "provider_row_of p =
     \<lparr>pr_link = str ''/llm-providers/'' @ prov_id p, pr_name = prov_display_name p, pr_id = prov_id p, pr_type = prov_provider_type p,
      pr_base_url = orElse (prov_base_url p) ([0x9ED8, 0x8BA4] @ str '' LangChain provider endpoint''),
      pr_key_label = (if prov_api_key_configured p then [0x5DF2, 0x914D, 0x7F6E] else [0x672A, 0x914D, 0x7F6E]),
      pr_enabled_label = (if prov_enabled p then [0x5DF2, 0x542F, 0x7528] else [0x5DF2, 0x505C, 0x7528])\<rparr>"

definition error_body :: "bool \<Rightarrow> js_error option \<Rightarrow> 'a list \<Rightarrow> 'a table_body" where
  \<comment> \<open>\<open>error\<close> itself is the condition, so that an empty message still makes an alert\<close>
  "error_body loading error rows =
     (if loading then Body_Loading else case error of Some e \<Rightarrow> Body_Error (error_message e)
      | None \<Rightarrow> if rows = [] then Body_Empty else Body_Rows rows)"

definition LlmProviderTable :: "bool \<Rightarrow> js_error option \<Rightarrow> LlmProviderSummary list \<Rightarrow> provider_row table_body" where
  "LlmProviderTable loading error providers = map_table_body provider_row_of (error_body loading error providers)"

definition LlmProviderListPage_view :: "(jstr \<Rightarrow> jstr) \<Rightarrow> jstr \<Rightarrow> LlmProviderSummary list AsyncState \<Rightarrow> provider_row table_body" where
  "LlmProviderListPage_view lower searchText st =
     LlmProviderTable (st_loading st) (st_error st) (filteredProviders lower searchText (st_data st))"

subsection \<open>The agent table\<close>

definition resolveProviderDisplay :: "jstr option \<Rightarrow> LlmProviderSummary list \<Rightarrow> bool \<times> jstr" where
  \<comment> \<open>\<open>disabled\<close> and \<open>label\<close>\<close>
  "resolveProviderDisplay providerId providers = (case Option.bind providerId nonempty of
     None \<Rightarrow> (False, str ''CodeAgent'')
   | Some i \<Rightarrow> (case find (\<lambda>item. prov_id item = i) providers of
        None \<Rightarrow> (False, i)
      | Some p \<Rightarrow> (\<not> prov_enabled p, prov_display_name p)))"

definition formatAgentUpdatedAt :: "(jstr \<Rightarrow> jstr option) \<Rightarrow> jstr \<Rightarrow> jstr" where
  "formatAgentUpdatedAt format v = (if v = [] then str ''-'' else orElse (format v) v)"

record agent_row =
  rw_name :: jstr
  rw_id :: jstr
  rw_description :: "jstr option"
  rw_enabled_label :: jstr
  rw_model :: jstr
  rw_provider :: jstr
  rw_provider_disabled :: bool
  rw_draft_label :: jstr
  rw_updated :: jstr
  rw_edit_link :: jstr

definition unpublished :: jstr where
  "unpublished = [0x672A, 0x53D1, 0x5E03]"

definition AgentRow :: "(jstr \<Rightarrow> jstr option) \<Rightarrow> LlmProviderSummary list \<Rightarrow> AgentSummary \<Rightarrow> agent_row" where
  "AgentRow format providers agent =
     (let provider = (case ag_latest_version agent of
          Some v \<Rightarrow> resolveProviderDisplay (ver_provider_id v) providers | None \<Rightarrow> (False, unpublished))
      in \<lparr>rw_name = ag_display_name agent, rw_id = ag_id agent, rw_description = Option.bind (ag_description agent) nonempty,
          rw_enabled_label = (if ag_enabled agent then [0x5DF2, 0x542F, 0x7528] else [0x5DF2, 0x505C, 0x7528]),
          rw_model = (case ag_latest_version agent of Some v \<Rightarrow> ver_model v | None \<Rightarrow> unpublished),
          rw_provider = snd provider, rw_provider_disabled = fst provider,
          rw_draft_label = (if ag_has_draft agent then [0x6709] @ str '' Draft'' else [0x65E0] @ str '' Draft''),
          rw_updated = formatAgentUpdatedAt format (ag_updated_at agent),
          rw_edit_link = str ''/agents/'' @ ag_id agent @ str ''/edit''\<rparr>)"

definition AgentTable :: "(jstr \<Rightarrow> jstr option) \<Rightarrow> LlmProviderSummary list \<Rightarrow> bool \<Rightarrow> js_error option \<Rightarrow> AgentSummary list \<Rightarrow> agent_row table_body" where
  "AgentTable format providers loading error agents = map_table_body (AgentRow format providers) (error_body loading error agents)"

definition filteredAgents :: "(jstr \<Rightarrow> jstr) \<Rightarrow> jstr \<Rightarrow> AgentSummary list \<Rightarrow> AgentSummary list" where
  "filteredAgents lower searchText data =
     (let query = lower (trim searchText) in
      if query = [] then data
      else filter (\<lambda>a. let latestModel = (case ag_latest_version a of Some v \<Rightarrow> ver_model v | None \<Rightarrow> []) in
        str_includes (lower (ag_id a)) query \<or> str_includes (lower (ag_display_name a)) query
        \<or> str_includes (lower (orElse (ag_description a) [])) query \<or> str_includes (lower latestModel) query) data)"

definition AgentListPage_view ::
  "(jstr \<Rightarrow> jstr) \<Rightarrow> (jstr \<Rightarrow> jstr option) \<Rightarrow> jstr \<Rightarrow> AgentSummary list AsyncState \<Rightarrow> LlmProviderSummary list AsyncState \<Rightarrow> agent_row table_body" where
  "AgentListPage_view lower format searchText agents providers =
     AgentTable format (st_data providers) (st_loading agents \<or> st_loading providers)
       (case st_error agents of Some e \<Rightarrow> Some e | None \<Rightarrow> st_error providers)
       (filteredAgents lower searchText (st_data agents))"

subsection \<open>The provider's detail page\<close>

datatype llm_result = Res_Void | Res_Provider LlmProviderDetail | Res_Test LlmProviderModelTestResponse

record llm_detail_page =
  ld_detail :: "(jstr option, LlmProviderDetail option) resource"
  ld_mutations :: "llm_result mutations"
  ld_confirmingDelete :: bool
  ld_testResults :: "LlmProviderModelTestResponse js_obj"
  ld_pendingModel :: "jstr option"
  ld_tests :: "(nat \<times> jstr) list" \<comment> \<open>runs of \<open>testProviderModel\<close> awaited by \<open>handleTest\<close>\<close>

definition target_provider :: "jstr option \<Rightarrow> LlmProviderDetail option \<Rightarrow> jstr" where
  "target_provider providerId provider = (case provider of Some p \<Rightarrow> prov_id p | None \<Rightarrow> orElse providerId [])"

definition llm_ask_delete :: "bool \<Rightarrow> llm_detail_page \<Rightarrow> llm_detail_page" where
  "llm_ask_delete b p = p\<lparr>ld_confirmingDelete := b\<rparr>"

definition llm_handleDelete :: "jstr option \<Rightarrow> llm_detail_page \<Rightarrow> llm_mutation option \<times> llm_detail_page" where
  "llm_handleDelete providerId p = (case st_data (r_state (ld_detail p)) of
     None \<Rightarrow> (None, p)
   | Some provider \<Rightarrow> (Some (Llm_deleteProvider (target_provider providerId (Some provider))), p\<lparr>ld_mutations := llm_run False (ld_mutations p)\<rparr>))"

definition llm_delete_settled :: "nat \<Rightarrow> thrown + unit \<Rightarrow> llm_detail_page \<Rightarrow> jstr option \<times> llm_detail_page" where
  "llm_delete_settled i out p =
     ((case out of Inl _ \<Rightarrow> None | Inr _ \<Rightarrow> Some (str ''/llm-providers'')),
      p\<lparr>ld_mutations := llm_continue i (Action_Settled (map_sum id (\<lambda>_. Res_Void) out)) (ld_mutations p)\<rparr>)"

definition failed_test :: "thrown \<Rightarrow> LlmProviderModelTestResponse" where
  "failed_test e = \<lparr>mt_ok = False, mt_latency_ms = 0, mt_message = None, mt_error = Some (error_message (asError e)),
     mt_request = None, mt_response = None\<rparr>"

definition handleTest :: "jstr \<Rightarrow> llm_detail_page \<Rightarrow> llm_detail_page" where
  "handleTest model p = p\<lparr>ld_pendingModel := Some model, ld_tests := ld_tests p @ [(mut_next (ld_mutations p), model)],
     ld_mutations := llm_run False (ld_mutations p)\<rparr>"

definition click_test :: "jstr \<Rightarrow> llm_detail_page \<Rightarrow> llm_detail_page" where
  \<comment> \<open>the button of the pending model is disabled\<close>
  "click_test model p = (if ld_pendingModel p = Some model then p else handleTest model p)"

definition test_settled :: "nat \<Rightarrow> thrown + LlmProviderModelTestResponse \<Rightarrow> llm_detail_page \<Rightarrow> llm_detail_page" where
  "test_settled i out p = (case map_of (ld_tests p) i of
     None \<Rightarrow> p
   | Some model \<Rightarrow> p\<lparr>ld_tests := filter (\<lambda>t. fst t \<noteq> i) (ld_tests p),
       ld_mutations := llm_continue i (Action_Settled (map_sum id Res_Test out)) (ld_mutations p),
       ld_testResults := obj_set model (case out of Inl e \<Rightarrow> failed_test e | Inr r \<Rightarrow> r) (ld_testResults p),
       ld_pendingModel := None\<rparr>)"

definition responseContent :: "LlmProviderModelTestResponse \<Rightarrow> jstr" where
  "responseContent result = (case Option.bind (mt_response result) (\<lambda>r. json_str (obj_get (str ''content'') r)) of
     Some c \<Rightarrow> if trim c \<noteq> [] then c else orElse (mt_message result) []
   | None \<Rightarrow> orElse (mt_message result) [])"

definition ModelTestResult :: "LlmProviderModelTestResponse \<Rightarrow> jstr" where
  "ModelTestResult result =
     (if mt_ok result then [0x8FDE, 0x901A, 0x6210, 0x529F] @ str '' '' @ [0x00B7] @ str '' '' @ num_str (mt_latency_ms result) @ str ''ms''
      else [0x8FDE, 0x901A, 0x5931, 0x8D25] @ str '' '' @ [0x00B7] @ str '' '' @ num_str (mt_latency_ms result) @ str ''ms'' @ str '' ''
        @ [0x00B7] @ str '' '' @ orElse (mt_error result) (str ''unknown error''))"

record model_row =
  mrow_model :: jstr
  mrow_busy :: bool
  mrow_label :: jstr
  mrow_result :: "jstr option"
  mrow_content :: "jstr option"

definition ModelsPanel :: "jstr list \<Rightarrow> jstr option \<Rightarrow> LlmProviderModelTestResponse js_obj \<Rightarrow> model_row list" where
  "ModelsPanel models pendingModel results = map (\<lambda>model.
     \<lparr>mrow_model = model, mrow_busy = (pendingModel = Some model),
      mrow_label = (if pendingModel = Some model then [0x6D4B, 0x8BD5, 0x4E2D] @ str '' '' @ model else [0x6D4B, 0x8BD5] @ str '' '' @ model),
      mrow_result = map_option ModelTestResult (obj_get model results),
      mrow_content = Option.bind (obj_get model results) (\<lambda>r. nonempty (responseContent r))\<rparr>) models"

definition delete_button_label :: "llm_detail_page \<Rightarrow> jstr" where
  "delete_button_label p = (if mut_pending (ld_mutations p) then [0x5220, 0x9664, 0x4E2D, 0x2026] else [0x5220, 0x9664])"

subsection \<open>After a save\<close>

definition llm_created :: "LlmProviderDetail \<Rightarrow> jstr \<times> json" where
  "llm_created created = (str ''/llm-providers/'' @ prov_id created,
     JObj [(str ''llmProviderNotice'', JStr (str ''LLM Provider '' @ [0x5DF2, 0x521B, 0x5EFA, 0x3002]))])"

definition llm_saved :: "jstr option \<Rightarrow> LlmProviderDetail option \<Rightarrow> jstr \<times> json" where
  "llm_saved providerId provider = (str ''/llm-providers/'' @ target_provider providerId provider,
     JObj [(str ''llmProviderNotice'', JStr (str ''LLM Provider '' @ [0x5DF2, 0x4FDD, 0x5B58, 0x3002]))])"

definition agent_created :: "jstr \<times> json" where
  "agent_created = (str ''/agents'', JObj [(str ''agentNotice'', JStr (str ''Agent '' @ [0x5DF2, 0x521B, 0x5EFA, 0x3002]))])"

definition agent_saved :: "jstr \<times> json" where
  "agent_saved = (str ''/agents'', JObj [(str ''agentNotice'', JStr (str ''Agent '' @ [0x5DF2, 0x4FDD, 0x5B58, 0x3002]))])"

subsection \<open>Properties\<close>

lemma includes_empty [simp]: "str_includes x []"
  unfolding includes_iff by (intro exI [of _ "[]"] exI [of _ x]) simp

lemma infix_in: "(\<exists>a b. a @ q @ b \<in> insert x X) \<longleftrightarrow> str_includes x q \<or> (\<exists>a b. a @ q @ b \<in> X)"
  unfolding includes_iff by blast


text \<open>When a model test ends, the panel shows its outcome for that model, a failed request as a
  failed test with the error's message, and for every other model what it showed before, whatever
  other tests are running.\<close>
theorem model_test_is_recorded:
  assumes "map_of (ld_tests p) i = Some m" "k \<in> set models"
  shows "map_of (map (\<lambda>r. (mrow_model r, mrow_result r)) (ModelsPanel models x (ld_testResults (test_settled i out p)))) k
    = Some (if k = m then Some (ModelTestResult (case out of Inl e \<Rightarrow> failed_test e | Inr r \<Rightarrow> r))
            else map_option ModelTestResult (obj_get k (ld_testResults p)))"
proof -
  have "map_of (map (\<lambda>r. (mrow_model r, mrow_result r)) (ModelsPanel models x rs)) k = Some (map_option ModelTestResult (obj_get k rs))" for rs
    using assms(2) by (simp add: ModelsPanel_def comp_def map_of_map_restrict)
  then show ?thesis using assms(1) by (simp add: test_settled_def)
qed

definition demo_llm_page :: llm_detail_page where
  "demo_llm_page = \<lparr>ld_detail = useLlmProviderDetail_mount (Some (str ''p'')), ld_mutations = mutations_init, ld_confirmingDelete = False,
     ld_testResults = [], ld_pendingModel = None, ld_tests = []\<rparr>"

theorem model_test_is_recorded_witness:
  "obj_get (str ''m'') (ld_testResults (test_settled 0 (Inl (Thrown_Value (str ''down''))) (click_test (str ''m'') demo_llm_page)))
     = Some (failed_test (Thrown_Value (str ''down'')))
   \<and> map_of (map (\<lambda>r. (mrow_model r, mrow_result r)) (ModelsPanel [str ''m''] None
      (ld_testResults (test_settled 0 (Inl (Thrown_Value (str ''down''))) (click_test (str ''m'') demo_llm_page))))) (str ''m'')
     = Some (Some (ModelTestResult (failed_test (Thrown_Value (str ''down'')))))"
proof -
  have t: "map_of (ld_tests (click_test (str ''m'') demo_llm_page)) 0 = Some (str ''m'')"
    by (simp add: click_test_def handleTest_def demo_llm_page_def mutations_init_def)
  then show ?thesis
    using model_test_is_recorded [OF t, where k = "str ''m''" and models = "[str ''m'']" and x = None and out = "Inl (Thrown_Value (str ''down''))"]
    by (simp add: test_settled_def)
qed

text \<open>The end of one test clears the marker of another: a model is then no longer shown as being
  tested although its test is awaited, and can be tested again.\<close>
lemma test_end_clears_other_marker:
  assumes "m \<noteq> n"
  shows "let p = test_settled 0 out (click_test n (click_test m demo_llm_page))
    in ld_tests p = [(1, n)] \<and> ld_pendingModel p = None \<and> ld_tests (click_test n p) = [(1, n), (2, n)]"
  using assms by (cases out) (simp_all add: demo_llm_page_def mutations_init_def click_test_def handleTest_def test_settled_def mutation_defs Let_def)

text \<open>A test of a model is shown as a deletion in progress.\<close>
lemma test_shown_as_deletion:
  "delete_button_label (click_test m demo_llm_page) = [0x5220, 0x9664, 0x4E2D, 0x2026]"
  by (simp add: delete_button_label_def demo_llm_page_def mutations_init_def click_test_def handleTest_def mutation_defs mut_pending_def)

end
