(* ===== verification/FormViews.thy ===== *)
theory FormViews
  imports Api LlmForm AgentForm
begin

text \<open>
  What the three configuration forms show: \<open>McpServerForm.tsx\<close>, \<open>LlmProviderForm.tsx\<close> and
  \<open>AgentForm.tsx\<close>. A form is rendered as the list of its controls (an input, text area or select with
  its value, whether it can be edited, and its error), its alert and its buttons; class names and
  layout are left out. The properties relate what is shown to what a submission does: a refused
  submission is explained on the screen, and a selector shows the value that is submitted.
\<close>

subsection \<open>Controls\<close>

record select_option =
  so_value :: jstr
  so_label :: jstr
  so_disabled :: bool

record form_control =
  fc_name :: jstr
  fc_label :: jstr
  fc_required :: bool
  fc_value :: jstr
  fc_locked :: bool \<comment> \<open>\<open>readOnly\<close> of an input, \<open>disabled\<close> of a select\<close>
  fc_invalid :: bool
  fc_error :: "jstr option" \<comment> \<open>the alert below the control\<close>
  fc_options :: "select_option list" \<comment> \<open>of a select\<close>

definition shown_error :: "string \<Rightarrow> jstr js_obj \<Rightarrow> jstr option" where
  \<comment> \<open>an empty message is falsy\<close>
  "shown_error fld errors = Option.bind (obj_get (str fld) errors) nonempty"

definition plain_option :: "jstr \<Rightarrow> select_option" where
  "plain_option v = \<lparr>so_value = v, so_label = v, so_disabled = False\<rparr>"

definition input_control :: "string \<Rightarrow> jstr \<Rightarrow> bool \<Rightarrow> jstr \<Rightarrow> bool \<Rightarrow> jstr option \<Rightarrow> form_control" where
  "input_control name label required v locked error =
     \<lparr>fc_name = str name, fc_label = label, fc_required = required, fc_value = v, fc_locked = locked,
      fc_invalid = (error \<noteq> None), fc_error = error, fc_options = []\<rparr>"

definition select_control :: "string \<Rightarrow> jstr \<Rightarrow> bool \<Rightarrow> jstr \<Rightarrow> bool \<Rightarrow> jstr option \<Rightarrow> select_option list \<Rightarrow> form_control" where
  "select_control name label required v locked error options =
     (input_control name label required v locked error)\<lparr>fc_options := options\<rparr>"

definition offered :: "form_control \<Rightarrow> jstr \<Rightarrow> bool" where
  \<comment> \<open>the select has an enabled option of this value\<close>
  "offered c v \<longleftrightarrow> list_ex (\<lambda>o'. so_value o' = v \<and> \<not> so_disabled o') (fc_options c)"

lemmas control_defs = input_control_def select_control_def

subsection \<open>The MCP server form\<close>

definition McpServerForm_controls :: "form_mode \<Rightarrow> mcp_form \<Rightarrow> form_control list" where
  "McpServerForm_controls mode f =
     (let readOnly = (mode = Mode_View); canSubmit = (mode \<noteq> Mode_View); err = (\<lambda>k. shown_error k (mf_fieldErrors f)) in
      [input_control ''name'' [0x670D, 0x52A1, 0x540D, 0x79F0] canSubmit (mf_name f) readOnly (err ''name''),
       select_control ''transport'' [0x4F20, 0x8F93, 0x65B9, 0x5F0F] False (transport_str (mf_transport f)) (mode \<noteq> Mode_Create) None
         [plain_option (str ''stdio''), plain_option (str ''http'')]]
      @ (if mf_transport f = Stdio
         then [input_control ''command'' (str ''command'') canSubmit (mf_command f) readOnly (err ''command''),
               input_control ''args'' (str ''args'') False (mf_argsText f) readOnly None]
         else [input_control ''url'' (str ''url'') canSubmit (mf_url f) readOnly (err ''url'')])
      @ [input_control ''env'' (str ''env'') False (mf_envText f) readOnly (err ''env''),
         input_control ''headers'' (str ''headers'') False (mf_headersText f) readOnly (err ''headers'')])"

record mcp_form_view =
  mv_alert :: "jstr option"
  mv_connection :: jstr
  mv_controls :: "form_control list"
  mv_running_box :: "bool \<times> bool" \<comment> \<open>checked, disabled\<close>
  mv_desired :: jstr
  mv_enabled_box :: "bool \<times> bool"
  mv_enabled_hint :: jstr
  mv_cancel :: bool
  mv_submit :: "(bool \<times> jstr) option" \<comment> \<open>the submit button: disabled, label\<close>

definition McpServerForm_view :: "form_mode \<Rightarrow> bool \<Rightarrow> bool \<Rightarrow> mcp_form \<Rightarrow> mcp_form_view" where
  "McpServerForm_view mode pending hasCancel f =
     (let readOnly = (mode = Mode_View); canSubmit = (mode \<noteq> Mode_View) in
      \<lparr>mv_alert = shown_error ''_global'' (mf_fieldErrors f),
       mv_connection = (if mf_transport f = Stdio
         then str ''stdio server '' @ [0x7531, 0x672C, 0x5730] @ str '' command '' @ [0x542F, 0x52A8, 0xFF0C] @ str ''args '' @ [0x6BCF, 0x884C, 0x4E00, 0x4E2A, 0x3002]
         else str ''http server '' @ [0x4F7F, 0x7528, 0x8FDC, 0x7AEF] @ str '' URL '' @ [0x5EFA, 0x7ACB, 0x8FDE, 0x63A5, 0x3002]),
       mv_controls = McpServerForm_controls mode f,
       mv_running_box = (mf_desiredState f = Desired_Running, readOnly),
       mv_desired = str ''desired_state='' @ desired_str (mf_desiredState f),
       mv_enabled_box = (mf_enabled f, readOnly),
       mv_enabled_hint = (if mf_enabled f then [0x53EF, 0x4F9B] @ str '' agent '' @ [0x4F7F, 0x7528]
         else [0x6682, 0x4E0D, 0x4F9B] @ str '' agent '' @ [0x4F7F, 0x7528]),
       mv_cancel = (canSubmit \<and> hasCancel),
       mv_submit = (if canSubmit then Some (pending, if pending then [0x63D0, 0x4EA4, 0x4E2D] @ str ''...'' else [0x4FDD, 0x5B58]) else None)\<rparr>)"

definition mcp_set_args :: "jstr \<Rightarrow> mcp_form \<Rightarrow> mcp_form" where
  "mcp_set_args v f = f\<lparr>mf_argsText := v\<rparr>"

definition mcp_set_enabled :: "bool \<Rightarrow> mcp_form \<Rightarrow> mcp_form" where
  "mcp_set_enabled checked f = f\<lparr>mf_enabled := checked\<rparr>"

subsubsection \<open>A refused submission is explained\<close>

definition all_alerts :: "jstr option \<Rightarrow> form_control list \<Rightarrow> jstr list" where
  \<comment> \<open>the messages on the screen, the form's own first\<close>
  "all_alerts alert cs = List.map_filter id (alert # map fc_error cs)"

lemma mcp_parse_error_nonempty: "kv_error (mcp_parseKeyValueText lb t) = Some e \<Longrightarrow> e \<noteq> []"
proof -
  have "kv_error (mcp_parse_lines lb i ob ls) = Some e \<Longrightarrow> e \<noteq> []" for i ob ls
    by (induction lb i ob ls rule: mcp_parse_lines.induct) (auto simp: mcp_line_error_def split: kv_line.splits)
  then show "kv_error (mcp_parseKeyValueText lb t) = Some e \<Longrightarrow> e \<noteq> []" by (simp add: mcp_parseKeyValueText_def)
qed

definition mcp_refusal :: "McpTransport \<Rightarrow> string \<Rightarrow> jstr \<Rightarrow> bool \<Rightarrow> bool" where
  \<comment> \<open>a field of the form that is on the screen, and has an input to focus where it is focused\<close>
  "mcp_refusal tr fld msg focus \<longleftrightarrow> msg \<noteq> [] \<and>
     (fld = ''name'' \<or> fld = ''command'' \<and> tr = Stdio \<or> fld = ''url'' \<and> tr = Http \<or> (fld = ''env'' \<or> fld = ''headers'') \<and> \<not> focus)"

lemma validate_refusal:
  assumes "\<not> mcp_valid up f"
  shows "\<exists>fld msg focus. validateForm up f = fail_field fld msg focus f \<and> mcp_refusal (mf_transport f) fld msg focus"
proof (cases "mf_transport f")
  case Stdio
  with assms show ?thesis
    by (auto simp: mcp_valid_def validateForm_def Let_def mcp_refusal_def dest: mcp_parse_error_nonempty split: option.split)
next
  case Http
  with assms show ?thesis
    by (auto simp: mcp_valid_def validateForm_def Let_def mcp_refusal_def dest: mcp_parse_error_nonempty split: option.split)
qed

lemma mcp_submit_refused:
  assumes "mcp_handleSubmit up mode server f = (Submit_Nothing, f')" "mode \<noteq> Mode_View" "mode = Mode_Edit \<longrightarrow> server \<noteq> None"
  shows "(\<exists>fld msg focus. f' = snd (fail_field fld msg focus f) \<and> mcp_refusal (mf_transport f) fld msg focus)
    \<or> f' = f\<lparr>mf_fieldErrors := [(str ''_global'', redacted_message)]\<rparr>"
proof (cases "mcp_valid up f")
  case True
  with assms show ?thesis
    by (cases mode) (auto simp: mcp_handleSubmit_def validate_valid Let_def split: if_splits)
next
  case False
  then obtain fld msg focus where v: "validateForm up f = fail_field fld msg focus f" "mcp_refusal (mf_transport f) fld msg focus"
    using validate_refusal by blast
  then have "mcp_handleSubmit up mode server f = (Submit_Nothing, snd (fail_field fld msg focus f))"
    using assms(2) by (simp add: mcp_handleSubmit_def fail_field_def)
  with v(2) assms(1) show ?thesis by auto
qed

text \<open>C31. A refused submission of the MCP form is explained. When submitting sends nothing, exactly one
  message is on the screen afterwards, every control keeps what was entered, and the focus is left
  where it was or moved to the control that shows the message, which is on the screen and can be
  edited.\<close>
theorem mcp_refusal_is_explained:
  assumes "mcp_handleSubmit up mode server f = (Submit_Nothing, f')" "mode \<noteq> Mode_View" "mode = Mode_Edit \<longrightarrow> server \<noteq> None"
  shows "length (all_alerts (mv_alert (McpServerForm_view mode pending c f')) (mv_controls (McpServerForm_view mode pending c f'))) = 1
    \<and> map fc_value (mv_controls (McpServerForm_view mode pending c f')) = map fc_value (mv_controls (McpServerForm_view mode pending c f))
    \<and> (mf_focus f' = mf_focus f
       \<or> list_ex (\<lambda>x. mf_focus f' = Some (fc_name x) \<and> fc_error x \<noteq> None \<and> \<not> fc_locked x) (mv_controls (McpServerForm_view mode pending c f')))"
  using mcp_submit_refused [OF assms]
proof (elim disjE exE conjE)
  fix fld msg focus
  assume "f' = snd (fail_field fld msg focus f)" "mcp_refusal (mf_transport f) fld msg focus"
  then show ?thesis
    using assms(2) unfolding mcp_refusal_def
    by (cases "mf_transport f")
       (auto simp: fail_field_def McpServerForm_view_def McpServerForm_controls_def Let_def control_defs all_alerts_def shown_error_def
          obj_get_def List.map_filter_def nonempty_def)
next
  assume "f' = f\<lparr>mf_fieldErrors := [(str ''_global'', redacted_message)]\<rparr>"
  then show ?thesis
    by (auto simp: McpServerForm_view_def McpServerForm_controls_def Let_def control_defs all_alerts_def shown_error_def
          obj_get_def List.map_filter_def nonempty_def redacted_message_def)
qed

definition demo_refused :: mcp_form where
  \<comment> \<open>a named stdio server without a command, submitted\<close>
  "demo_refused = \<lparr>mf_name = str ''n'', mf_transport = Stdio, mf_command = [], mf_url = [], mf_argsText = [], mf_envText = [],
     mf_headersText = [], mf_enabled = False, mf_desiredState = Desired_Stopped, mf_fieldErrors = [], mf_focus = None\<rparr>"

theorem mcp_refusal_is_explained_witness:
  "length (all_alerts (mv_alert (McpServerForm_view Mode_Create False True (snd (mcp_handleSubmit (\<lambda>_. None) Mode_Create None demo_refused))))
     (mv_controls (McpServerForm_view Mode_Create False True (snd (mcp_handleSubmit (\<lambda>_. None) Mode_Create None demo_refused))))) = 1"
proof -
  have "fst (mcp_handleSubmit (\<lambda>_. None) Mode_Create None demo_refused) = Submit_Nothing" by code_simp
  then have "mcp_handleSubmit (\<lambda>_. None) Mode_Create None demo_refused
      = (Submit_Nothing, snd (mcp_handleSubmit (\<lambda>_. None) Mode_Create None demo_refused))" by (metis prod.collapse)
  from mcp_refusal_is_explained [OF this, where pending = False and c = True] show ?thesis by simp
qed

subsection \<open>The LLM provider form\<close>

definition LlmProviderForm_controls :: "form_mode \<Rightarrow> llm_form \<Rightarrow> form_control list" where
  "LlmProviderForm_controls mode f =
     (let readOnly = (mode = Mode_View); fs = lform f; err = (\<lambda>k. shown_error k (lf_fieldErrors f)) in
      [input_control ''display_name'' (str ''Display Name'') (\<not> readOnly) (lf_displayName fs) readOnly (err ''displayName''),
       select_control ''provider_type'' (str ''Provider Type'') (\<not> readOnly) (lf_providerType fs) readOnly (err ''providerType'')
         ((if \<not> isSupportedProviderType (lf_providerType fs)
           then [\<lparr>so_value = lf_providerType fs, so_label = lf_providerType fs @ str '' (unsupported)'', so_disabled = False\<rparr>] else [])
          @ map plain_option LLM_PROVIDER_TYPES),
       input_control ''base_url'' (str ''Base URL'') False (lf_baseUrl fs) readOnly None,
       input_control ''description'' (str ''Description'') False (lf_description fs) readOnly None]
      @ (if mode \<noteq> Mode_View then [input_control ''api_key'' (str ''API Key'') False (lf_apiKey fs) False None] else [])
      @ [input_control ''default_headers'' (str ''Default Headers'') False (lf_headersText fs) readOnly (err ''defaultHeaders''),
         input_control ''default_query'' (str ''Default Query'') False (lf_queryText fs) readOnly (err ''defaultQuery''),
         input_control ''models'' (str ''Models'') False (lf_modelsText fs) readOnly None])"

definition LlmProviderForm_refs :: "(jstr \<times> jstr) list" where
  \<comment> \<open>the controls the refs of the form are attached to\<close>
  "LlmProviderForm_refs = map (\<lambda>(r, n). (str r, str n))
     [(''displayName'', ''display_name''), (''providerType'', ''provider_type''), (''headers'', ''default_headers''), (''query'', ''default_query'')]"

record llm_form_view =
  lv_alert :: "jstr option"
  lv_controls :: "form_control list"
  lv_clear_box :: "bool option" \<comment> \<open>the box that clears the stored key\<close>
  lv_key_note :: "jstr option"
  lv_enabled_box :: "bool \<times> bool" \<comment> \<open>checked, disabled\<close>
  lv_cancel :: bool
  lv_submit :: "(bool \<times> jstr) option" \<comment> \<open>disabled, label\<close>

definition LlmProviderForm_view :: "form_mode \<Rightarrow> LlmProviderDetail option \<Rightarrow> bool \<Rightarrow> bool \<Rightarrow> llm_form \<Rightarrow> llm_form_view" where
  "LlmProviderForm_view mode provider pending hasCancel f =
     \<lparr>lv_alert = Option.bind (lf_error f) nonempty,
      lv_controls = LlmProviderForm_controls mode f,
      lv_clear_box = (if mode = Mode_Edit then Some (lf_clearApiKey (lform f)) else None),
      lv_key_note = (if mode \<noteq> Mode_View then None
        else Some (str ''API Key'' @ [0xFF1A] @ (if (case provider of Some p \<Rightarrow> prov_api_key_configured p | None \<Rightarrow> False)
          then [0x5DF2, 0x914D, 0x7F6E] else [0x672A, 0x914D, 0x7F6E]))),
      lv_enabled_box = (lf_enabled (lform f), mode = Mode_View),
      lv_cancel = (mode \<noteq> Mode_View \<and> hasCancel),
      lv_submit = (if mode \<noteq> Mode_View
        then Some (pending, if pending then [0x4FDD, 0x5B58, 0x4E2D, 0x2026] else [0x4FDD, 0x5B58] @ str '' Provider'') else None)\<rparr>"

definition llm_beforeunload :: "form_mode \<Rightarrow> llm_form \<Rightarrow> bool" where
  \<comment> \<open>whether leaving the document is held up\<close>
  "llm_beforeunload mode f \<longleftrightarrow> llm_dirty mode f"

lemma llm_parse_error_nonempty: "kv_error (llm_parseKeyValueText lb t) = Some e \<Longrightarrow> e \<noteq> []"
proof -
  have "kv_error (llm_parse_lines lb ob ls) = Some e \<Longrightarrow> e \<noteq> []" for ob ls
    by (induction lb ob ls rule: llm_parse_lines.induct) (auto split: kv_line.splits)
  then show "kv_error (llm_parseKeyValueText lb t) = Some e \<Longrightarrow> e \<noteq> []" by (simp add: llm_parseKeyValueText_def)
qed

lemma llm_submit_refused:
  assumes "llm_handleSubmit mode provider f = (LSubmit_Nothing, f')" "mode \<noteq> Mode_View" "mode = Mode_Edit \<longrightarrow> provider \<noteq> None"
  shows "(\<exists>fld ref msg. f' = snd (llm_fail fld ref msg f) \<and> msg \<noteq> [] \<and> (fld, ref) \<in> {(''defaultHeaders'', ''headers''), (''defaultQuery'', ''query''),
      (''displayName'', ''displayName''), (''providerType'', ''providerType'')})
    \<or> f' = f\<lparr>lf_fieldErrors := [], lf_error := Some redacted_message, lf_focus := Some (str ''headers'')\<rparr>"
proof -
  consider e where "kv_error (llm_headers f) = Some e" | e where "kv_error (llm_headers f) = None" "kv_error (llm_query f) = Some e"
    | "kv_error (llm_headers f) = None" "kv_error (llm_query f) = None" by (cases "kv_error (llm_headers f)"; cases "kv_error (llm_query f)") auto
  then show ?thesis
  proof cases
    case (1 e)
    then have "e \<noteq> []" using llm_parse_error_nonempty by (simp add: llm_headers_def)
    moreover from 1 assms(1,2) have "f' = snd (llm_fail ''defaultHeaders'' ''headers'' e f)"
      by (auto simp: llm_handleSubmit_def Let_def llm_fail_def)
    ultimately show ?thesis by blast
  next
    case (2 e)
    then have "e \<noteq> []" using llm_parse_error_nonempty by (simp add: llm_query_def)
    moreover from 2 assms(1,2) have "f' = snd (llm_fail ''defaultQuery'' ''query'' e f)"
      by (auto simp: llm_handleSubmit_def Let_def llm_fail_def)
    ultimately show ?thesis by blast
  next
    case 3
    note parsed = this
    show ?thesis
    proof (cases "llm_valid f")
      case True
      with parsed assms show ?thesis
        by (cases mode) (auto simp: llm_handleSubmit_def Let_def llm_valid_def split: if_splits)
    next
      case False
      show ?thesis
      proof (cases "trim (lf_displayName (lform f)) = []")
        case True
        with parsed assms(2) have "llm_handleSubmit mode provider f = llm_fail ''displayName'' ''displayName''
            (str ''Display Name '' @ [0x5FC5, 0x586B, 0x3002]) (f\<lparr>lf_fieldErrors := []\<rparr>)"
          by (simp add: llm_handleSubmit_def Let_def)
        with assms(1) show ?thesis
          by (intro disjI1 exI [of _ "''displayName''"] exI [of _ "str ''Display Name '' @ [0x5FC5, 0x586B, 0x3002]"]) (simp add: llm_fail_def)
      next
        case named: False
        obtain msg where "llm_handleSubmit mode provider f = llm_fail ''providerType'' ''providerType'' (str ''Provider Type '' @ msg) (f\<lparr>lf_fieldErrors := []\<rparr>)"
          using parsed assms(2) False named by (simp add: llm_handleSubmit_def Let_def llm_valid_def)
        with assms(1) show ?thesis
          by (intro disjI1 exI [of _ "''providerType''"] exI [of _ "str ''Provider Type '' @ msg"]) (simp add: llm_fail_def)
      qed
    qed
  qed
qed

lemma llm_alerts:
  "all_alerts a (LlmProviderForm_controls mode f)
     = List.map_filter id (a # map (\<lambda>k. shown_error k (lf_fieldErrors f)) [''displayName'', ''providerType'', ''defaultHeaders'', ''defaultQuery''])"
  by (simp add: all_alerts_def LlmProviderForm_controls_def Let_def control_defs List.map_filter_def)

lemma llm_error_control:
  assumes "(fld, ref) \<in> {(''defaultHeaders'', ''headers''), (''defaultQuery'', ''query''), (''displayName'', ''displayName''), (''providerType'', ''providerType'')}"
    "mode \<noteq> Mode_View"
  shows "\<exists>x \<in> set (LlmProviderForm_controls mode f). map_of LlmProviderForm_refs (str ref) = Some (fc_name x)
    \<and> \<not> fc_locked x \<and> fc_error x = shown_error fld (lf_fieldErrors f)"
proof -
  let ?cs = "LlmProviderForm_controls mode f"
  have "?cs ! 0 \<in> set ?cs" "?cs ! 1 \<in> set ?cs" "?cs ! 5 \<in> set ?cs" "?cs ! 6 \<in> set ?cs"
    by (simp_all add: LlmProviderForm_controls_def Let_def)
  then show ?thesis
    using assms by (auto simp: LlmProviderForm_controls_def LlmProviderForm_refs_def Let_def control_defs)
qed

lemma llm_one_alert:
  assumes "fld \<in> {''defaultHeaders'', ''defaultQuery'', ''displayName'', ''providerType''}" "msg \<noteq> []"
  shows "List.map_filter id (Some msg # map (\<lambda>k. shown_error k [(str fld, msg)]) [''displayName'', ''providerType'', ''defaultHeaders'', ''defaultQuery''])
    = [msg, msg]"
  using assms by (auto simp: shown_error_def obj_get_def List.map_filter_def nonempty_def)

text \<open>A refused submission of the provider form is explained. When submitting sends nothing, the
  form shows an alert, the fields keep what was entered, and the focus is on a control that is on the
  screen and can be edited; that control repeats the message, and no other does, unless the reason is
  a redacted value, which no single field is to blame for. The type selector always offers the type
  it shows.\<close>
theorem llm_refusal_is_explained:
  fixes pending hasCancel :: bool
  assumes "llm_handleSubmit mode provider f = (LSubmit_Nothing, f')" "mode \<noteq> Mode_View" "mode = Mode_Edit \<longrightarrow> provider \<noteq> None"
  defines "v \<equiv> LlmProviderForm_view mode provider pending hasCancel f'"
  shows "lform f' = lform f \<and> (\<exists>msg x ref. lv_alert v = Some msg \<and> x \<in> set (lv_controls v) \<and> lf_focus f' = Some ref
      \<and> map_of LlmProviderForm_refs ref = Some (fc_name x) \<and> \<not> fc_locked x
      \<and> (fc_error x = Some msg \<and> all_alerts (lv_alert v) (lv_controls v) = [msg, msg]
         \<or> msg = redacted_message \<and> all_alerts (lv_alert v) (lv_controls v) = [msg]))
    \<and> offered (lv_controls v ! 1) (lf_providerType (lform f'))"
proof -
  have type: "offered (lv_controls v ! 1) (lf_providerType (lform f'))"
    by (cases "isSupportedProviderType (lf_providerType (lform f'))")
       (simp_all add: v_def LlmProviderForm_view_def LlmProviderForm_controls_def Let_def offered_def control_defs plain_option_def
          list_ex_iff isSupportedProviderType_def)
  have v: "lv_alert v = Option.bind (lf_error f') nonempty" "lv_controls v = LlmProviderForm_controls mode f'"
    by (simp_all add: v_def LlmProviderForm_view_def)
  show ?thesis
    using llm_submit_refused [OF assms(1-3)]
  proof (elim disjE exE conjE)
    fix fld ref msg
    assume f': "f' = snd (llm_fail fld ref msg f)" and msg: "msg \<noteq> []"
      and names: "(fld, ref) \<in> {(''defaultHeaders'', ''headers''), (''defaultQuery'', ''query''), (''displayName'', ''displayName''), (''providerType'', ''providerType'')}"
    have fs: "lform f' = lform f" "lf_focus f' = Some (str ref)" "lf_error f' = Some msg" "lf_fieldErrors f' = [(str fld, msg)]"
      using f' by (simp_all add: llm_fail_def)
    obtain x where x: "x \<in> set (LlmProviderForm_controls mode f')" "map_of LlmProviderForm_refs (str ref) = Some (fc_name x)"
        "\<not> fc_locked x" "fc_error x = shown_error fld (lf_fieldErrors f')"
      using llm_error_control [OF names assms(2)] by blast
    have "fc_error x = Some msg" using x(4) fs(4) msg by (simp add: shown_error_def obj_get_def nonempty_def)
    moreover have "lv_alert v = Some msg" using v(1) fs(3) msg by (simp add: nonempty_def)
    moreover have "all_alerts (lv_alert v) (lv_controls v) = [msg, msg]"
      unfolding v(2) llm_alerts fs(4) \<open>lv_alert v = Some msg\<close> by (rule llm_one_alert) (use names msg in auto)
    moreover have "x \<in> set (lv_controls v)" using x(1) v(2) by simp
    ultimately show ?thesis using fs(1,2) x(2,3) type by blast
  next
    assume f': "f' = f\<lparr>lf_fieldErrors := [], lf_error := Some redacted_message, lf_focus := Some (str ''headers'')\<rparr>"
    then have fs: "lform f' = lform f" "lf_focus f' = Some (str ''headers'')" "lf_error f' = Some redacted_message" "lf_fieldErrors f' = []" by simp_all
    obtain x where x: "x \<in> set (LlmProviderForm_controls mode f')" "map_of LlmProviderForm_refs (str ''headers'') = Some (fc_name x)" "\<not> fc_locked x"
      using llm_error_control [of "''defaultHeaders''" "''headers''" mode f'] assms(2) by auto
    have alert: "lv_alert v = Some redacted_message" using v(1) fs(3) by (simp add: nonempty_def redacted_message_def)
    then have "all_alerts (lv_alert v) (lv_controls v) = [redacted_message]"
      by (simp add: v(2) llm_alerts fs(4) shown_error_def List.map_filter_def)
    moreover have "x \<in> set (lv_controls v)" using x(1) v(2) by simp
    ultimately show ?thesis using alert fs(1,2) x(2,3) type by blast
  qed
qed

definition demo_llm_refused :: llm_form where
  \<comment> \<open>a header line without a separator\<close>
  "demo_llm_refused = \<lparr>lform = llm_blank_fields\<lparr>lf_displayName := str ''P'', lf_headersText := str ''wrong''\<rparr>, lf_error = None, lf_fieldErrors = [],
     lf_snapshot = llm_blank_fields, lf_focus = None\<rparr>"

theorem llm_refusal_is_explained_witness:
  "lv_alert (LlmProviderForm_view Mode_Create None False True (snd (llm_handleSubmit Mode_Create None demo_llm_refused))) \<noteq> None"
proof -
  have "fst (llm_handleSubmit Mode_Create None demo_llm_refused) = LSubmit_Nothing" by code_simp
  then have "llm_handleSubmit Mode_Create None demo_llm_refused = (LSubmit_Nothing, snd (llm_handleSubmit Mode_Create None demo_llm_refused))"
    by (metis prod.collapse)
  from llm_refusal_is_explained [OF this, of False True] show ?thesis by auto
qed

subsection \<open>The agent form\<close>

definition unavailable_option :: "jstr \<Rightarrow> select_option" where
  "unavailable_option v = \<lparr>so_value = v, so_label = v @ str '' ('' @ [0x4E0D, 0x53EF, 0x7528] @ str '')'', so_disabled = True\<rparr>"

definition loading_option :: select_option where
  "loading_option = \<lparr>so_value = [], so_label = str ''Provider '' @ [0x52A0, 0x8F7D, 0x4E2D] @ str ''...'', so_disabled = False\<rparr>"

definition no_provider_option :: select_option where
  "no_provider_option = \<lparr>so_value = [], so_label = [0x6682, 0x65E0, 0x53EF, 0x7528] @ str '' Provider'', so_disabled = False\<rparr>"

definition source_str :: "ModelSource \<Rightarrow> jstr" where
  "source_str s = (case s of Source_CodeAgent \<Rightarrow> str ''codeagent'' | Source_Provider \<Rightarrow> str ''provider'')"

definition source_select :: "agent_form \<Rightarrow> form_control" where
  "source_select f = select_control ''model_source'' [0x6A21, 0x578B, 0x6765, 0x6E90] False (source_str (af_modelSource f)) False None
     [\<lparr>so_value = str ''codeagent'', so_label = str ''CodeAgent'', so_disabled = False\<rparr>,
      \<lparr>so_value = str ''provider'', so_label = str ''LLM Provider'', so_disabled = False\<rparr>]"

definition codeagent_select :: "agent_props \<Rightarrow> agent_form \<Rightarrow> form_control" where
  "codeagent_select ps f = select_control ''codeagent_model'' (str ''CodeAgent '' @ [0x6A21, 0x578B]) False (af_codeAgentModel f) False None
     ((if unavailableCodeAgentModel ps f then [unavailable_option (af_codeAgentModel f)] else []) @ map plain_option CODEAGENT_MODEL_OPTIONS)"

definition provider_select :: "agent_props \<Rightarrow> agent_form \<Rightarrow> form_control" where
  "provider_select ps f = select_control ''provider_id'' (str ''LLM Provider'') False (af_providerId f)
     (ap_providersLoading ps \<or> length (enabledProviders ps) = 0) None
     ((if ap_providersLoading ps then [loading_option] else [])
      @ (if \<not> ap_providersLoading ps \<and> length (enabledProviders ps) = 0 then [no_provider_option] else [])
      @ (if unavailableDraftProvider ps f then [unavailable_option (af_providerId f)] else [])
      @ map (\<lambda>p. \<lparr>so_value = prov_id p, so_label = prov_display_name p, so_disabled = False\<rparr>) (enabledProviders ps))"

definition model_select :: "agent_props \<Rightarrow> agent_form \<Rightarrow> form_control" where
  "model_select ps f = select_control ''provider_model'' (str ''Provider '' @ [0x6A21, 0x578B]) False (af_providerModel f)
     (length (selectedProviderModels ps f) = 0) None
     ((if unavailableProviderModel ps f then [unavailable_option (af_providerModel f)] else [])
      @ (if length (selectedProviderModels ps f) = 0
         then [\<lparr>so_value = af_providerModel f, so_label = orElse (nonempty (af_providerModel f)) [0x6682, 0x65E0, 0x6A21, 0x578B], so_disabled = False\<rparr>] else [])
      @ map plain_option (selectedProviderModels ps f))"

definition model_selects :: "agent_props \<Rightarrow> agent_form \<Rightarrow> form_control list" where
  "model_selects ps f = source_select f #
     (if af_modelSource f = Source_CodeAgent then [codeagent_select ps f] else [provider_select ps f, model_select ps f])"

definition availability_messages :: "agent_props \<Rightarrow> agent_form \<Rightarrow> jstr list" where
  "availability_messages ps f =
     (if unavailableDraftProvider ps f then [[0x5F53, 0x524D] @ str '' draft '' @ [0x5F15, 0x7528, 0x7684] @ str '' Provider '' @ [0x4E0D, 0x53EF, 0x7528, 0xFF0C, 0x8BF7, 0x9009, 0x62E9, 0x4E00, 0x4E2A, 0x5DF2, 0x542F, 0x7528, 0x7684] @ str '' LLM Provider'' @ [0x3002]] else [])
     @ (if unavailableProviderModel ps f then [[0x5F53, 0x524D] @ str '' draft '' @ [0x5F15, 0x7528, 0x7684, 0x6A21, 0x578B, 0x4E0D, 0x5728, 0x6240, 0x9009] @ str '' Provider '' @ [0x7684, 0x6A21, 0x578B, 0x5217, 0x8868, 0x4E2D, 0xFF0C, 0x8BF7, 0x91CD, 0x65B0, 0x9009, 0x62E9, 0x6A21, 0x578B, 0x3002]] else [])
     @ (if unavailableCodeAgentModel ps f then [[0x5F53, 0x524D] @ str '' draft '' @ [0x5F15, 0x7528, 0x7684] @ str '' CodeAgent '' @ [0x6A21, 0x578B, 0x4E0D, 0x5728, 0x53EF, 0x9009, 0x5217, 0x8868, 0x4E2D, 0xFF0C, 0x8BF7, 0x91CD, 0x65B0, 0x9009, 0x62E9, 0x6A21, 0x578B, 0x3002]] else [])
     @ (if showProviderModelsMessage ps f then [[0x5148, 0x5230] @ str '' LLM Provider '' @ [0x9875, 0x9762, 0x8865, 0x6A21, 0x578B, 0x5217, 0x8868]] else [])"

datatype prompt_view = Prompt_Editor jstr bool | Prompt_Markdown jstr | Prompt_Empty

record agent_form_view =
  av_enabled_box :: "bool option"
  av_cancel :: bool
  av_submit :: "bool \<times> jstr" \<comment> \<open>disabled, label\<close>
  av_alert :: "jstr option"
  av_inputs :: "form_control list"
  av_selects :: "form_control list"
  av_messages :: "jstr list"
  av_toggle :: "jstr \<times> bool \<times> jstr" \<comment> \<open>the label, whether it is pressed, and the title of the preview toggle\<close>
  av_prompt :: prompt_view

definition AgentForm_view :: "agent_props \<Rightarrow> bool \<Rightarrow> bool \<Rightarrow> agent_form \<Rightarrow> agent_form_view" where
  "AgentForm_view ps pending hasCancel f =
     \<lparr>av_enabled_box = (if ap_mode ps = Mode_Edit then Some (af_enabled f) else None), av_cancel = hasCancel,
      av_submit = (pending \<or> saveBlocked ps f, if pending then [0x4FDD, 0x5B58, 0x4E2D] @ str ''...'' else [0x4FDD, 0x5B58] @ str '' Agent''),
      av_alert = Option.bind (af_error f) nonempty,
      av_inputs =
        [(input_control ''display_name'' (str ''Agent '' @ [0x540D, 0x79F0]) True (af_displayName f) False None)
           \<lparr>fc_invalid := (af_errorField f = Some (str ''display_name''))\<rparr>,
         input_control ''description'' (str ''Description'') False (af_description f) False None],
      av_selects = model_selects ps f,
      av_messages = availability_messages ps f,
      av_toggle = (if af_promptEditing f then [0x5207, 0x6362, 0x5230, 0x9884, 0x89C8, 0x6A21, 0x5F0F] else [0x5207, 0x6362, 0x5230, 0x7F16, 0x8F91, 0x6A21, 0x5F0F],
        \<not> af_promptEditing f, if af_promptEditing f then [0x9884, 0x89C8] else [0x7F16, 0x8F91]),
      av_prompt = (if af_promptEditing f then Prompt_Editor (af_systemPrompt f) (af_errorField f = Some (str ''system_prompt''))
        else if trim (af_systemPrompt f) \<noteq> [] then Prompt_Markdown (af_systemPrompt f) else Prompt_Empty)\<rparr>"

subsubsection \<open>Using the form\<close>

definition agent_select :: "agent_props \<Rightarrow> jstr \<Rightarrow> jstr \<Rightarrow> agent_form \<Rightarrow> agent_form" where
  \<comment> \<open>the \<open>onChange\<close> handler of the select of this name\<close>
  "agent_select ps name v f =
     (if name = str ''model_source'' then f\<lparr>af_modelSource := (if v = str ''provider'' then Source_Provider else Source_CodeAgent)\<rparr>
      else if name = str ''codeagent_model'' then f\<lparr>af_codeAgentModel := v\<rparr>
      else if name = str ''provider_id'' then choose_provider ps v f
      else f\<lparr>af_providerModel := v\<rparr>)"

definition agent_type :: "jstr \<Rightarrow> jstr \<Rightarrow> jstr \<Rightarrow> bool \<Rightarrow> agent_form \<Rightarrow> agent_form" where
  \<comment> \<open>the name, description, prompt and enabled box are edited\<close>
  "agent_type name description prompt enabled f =
     f\<lparr>af_displayName := name, af_description := description, af_systemPrompt := prompt, af_enabled := enabled\<rparr>"

inductive agent_reachable :: "agent_props \<Rightarrow> agent_form \<Rightarrow> bool" where
  \<comment> \<open>the default effects run after every change; the list of providers is empty until it has arrived\<close>
  mount: "providers_ok ps \<Longrightarrow> ap_mode ps \<noteq> Mode_View \<Longrightarrow> (ap_providersLoading ps \<Longrightarrow> ap_providers ps = []) \<Longrightarrow>
    (\<And>a d. ap_agent ps = Some a \<Longrightarrow> ag_draft a = Some d \<Longrightarrow> dr_model d \<noteq> []) \<Longrightarrow>
    agent_reachable ps (settle_defaults ps (agent_form_load (ap_mode ps) (ap_agent ps) (agent_form_init (ap_mode ps))))"
| arrived: "agent_reachable ps f \<Longrightarrow> ap_providersLoading ps \<Longrightarrow> qs = ps\<lparr>ap_providers := l, ap_providersLoading := False\<rparr> \<Longrightarrow>
    providers_ok qs \<Longrightarrow> agent_reachable qs (settle_defaults qs f)"
| typed: "agent_reachable ps f \<Longrightarrow> agent_reachable ps (agent_type name description prompt enabled f)"
| toggled: "agent_reachable ps f \<Longrightarrow> agent_reachable ps (toggle_prompt_view f)"
| selected: "agent_reachable ps f \<Longrightarrow> x \<in> set (model_selects ps f) \<Longrightarrow> \<not> fc_locked x \<Longrightarrow> offered x v \<Longrightarrow>
    agent_reachable ps (settle_defaults ps (agent_select ps (fc_name x) v f))"
| submitted: "agent_reachable ps f \<Longrightarrow> agent_reachable ps (snd (agent_handleSubmit ps f))"

definition agent_settled :: "agent_props \<Rightarrow> agent_form \<Rightarrow> bool" where
  \<comment> \<open>what the default effects establish\<close>
  "agent_settled ps f \<longleftrightarrow> (af_modelSource f = Source_Provider \<longrightarrow>
     (enabledProviders ps \<noteq> [] \<longrightarrow> af_providerId f \<noteq> []) \<and> (selectedProviderModels ps f \<noteq> [] \<longrightarrow> af_providerModel f \<noteq> []))"

definition agent_choice_ok :: "agent_props \<Rightarrow> agent_form \<Rightarrow> bool" where
  \<comment> \<open>in a new agent nothing is chosen that is not offered\<close>
  "agent_choice_ok ps f \<longleftrightarrow> af_codeAgentModel f \<noteq> [] \<and> (ap_mode ps = Mode_Create \<longrightarrow>
     af_codeAgentModel f \<in> set CODEAGENT_MODEL_OPTIONS
     \<and> (af_providerId f = [] \<or> selectedProvider ps f \<noteq> None)
     \<and> (af_providerModel f = [] \<or> af_providerModel f \<in> set (selectedProviderModels ps f)))"

definition agent_inv :: "agent_props \<Rightarrow> agent_form \<Rightarrow> bool" where
  "agent_inv ps f \<longleftrightarrow> providers_ok ps \<and> ap_mode ps \<noteq> Mode_View \<and> (ap_providersLoading ps \<longrightarrow> ap_providers ps = [])
     \<and> agent_settled ps f \<and> agent_choice_ok ps f"

lemma agent_inv_choice:
  assumes "af_modelSource g = af_modelSource f" "af_codeAgentModel g = af_codeAgentModel f" "af_providerId g = af_providerId f"
    "af_providerModel g = af_providerModel f" "agent_inv ps f"
  shows "agent_inv ps g"
  using assms by (simp add: agent_inv_def agent_settled_def agent_choice_ok_def selectedProvider_def selectedProviderModels_def)

lemma no_provider_selected: "af_providerId f = [] \<Longrightarrow> providers_ok ps \<Longrightarrow> selectedProvider ps f = None"
  using selectedProvider_Some [of ps f] by (cases "selectedProvider ps f") (auto simp: providers_ok_def)

lemma settle_settled:
  assumes "providers_ok ps"
  shows "agent_settled ps (settle_defaults ps f)"
proof -
  let ?g = "default_provider_effect ps f"
  have g: "af_modelSource ?g = Source_Provider \<Longrightarrow> enabledProviders ps \<noteq> [] \<Longrightarrow> af_providerId ?g \<noteq> []"
    using hd_enabled_in [of ps] assms by (auto simp: default_provider_effect_def providers_ok_def split: if_splits)
  have sel: "selectedProvider ps (default_model_effect ps ?g) = selectedProvider ps ?g"
    by (rule selectedProvider_cong) (rule default_model_keeps)
  have "af_providerModel (default_model_effect ps ?g) \<noteq> []"
    if p: "selectedProvider ps ?g = Some p" "prov_models p \<noteq> []" "af_modelSource ?g = Source_Provider" for p
    using p model_names_ok [OF assms p(1), of "hd (prov_models p)"] by (auto simp: default_model_effect_def)
  with g sel show ?thesis
    by (cases "selectedProvider ps ?g") (auto simp: agent_settled_def settle_defaults_def default_model_keeps selectedProviderModels_def)
qed

lemma settle_choice_ok:
  assumes "providers_ok ps" "agent_choice_ok ps f"
  shows "agent_choice_ok ps (settle_defaults ps f)"
proof -
  have provider: "agent_choice_ok ps (default_provider_effect ps f)"
  proof (cases "af_modelSource f = Source_Provider \<and> enabledProviders ps \<noteq> [] \<and> af_providerId f = []")
    case True
    let ?g = "f\<lparr>af_providerId := prov_id (hd (enabledProviders ps))\<rparr>"
    have "selectedProvider ps ?g = Some (hd (enabledProviders ps))" using True by (intro hd_enabled_selected) simp_all
    moreover have "ap_mode ps = Mode_Create \<Longrightarrow> af_providerModel f = []"
      using assms(2) True no_provider_selected [OF _ assms(1)] by (auto simp: agent_choice_ok_def selectedProviderModels_def)
    ultimately show ?thesis using True assms(2) by (auto simp: default_provider_effect_def agent_choice_ok_def)
  next
    case False
    then show ?thesis using assms(2) by (auto simp: default_provider_effect_def)
  qed
  have "agent_choice_ok ps (default_model_effect ps g)" if "agent_choice_ok ps g" for g
    using that by (auto simp: default_model_effect_def agent_choice_ok_def selectedProvider_def selectedProviderModels_def split: option.split)
  with provider show ?thesis by (simp add: settle_defaults_def)
qed

lemma load_choice_ok:
  assumes "\<And>a d. ap_agent ps = Some a \<Longrightarrow> ag_draft a = Some d \<Longrightarrow> dr_model d \<noteq> []"
  shows "agent_choice_ok ps (agent_form_load (ap_mode ps) (ap_agent ps) f)"
proof -
  have opts: "DEFAULT_CODEAGENT_MODEL \<noteq> []" "DEFAULT_CODEAGENT_MODEL \<in> set CODEAGENT_MODEL_OPTIONS"
    by (simp_all add: DEFAULT_CODEAGENT_MODEL_def CODEAGENT_MODEL_OPTIONS_def)
  show ?thesis
  proof (cases "ap_agent ps")
    case None
    with opts show ?thesis by (simp add: agent_choice_ok_def agent_form_load_def Let_def)
  next
    case (Some a)
    with opts assms [OF Some] show ?thesis
      by (cases "ag_draft a") (auto simp: agent_choice_ok_def agent_form_load_def Let_def)
  qed
qed

lemma offered_codeagent: "offered (codeagent_select ps f) v \<longleftrightarrow> v \<in> set CODEAGENT_MODEL_OPTIONS"
  by (auto simp: offered_def codeagent_select_def control_defs plain_option_def unavailable_option_def list_ex_iff bex_Un)

lemma offered_provider:
  "\<not> fc_locked (provider_select ps f) \<Longrightarrow> offered (provider_select ps f) v \<longleftrightarrow> v \<in> prov_id ` set (enabledProviders ps)"
  by (auto simp: offered_def provider_select_def control_defs unavailable_option_def list_ex_iff bex_Un)

lemma offered_model: "\<not> fc_locked (model_select ps f) \<Longrightarrow> offered (model_select ps f) v \<longleftrightarrow> v \<in> set (selectedProviderModels ps f)"
  by (auto simp: offered_def model_select_def control_defs plain_option_def unavailable_option_def list_ex_iff bex_Un)

lemma select_names [simp]:
  "fc_name (source_select f) = str ''model_source''" "fc_name (codeagent_select ps f) = str ''codeagent_model''"
  "fc_name (provider_select ps f) = str ''provider_id''" "fc_name (model_select ps f) = str ''provider_model''"
  by (simp_all add: source_select_def codeagent_select_def provider_select_def model_select_def control_defs)

lemma find_enabled: "v \<in> prov_id ` set (enabledProviders ps) \<Longrightarrow> selectedProvider ps (f\<lparr>af_providerId := v\<rparr>) \<noteq> None"
  by (auto simp: selectedProvider_def find_None_iff)

lemma select_choice_ok:
  assumes "agent_inv ps f" "x \<in> set (model_selects ps f)" "\<not> fc_locked x" "offered x v"
  shows "agent_choice_ok ps (agent_select ps (fc_name x) v f)"
proof -
  have ok: "agent_choice_ok ps f" using assms(1) by (simp add: agent_inv_def)
  from assms(2) consider "x = source_select f" | "x = codeagent_select ps f" | "x = provider_select ps f" | "x = model_select ps f"
    by (auto simp: model_selects_def split: if_splits)
  then show ?thesis
  proof cases
    case 1
    then show ?thesis using ok by (simp add: agent_select_def agent_choice_ok_def selectedProvider_def selectedProviderModels_def)
  next
    case 2
    then have "v \<in> set CODEAGENT_MODEL_OPTIONS" using assms(4) offered_codeagent by blast
    moreover from this have "v \<noteq> []" by (auto simp: CODEAGENT_MODEL_OPTIONS_def)
    ultimately show ?thesis using ok 2 by (simp add: agent_select_def agent_choice_ok_def selectedProvider_def selectedProviderModels_def)
  next
    case 3
    then have "v \<in> prov_id ` set (enabledProviders ps)" using assms(3,4) offered_provider by blast
    then obtain p where p: "selectedProvider ps (f\<lparr>af_providerId := v\<rparr>) = Some p" using find_enabled by blast
    then have "agent_select ps (fc_name x) v f = f\<lparr>af_providerId := v, af_providerModel := (if prov_models p = [] then [] else hd (prov_models p))\<rparr>"
      using 3 by (simp add: agent_select_def choose_provider_def selectedProvider_def Let_def)
    moreover have "selectedProvider ps (f\<lparr>af_providerId := v, af_providerModel := m\<rparr>) = Some p" for m using p by (simp add: selectedProvider_def)
    ultimately show ?thesis using ok by (simp add: agent_choice_ok_def selectedProviderModels_def)
  next
    case 4
    then have "v \<in> set (selectedProviderModels ps f)" using assms(3,4) offered_model by blast
    then show ?thesis using ok 4 by (simp add: agent_select_def agent_choice_ok_def selectedProvider_def selectedProviderModels_def)
  qed
qed

lemma agent_reachable_inv: "agent_reachable ps f \<Longrightarrow> agent_inv ps f"
proof (induction rule: agent_reachable.induct)
  case (mount ps)
  then show ?case using settle_settled settle_choice_ok [OF _ load_choice_ok] by (simp add: agent_inv_def)
next
  case (arrived ps f qs l)
  have "agent_choice_ok qs f"
    using arrived no_provider_selected [of f ps] by (auto simp: agent_inv_def agent_choice_ok_def selectedProvider_def enabledProviders_def selectedProviderModels_def)
  with arrived show ?case using settle_settled settle_choice_ok by (auto simp: agent_inv_def)
next
  case (typed ps f name description prompt enabled)
  then show ?case by (intro agent_inv_choice [OF _ _ _ _ typed.IH]) (simp_all add: agent_type_def)
next
  case (toggled ps f)
  then show ?case by (intro agent_inv_choice [OF _ _ _ _ toggled.IH]) (simp_all add: toggle_prompt_view_def)
next
  case (selected ps f x v)
  then show ?case using settle_settled settle_choice_ok [OF _ select_choice_ok] by (auto simp: agent_inv_def)
next
  case (submitted ps f)
  show ?case
    by (rule agent_inv_choice [OF _ _ _ _ submitted.IH]) (auto simp: agent_handleSubmit_def Let_def split: option.splits)
qed

lemma unblocked_selects_offered:
  assumes "agent_inv ps f" "\<not> saveBlocked ps f" "x \<in> set (model_selects ps f)"
  shows "\<not> fc_locked x \<and> offered x (fc_value x)"
proof (cases "af_modelSource f")
  case Source_CodeAgent
  have "af_codeAgentModel f \<in> set CODEAGENT_MODEL_OPTIONS"
    using assms(1,2) Source_CodeAgent by (cases "ap_mode ps") (auto simp: agent_inv_def agent_choice_ok_def saveBlocked_def unavailableCodeAgentModel_def)
  then have "offered (codeagent_select ps f) (af_codeAgentModel f)" by (simp add: offered_codeagent)
  with Source_CodeAgent assms(3) show ?thesis
    by (auto simp: model_selects_def) (auto simp: source_select_def codeagent_select_def control_defs offered_def source_str_def)
next
  case Source_Provider
  obtain p where p: "selectedProvider ps f = Some p" "prov_models p \<noteq> []" "\<not> ap_providersLoading ps"
    "ap_mode ps = Mode_Edit \<Longrightarrow> af_providerModel f \<noteq> [] \<Longrightarrow> af_providerModel f \<in> set (prov_models p)"
    using not_blocked_provider [OF assms(2) Source_Provider] by metis
  have models: "selectedProviderModels ps f = prov_models p" using p(1) by (simp add: selectedProviderModels_def)
  have enabled: "af_providerId f \<in> prov_id ` set (enabledProviders ps)"
    using selectedProvider_Some [OF p(1)] by (force simp: enabledProviders_def)
  have "af_providerModel f \<in> set (prov_models p)"
    using assms(1) p models Source_Provider by (cases "ap_mode ps") (auto simp: agent_inv_def agent_settled_def agent_choice_ok_def)
  moreover have "\<not> fc_locked (provider_select ps f)" "\<not> fc_locked (model_select ps f)"
    using enabled p(2,3) models by (auto simp: provider_select_def model_select_def control_defs)
  ultimately have "offered (provider_select ps f) (af_providerId f)" "offered (model_select ps f) (af_providerModel f)"
    "\<not> fc_locked (provider_select ps f)" "\<not> fc_locked (model_select ps f)"
    using enabled models by (simp_all add: offered_provider offered_model)
  with Source_Provider assms(3) show ?thesis
    by (auto simp: model_selects_def)
       (auto simp: source_select_def provider_select_def model_select_def control_defs offered_def source_str_def)
qed

lemma blocked_is_explained:
  assumes "agent_inv ps f" "saveBlocked ps f"
  shows "availability_messages ps f \<noteq> [] \<or> (\<exists>x \<in> set (model_selects ps f). loading_option \<in> set (fc_options x) \<or> no_provider_option \<in> set (fc_options x))"
proof -
  have "enabledProviders ps = []" if "af_modelSource f = Source_Provider" "selectedProvider ps f = None" "\<not> ap_providersLoading ps"
      "\<not> unavailableDraftProvider ps f"
    using that assms(1) by (cases "ap_mode ps") (auto simp: agent_inv_def agent_settled_def agent_choice_ok_def unavailableDraftProvider_def)
  with assms(2) show ?thesis
    by (auto simp: saveBlocked_def providerSaveBlocked_def availability_messages_def showProviderModelsMessage_def model_selects_def
        provider_select_def control_defs unavailableCodeAgentModel_def unavailableProviderModel_def)
qed

text \<open>C23. The agent form is honest about what it submits. However it is used, whenever its save button
  is enabled every selector is enabled and shows a value it offers, so that a submitted draft names the
  model and the provider that are on the screen; and whenever saving is blocked the form says why, by a
  message or by the placeholder of the provider selector.\<close>
theorem agent_form_shows_what_it_submits:
  assumes "agent_reachable ps f"
  shows "(if fst (av_submit (AgentForm_view ps False hasCancel f))
      then av_messages (AgentForm_view ps False hasCancel f) \<noteq> []
        \<or> list_ex (\<lambda>x. list_ex (\<lambda>o'. o' = loading_option \<or> o' = no_provider_option) (fc_options x)) (av_selects (AgentForm_view ps False hasCancel f))
      else list_all (\<lambda>x. \<not> fc_locked x \<and> offered x (fc_value x)) (av_selects (AgentForm_view ps False hasCancel f)))
    \<and> (case submitted_draft (fst (agent_handleSubmit ps f)) of
         None \<Rightarrow> True
       | Some d \<Rightarrow> \<not> fst (av_submit (AgentForm_view ps False hasCancel f))
           \<and> dr_model d = trim (fc_value (last (av_selects (AgentForm_view ps False hasCancel f))))
           \<and> dr_provider_id d = (if af_modelSource f = Source_Provider then Some (trim (fc_value (av_selects (AgentForm_view ps False hasCancel f) ! 1))) else None))"
proof -
  note inv = agent_reachable_inv [OF assms]
  have view: "fst (av_submit (AgentForm_view ps False hasCancel f)) = saveBlocked ps f"
    "av_selects (AgentForm_view ps False hasCancel f) = model_selects ps f"
    "av_messages (AgentForm_view ps False hasCancel f) = availability_messages ps f"
    by (simp_all add: AgentForm_view_def)
  have "\<not> saveBlocked ps f \<and> dr_model d = trim (fc_value (last (model_selects ps f)))
      \<and> dr_provider_id d = (if af_modelSource f = Source_Provider then Some (trim (fc_value (model_selects ps f ! 1))) else None)"
    if "submitted_draft (fst (agent_handleSubmit ps f)) = Some d" for d
    using agent_submit_draft [OF that]
    by (cases "af_modelSource f") (auto simp: buildAgentDraftPayload_def model_selects_def codeagent_select_def provider_select_def model_select_def control_defs)
  then show ?thesis
    unfolding view using unblocked_selects_offered [OF inv] blocked_is_explained [OF inv]
    by (auto simp: list_all_iff list_ex_iff split: option.split)
qed

theorem agent_form_shows_what_it_submits_witness:
  "fc_value (last (av_selects (AgentForm_view demo_props False True (settle_defaults demo_props demo_agent_form)))) = str ''m2''
   \<and> list_all (\<lambda>x. offered x (fc_value x)) (av_selects (AgentForm_view demo_props False True (settle_defaults demo_props demo_agent_form)))"
proof -
  let ?f = "settle_defaults demo_props demo_agent_form"
  have "agent_reachable demo_props (settle_defaults demo_props (agent_form_load (ap_mode demo_props) (ap_agent demo_props) (agent_form_init (ap_mode demo_props))))"
    by (rule agent_reachable.mount [OF demo_providers_ok]) (auto simp: demo_props_def demo_agent_def demo_draft_def)
  then have r: "agent_reachable demo_props ?f" by (simp add: demo_agent_form_def demo_props_def)
  have "\<not> fst (av_submit (AgentForm_view demo_props False True ?f))" by code_simp
  moreover have "fc_value (last (av_selects (AgentForm_view demo_props False True ?f))) = str ''m2''" by code_simp
  ultimately show ?thesis using agent_form_shows_what_it_submits [OF r, of True] by (auto simp: list_all_iff)
qed

end
