(* ===== verification/EditPages.thy ===== *)
theory EditPages
  imports CatalogPages FormViews
begin

text \<open>
  The create, edit and detail pages of MCP servers as whole pages (\<open>McpServerFormPage.tsx\<close>,
  \<open>McpDetailPage.tsx\<close>): breadcrumbs, headers and summaries, and the composition of the detail hook, the
  mutation hook and the form. A page is the record of the hooks it uses and of the form while it is
  mounted; the handler passed to the form awaits a request and then a refetch, so each await is a
  step of its own. The headers and summaries of the provider and agent pages are here as well.
\<close>

subsection \<open>Breadcrumbs\<close>

record crumb =
  cr_label :: jstr
  cr_to :: "jstr option"

datatype shown_crumb = Crumb_Link jstr jstr | Crumb_Text jstr bool \<comment> \<open>the label, and whether it is marked as the current page\<close>

definition McpBreadcrumb :: "crumb list option \<Rightarrow> jstr option \<Rightarrow> shown_crumb list" where
  "McpBreadcrumb items serverName =
     (let resolvedItems = (case items of Some cs \<Rightarrow> cs | None \<Rightarrow>
            [\<lparr>cr_label = str ''MCP '' @ [0x7BA1, 0x7406], cr_to = Some (str ''/mcp'')\<rparr>, \<lparr>cr_label = orElse serverName (str ''...''), cr_to = None\<rparr>])
      in map (\<lambda>(index, item). let isCurrent = (int index = int (length resolvedItems) - 1) in
           case Option.bind (cr_to item) nonempty of
             Some t \<Rightarrow> if \<not> isCurrent then Crumb_Link (cr_label item) t else Crumb_Text (cr_label item) isCurrent
           | None \<Rightarrow> Crumb_Text (cr_label item) isCurrent) (enumerate 0 resolvedItems))"

definition layout_crumbs :: "crumb list \<Rightarrow> shown_crumb list" where
  \<comment> \<open>the breadcrumbs of the provider and agent layouts\<close>
  "layout_crumbs items = map (\<lambda>item. case Option.bind (cr_to item) nonempty of
     Some t \<Rightarrow> Crumb_Link (cr_label item) t | None \<Rightarrow> Crumb_Text (cr_label item) True) items"

record page_header =
  ph_items :: "shown_crumb list"
  ph_title :: jstr
  ph_description :: jstr

subsection \<open>Summaries of a server\<close>

fun runtime_str :: "McpServerRuntimeStatus \<Rightarrow> jstr" where
  "runtime_str Rt_Unknown = str ''unknown''"
| "runtime_str Rt_Starting = str ''starting''"
| "runtime_str Rt_Running = str ''running''"
| "runtime_str Rt_Stopping = str ''stopping''"
| "runtime_str Rt_Stopped = str ''stopped''"
| "runtime_str Rt_Error = str ''error''"

definition McpStatusBadge :: "McpServerRuntimeStatus \<Rightarrow> jstr" where
  "McpStatusBadge status = runtime_str status"

definition endpointLabel :: "McpServerDetail \<Rightarrow> jstr" where
  "endpointLabel server = (if srv_transport server = Stdio then str ''command'' else str ''url'')"

definition endpointValue :: "McpServerDetail \<Rightarrow> jstr option" where
  "endpointValue server = (if srv_transport server = Stdio then srv_command server else srv_url server)"

definition enabled_word :: "bool \<Rightarrow> jstr" where
  "enabled_word b = (if b then str ''enabled'' else str ''disabled'')"

definition dash :: "jstr option \<Rightarrow> jstr" where
  "dash v = orElse v (str ''-'')"

definition DetailDescription :: "McpServerDetail \<Rightarrow> jstr list" where
  "DetailDescription server = [McpStatusBadge (srv_runtime_status server), transport_str (srv_transport server),
     str ''desired '' @ desired_str (srv_desired_state server)]"

record server_card =
  sc_name :: jstr
  sc_status :: jstr
  sc_rows :: "(jstr \<times> jstr) list"
  sc_last_error :: "jstr option"

definition DetailSummaryCard :: "McpServerDetail \<Rightarrow> server_card" where
  "DetailSummaryCard server =
     \<lparr>sc_name = srv_name server, sc_status = McpStatusBadge (srv_runtime_status server),
      sc_rows = [(str ''Tools'', num_str (srv_tool_count server)), (str ''Desired'', desired_str (srv_desired_state server)),
        ([0x670D, 0x52A1] @ str '' ID'', srv_id server), ([0x4F20, 0x8F93, 0x65B9, 0x5F0F], transport_str (srv_transport server)),
        (endpointLabel server, dash (endpointValue server)), ([0x542F, 0x7528, 0x72B6, 0x6001], enabled_word (srv_enabled server)),
        ([0x6700, 0x8FD1, 0x68C0, 0x67E5], dash (srv_last_checked_at server))],
      sc_last_error = Option.bind (srv_last_error server) nonempty\<rparr>"

definition ServerSideNote :: "McpServerDetail \<Rightarrow> server_card" where
  "ServerSideNote server =
     \<lparr>sc_name = srv_name server, sc_status = McpStatusBadge (srv_runtime_status server),
      sc_rows = [([0x4F20, 0x8F93, 0x65B9, 0x5F0F], transport_str (srv_transport server)),
        (endpointLabel server, dash (endpointValue server)), ([0x76EE, 0x6807, 0x72B6, 0x6001], desired_str (srv_desired_state server)),
        ([0x542F, 0x7528, 0x72B6, 0x6001], enabled_word (srv_enabled server)),
        ([0x5DE5, 0x5177, 0x6570, 0x91CF], num_str (srv_tool_count server) @ str '' tools''),
        ([0x6700, 0x8FD1, 0x68C0, 0x67E5], dash (srv_last_checked_at server))],
      sc_last_error = Option.bind (srv_last_error server) nonempty\<rparr>"

record tool_row =
  tr_name :: jstr
  tr_description :: jstr
  tr_toggle :: jstr
  tr_schema :: "json js_obj option" \<comment> \<open>shown when the row is expanded\<close>

definition ToolRow :: "bool \<Rightarrow> McpServerTool \<Rightarrow> tool_row" where
  "ToolRow expanded tool =
     \<lparr>tr_name = tool_name tool, tr_description = orElse (tool_description tool) [0x65E0, 0x63CF, 0x8FF0],
      tr_toggle = [0x67E5, 0x770B] @ str '' schema '' @ (if expanded then [0x25B4] else [0x25BE]),
      tr_schema = (if expanded then Some (tool_input_schema tool) else None)\<rparr>"

definition toggle_tool :: "jstr \<Rightarrow> jstr list \<Rightarrow> jstr list" where
  \<comment> \<open>the names of the rows that are expanded; a row is identified by its name\<close>
  "toggle_tool name expanded = (if List.member expanded name then filter (\<lambda>n. n \<noteq> name) expanded else expanded @ [name])"

definition McpDetailToolsPanel :: "jstr list \<Rightarrow> McpServerTool list \<Rightarrow> tool_row table_body" where
  "McpDetailToolsPanel expanded tools =
     (if length tools = 0 then Body_Empty else Body_Rows (map (\<lambda>t. ToolRow (List.member expanded (tool_name t)) t) tools))"

definition McpDetailConfigPanel :: "McpServerDetail \<Rightarrow> jstr option \<times> (jstr \<times> jstr list) list" where
  "McpDetailConfigPanel server =
     (Option.bind (srv_last_error server) nonempty,
      [(str ''Transport'', [transport_str (srv_transport server)]),
       (if srv_transport server = Stdio then (str ''Command'', [dash (srv_command server)]) else (str ''URL'', [dash (srv_url server)])),
       (str ''Args'', [if length (srv_args server) > 0 then join (str '' '') (srv_args server) else str ''-'']),
       (str ''Enabled'', [if srv_enabled server then str ''true'' else str ''false'']),
       (str ''Desired State'', [desired_str (srv_desired_state server)]),
       (str ''Env'', if srv_env server = [] then [str ''-''] else map (\<lambda>(k, v). k @ [61] @ v) (srv_env server)),
       (str ''Headers'', if srv_headers server = [] then [str ''-''] else map (\<lambda>(k, v). k @ [61] @ v) (srv_headers server))])"

subsection \<open>Headers\<close>

definition mcp_root_crumb :: crumb where
  "mcp_root_crumb = \<lparr>cr_label = str ''MCP '' @ [0x7BA1, 0x7406], cr_to = Some (str ''/mcp'')\<rparr>"

definition server_crumbs :: "jstr option \<Rightarrow> McpServerDetail option \<Rightarrow> jstr \<Rightarrow> crumb list" where
  "server_crumbs serverId server page =
     [mcp_root_crumb,
      \<lparr>cr_label = (case server of Some s \<Rightarrow> srv_name s | None \<Rightarrow> orElse serverId (str ''...'')), cr_to = Some (str ''/mcp/'' @ target_server serverId server)\<rparr>,
      \<lparr>cr_label = page, cr_to = None\<rparr>]"

definition McpDetailPage_header :: "jstr option \<Rightarrow> McpServerDetail option \<Rightarrow> page_header" where
  "McpDetailPage_header serverId server =
     \<lparr>ph_items = McpBreadcrumb (Some (server_crumbs serverId server [0x67E5, 0x770B])) None,
      ph_title = (case server of Some s \<Rightarrow> srv_name s | None \<Rightarrow> orElse serverId (str ''MCP Server'')),
      ph_description = (case server of Some s \<Rightarrow> join (str '' '' @ [0x00B7] @ str '' '') (DetailDescription s)
        | None \<Rightarrow> [0x67E5, 0x770B] @ str '' MCP server '' @ [0x914D, 0x7F6E, 0x3002])\<rparr>"

definition McpCreatePage_header :: page_header where
  "McpCreatePage_header =
     \<lparr>ph_items = McpBreadcrumb (Some [mcp_root_crumb, \<lparr>cr_label = [0x65B0, 0x589E] @ str '' Server'', cr_to = None\<rparr>]) None,
      ph_title = [0x65B0, 0x589E] @ str '' MCP Server'',
      ph_description = [0x6309, 0x9875, 0x9762, 0x8868, 0x5355, 0x521B, 0x5EFA] @ str '' MCP server'' @ [0xFF0C, 0x4FDD, 0x5B58, 0x540E, 0x8FDB, 0x5165, 0x67E5, 0x770B, 0x9875, 0x3002]\<rparr>"

definition McpEditPage_header :: "jstr option \<Rightarrow> McpServerDetail option \<Rightarrow> page_header" where
  "McpEditPage_header serverId server =
     \<lparr>ph_items = McpBreadcrumb (Some (server_crumbs serverId server [0x7F16, 0x8F91])) None,
      ph_title = [0x7F16, 0x8F91] @ str '' MCP Server'',
      ph_description = (case server of
          Some s \<Rightarrow> transport_str (srv_transport s) @ str '' '' @ [0x00B7] @ str '' '' @ [0x5F53, 0x524D] @ str '' '' @ runtime_str (srv_runtime_status s)
        | None \<Rightarrow> [0x4FEE, 0x6539] @ str '' MCP server '' @ [0x914D, 0x7F6E, 0x3002])\<rparr>"

definition provider_crumbs :: "jstr option \<Rightarrow> LlmProviderDetail option \<Rightarrow> jstr \<Rightarrow> crumb list" where
  "provider_crumbs providerId provider page =
     [\<lparr>cr_label = str ''LLM Providers'', cr_to = Some (str ''/llm-providers'')\<rparr>,
      \<lparr>cr_label = (case provider of Some p \<Rightarrow> prov_display_name p | None \<Rightarrow> orElse providerId (str ''...'')),
       cr_to = Some (str ''/llm-providers/'' @ target_provider providerId provider)\<rparr>,
      \<lparr>cr_label = page, cr_to = None\<rparr>]"

definition provider_line :: "LlmProviderDetail \<Rightarrow> jstr" where
  "provider_line p = prov_provider_type p @ str '' '' @ [0x00B7] @ str '' '' @ enabled_word (prov_enabled p)"

definition LlmProviderDetailPage_header :: "jstr option \<Rightarrow> LlmProviderDetail option \<Rightarrow> page_header" where
  "LlmProviderDetailPage_header providerId provider =
     \<lparr>ph_items = layout_crumbs (provider_crumbs providerId provider [0x67E5, 0x770B]),
      ph_title = (case provider of Some p \<Rightarrow> prov_display_name p | None \<Rightarrow> orElse providerId (str ''LLM Provider'')),
      ph_description = (case provider of Some p \<Rightarrow> provider_line p | None \<Rightarrow> [0x67E5, 0x770B] @ str '' provider '' @ [0x914D, 0x7F6E, 0x3002])\<rparr>"

definition LlmProviderEditPage_header :: "jstr option \<Rightarrow> LlmProviderDetail option \<Rightarrow> page_header" where
  "LlmProviderEditPage_header providerId provider =
     \<lparr>ph_items = layout_crumbs (provider_crumbs providerId provider [0x7F16, 0x8F91]),
      ph_title = [0x7F16, 0x8F91] @ str '' LLM Provider'',
      ph_description = (case provider of Some p \<Rightarrow> provider_line p | None \<Rightarrow> [0x4FEE, 0x6539] @ str '' provider '' @ [0x914D, 0x7F6E, 0x3002])\<rparr>"

definition AgentEditPage_header :: "jstr option \<Rightarrow> AgentDetail option \<Rightarrow> page_header" where
  "AgentEditPage_header agentId agent =
     \<lparr>ph_items = layout_crumbs
        [\<lparr>cr_label = str ''Agent '' @ [0x914D, 0x7F6E], cr_to = Some (str ''/agents'')\<rparr>,
         \<lparr>cr_label = (case agent of Some a \<Rightarrow> ag_display_name a | None \<Rightarrow> orElse agentId (str ''...'')), cr_to = None\<rparr>,
         \<lparr>cr_label = [0x7F16, 0x8F91], cr_to = None\<rparr>],
      ph_title = [0x7F16, 0x8F91] @ str '' Agent'',
      ph_description = (case agent of
          Some a \<Rightarrow> orElse (map_option dr_model (ag_draft a)) (str ''...'') @ str '' '' @ [0x00B7] @ str '' ''
            @ (if ag_enabled a then [0x5DF2, 0x542F, 0x7528] else [0x5DF2, 0x505C, 0x7528])
        | None \<Rightarrow> [0x4FEE, 0x6539] @ str '' Agent '' @ [0x914D, 0x7F6E, 0x8349, 0x7A3F, 0x3002])\<rparr>"

definition is_current :: "shown_crumb \<Rightarrow> bool" where
  "is_current c = (case c of Crumb_Text l b \<Rightarrow> b | Crumb_Link l t \<Rightarrow> False)"

text \<open>The breadcrumb of the MCP pages marks its last item, and only it, as the current page.\<close>
lemma mcp_breadcrumb_current:
  assumes "items \<noteq> []"
  shows "map is_current (McpBreadcrumb (Some items) n) = replicate (length items - 1) False @ [True]"
proof -
  have pos: "int (length items) - 1 = int (length items - 1)" using assms by (cases items) auto
  have "map is_current (McpBreadcrumb (Some items) n) = map (\<lambda>(index, item). index = length items - 1) (enumerate 0 items)"
    by (auto simp: McpBreadcrumb_def Let_def is_current_def pos split: option.splits if_splits)
  also have "\<dots> = map (\<lambda>index. index = length items - 1) (map fst (enumerate 0 items))"
    by (simp only: map_map comp_def case_prod_unfold)
  also have "map fst (enumerate 0 items) = [0..<length items]" by simp
  also have "map (\<lambda>index. index = length items - 1) [0..<length items] = replicate (length items - 1) False @ [True]"
    using assms by (intro nth_equalityI) (auto simp: nth_append less_Suc_eq)
  finally show ?thesis .
qed

text \<open>The agent's edit page marks two items as the current page.\<close>
lemma agent_breadcrumb_two_current: "map is_current (ph_items (AgentEditPage_header i a)) = [False, True, True]"
  by (simp add: AgentEditPage_header_def layout_crumbs_def is_current_def nonempty_def)

subsection \<open>The detail page of a server\<close>

definition detail_page_act :: "(jstr \<Rightarrow> bool) \<Rightarrow> jstr option \<Rightarrow> mcp_action \<Rightarrow> 'r mcp_detail_page \<Rightarrow> mcp_mutation option \<times> 'r mcp_detail_page" where
  \<comment> \<open>the handlers given to the actions menu; the menu is shown only with a server\<close>
  "detail_page_act confirm serverId a p = (case st_data (r_state (dp_detail p)) of
     None \<Rightarrow> (None, p)
   | Some server \<Rightarrow>
       if a = Act_Delete then detail_handleDelete confirm serverId p
       else if a = Act_Restart \<and> \<not> confirm ([0x786E, 0x8BA4, 0x91CD, 0x542F] @ str '' '' @ srv_name server @ [0xFF1F]) then (None, p)
       else (Some (action_mutation (target_server serverId (Some server)) a), p\<lparr>dp_mutations := mcp_run False False (dp_mutations p)\<rparr>))"

record detail_content =
  dc_error :: "jstr option"
  dc_form :: mcp_form_view
  dc_tool_count :: jstr
  dc_tools :: "tool_row table_body"
  dc_card :: server_card

definition DetailContent :: "jstr list \<Rightarrow> mcp_form \<Rightarrow> McpServerDetail \<Rightarrow> detail_content" where
  \<comment> \<open>the form is in view mode; \<open>f\<close> is its state\<close>
  "DetailContent expanded f server =
     \<lparr>dc_error = Option.bind (srv_last_error server) nonempty, dc_form = McpServerForm_view Mode_View False False f,
      dc_tool_count = num_str (srv_tool_count server) @ str '' tools'', dc_tools = McpDetailToolsPanel expanded (srv_tools server),
      dc_card = DetailSummaryCard server\<rparr>"

subsection \<open>The form pages\<close>

definition mcp_form_fresh :: mcp_form where
  "mcp_form_fresh = \<lparr>mf_name = [], mf_transport = Stdio, mf_command = [], mf_url = [], mf_argsText = [], mf_envText = [],
     mf_headersText = [], mf_enabled = False, mf_desiredState = Desired_Stopped, mf_fieldErrors = [], mf_focus = None\<rparr>"

record 'r mcp_edit_page =
  ep_serverId :: "jstr option"
  ep_detail :: "(jstr option, McpServerDetail option) resource"
  ep_mutations :: "'r mutations"
  ep_form :: "mcp_form option" \<comment> \<open>mounted while there is a server\<close>
  ep_updates :: "(nat \<times> jstr) list" \<comment> \<open>runs awaited by \<open>onUpdate\<close>, with the identifier of its render\<close>
  ep_refetches :: "(nat \<times> jstr) list" \<comment> \<open>refetches awaited by \<open>onUpdate\<close>\<close>

definition edit_form_of :: "(jstr option, McpServerDetail option) resource \<Rightarrow> mcp_form option" where
  "edit_form_of d = map_option (\<lambda>s. mcp_form_load Mode_Edit (Some s) mcp_form_fresh) (st_data (r_state d))"

definition edit_mount :: "jstr option \<Rightarrow> 'r mcp_edit_page" where
  "edit_mount serverId = \<lparr>ep_serverId = serverId, ep_detail = useMcpServerDetail_mount serverId, ep_mutations = mutations_init,
     ep_form = None, ep_updates = [], ep_refetches = []\<rparr>"

definition edit_submit :: "(jstr \<Rightarrow> jstr option) \<Rightarrow> 'r mcp_edit_page \<Rightarrow> mcp_mutation option \<times> 'r mcp_edit_page" where
  \<comment> \<open>a submission; the button is disabled while a mutation is pending\<close>
  "edit_submit up p = (case ep_form p of
     None \<Rightarrow> (None, p)
   | Some f \<Rightarrow>
       if mut_pending (ep_mutations p) then (None, p)
       else case mcp_handleSubmit up Mode_Edit (st_data (r_state (ep_detail p))) f of
         (Submit_Update i payload, f') \<Rightarrow> (Some (Mcp_updateServer i payload),
           p\<lparr>ep_form := Some f', ep_mutations := mcp_run False False (ep_mutations p),
             ep_updates := (mut_next (ep_mutations p), target_server (ep_serverId p) (st_data (r_state (ep_detail p)))) # ep_updates p\<rparr>)
       | (_, f') \<Rightarrow> (None, p\<lparr>ep_form := Some f'\<rparr>))"

definition saved_at :: "jstr \<Rightarrow> jstr \<times> json" where
  "saved_at target = (str ''/mcp/'' @ target, JObj [(str ''mcpNotice'', JStr (str ''MCP Server '' @ [0x914D, 0x7F6E, 0x5DF2, 0x4FDD, 0x5B58, 0x3002]))])"

definition edit_update_settled :: "nat \<Rightarrow> thrown + 'r \<Rightarrow> 'r mcp_edit_page \<Rightarrow> (jstr \<times> json) option \<times> 'r mcp_edit_page" where
  \<comment> \<open>the update has been answered: the server is fetched again, which unmounts the form\<close>
  "edit_update_settled i out p = (case map_of (ep_updates p) i of
     None \<Rightarrow> (None, p)
   | Some target \<Rightarrow>
       (let q = p\<lparr>ep_updates := filter (\<lambda>u. fst u \<noteq> i) (ep_updates p), ep_mutations := mcp_continue i (Action_Settled out) (ep_mutations p)\<rparr>
        in case out of
             Inl e \<Rightarrow> (None, q)
           | Inr r \<Rightarrow>
               (let d = useMcpServerDetail_refetch (ep_detail q); q' = q\<lparr>ep_detail := d, ep_form := edit_form_of d\<rparr>
                in if missing_id (r_key (ep_detail q)) then (Some (saved_at target), q')
                   else (None, q'\<lparr>ep_refetches := (requestIdRef d, target) # ep_refetches q\<rparr>))))"

definition edit_detail_response :: "nat \<Rightarrow> thrown + McpServerDetail \<Rightarrow> 'r mcp_edit_page \<Rightarrow> (jstr \<times> json) option \<times> 'r mcp_edit_page" where
  \<comment> \<open>an answer to a detail request; a handler that awaited it navigates\<close>
  "edit_detail_response j r p =
     (let d = useMcpServerDetail_response j r (ep_detail p);
          f = (if mountedRef (ep_detail p) \<and> requestIdRef (ep_detail p) = j then edit_form_of d else ep_form p)
      in (map_option saved_at (map_of (ep_refetches p) j),
          p\<lparr>ep_detail := d, ep_form := f, ep_refetches := filter (\<lambda>u. fst u \<noteq> j) (ep_refetches p)\<rparr>))"

definition edit_cancel :: "'r mcp_edit_page \<Rightarrow> jstr" where
  "edit_cancel p = str ''/mcp/'' @ target_server (ep_serverId p) (st_data (r_state (ep_detail p)))"

datatype edit_part = Edit_Loading | Edit_NotFound | Edit_Alert jstr | Edit_Form mcp_form_view | Edit_Note server_card

definition McpEditPage_view :: "'r mcp_edit_page \<Rightarrow> edit_part list" where
  "McpEditPage_view p =
     (let d = r_state (ep_detail p) in
      (if st_loading d \<and> st_data d = None then [Edit_Loading] else [])
      @ (if isMcpNotFoundError (st_error d) \<and> \<not> st_loading d then [Edit_NotFound] else [])
      @ (case (st_data d, ep_form p) of
           (Some server, Some f) \<Rightarrow>
             (case getMcpErrorMessage (mut_error (ep_mutations p)) of Some (c # cs) \<Rightarrow> [Edit_Alert (c # cs)] | _ \<Rightarrow> [])
             @ [Edit_Form (McpServerForm_view Mode_Edit (mut_pending (ep_mutations p)) True f), Edit_Note (ServerSideNote server)]
         | _ \<Rightarrow> []))"

record 'r mcp_create_page =
  cp_mutations :: "'r mutations"
  cp_form :: mcp_form
  cp_creates :: "nat list" \<comment> \<open>runs awaited by \<open>onCreate\<close>\<close>

definition create_mount :: "'r mcp_create_page" where
  "create_mount = \<lparr>cp_mutations = mutations_init, cp_form = mcp_focus_effect Mode_Create (mcp_form_load Mode_Create None mcp_form_fresh), cp_creates = []\<rparr>"

definition create_submit :: "(jstr \<Rightarrow> jstr option) \<Rightarrow> 'r mcp_create_page \<Rightarrow> mcp_mutation option \<times> 'r mcp_create_page" where
  "create_submit up p =
     (if mut_pending (cp_mutations p) then (None, p)
      else case mcp_handleSubmit up Mode_Create None (cp_form p) of
        (Submit_Create payload, f') \<Rightarrow> (Some (Mcp_createServer payload),
          p\<lparr>cp_form := f', cp_mutations := mcp_run False False (cp_mutations p), cp_creates := mut_next (cp_mutations p) # cp_creates p\<rparr>)
      | (_, f') \<Rightarrow> (None, p\<lparr>cp_form := f'\<rparr>))"

definition create_settled :: "nat \<Rightarrow> thrown + McpServerDetail \<Rightarrow> McpServerDetail mcp_create_page \<Rightarrow> (jstr \<times> json) option \<times> McpServerDetail mcp_create_page" where
  "create_settled i out p =
     (if \<not> List.member (cp_creates p) i then (None, p)
      else
        ((case out of Inl e \<Rightarrow> None | Inr created \<Rightarrow> Some (mcp_created created)),
         p\<lparr>cp_creates := filter (\<lambda>j. j \<noteq> i) (cp_creates p), cp_mutations := mcp_continue i (Action_Settled out) (cp_mutations p)\<rparr>))"

definition McpCreatePage_view :: "'r mcp_create_page \<Rightarrow> jstr option \<times> mcp_form_view" where
  "McpCreatePage_view p =
     (Option.bind (getMcpErrorMessage (mut_error (cp_mutations p))) nonempty,
      McpServerForm_view Mode_Create (mut_pending (cp_mutations p)) True (cp_form p))"

subsection \<open>The provider and agent pages\<close>

record delete_dialog =
  dd_title :: jstr
  dd_text :: jstr
  dd_disabled :: bool \<comment> \<open>both buttons\<close>
  dd_confirm_label :: jstr

definition DeleteConfirm :: "jstr \<Rightarrow> bool \<Rightarrow> delete_dialog" where
  "DeleteConfirm displayName pending =
     \<lparr>dd_title = [0x786E, 0x8BA4, 0x5220, 0x9664] @ str '' Provider'' @ [0xFF1F],
      dd_text = [0x5C06, 0x5220, 0x9664] @ str '' '' @ displayName @ [0x3002, 0x5220, 0x9664, 0x540E] @ str '' Agent version ''
        @ [0x65E0, 0x6CD5, 0x518D, 0x901A, 0x8FC7, 0x8FD9, 0x4E2A] @ str '' provider '' @ [0x53D1, 0x8D77, 0x65B0, 0x8FD0, 0x884C, 0x3002],
      dd_disabled = pending,
      dd_confirm_label = (if pending then [0x5220, 0x9664, 0x4E2D, 0x2026] else [0x786E, 0x8BA4, 0x5220, 0x9664])\<rparr>"

definition ConfigMapPanel :: "jstr js_obj \<Rightarrow> (jstr \<times> jstr) list option" where
  \<comment> \<open>\<open>None\<close> where the panel says that nothing is configured\<close>
  "ConfigMapPanel values = (if length (obj_keys values) = 0 then None else Some values)"

definition provider_overview :: "LlmProviderDetail \<Rightarrow> (jstr \<times> jstr) list" where
  "provider_overview p =
     [(str ''Provider Type'', prov_provider_type p), (str ''Base URL'', dash (prov_base_url p)),
      (str ''API Key'', if prov_api_key_configured p then str ''configured'' else str ''missing''),
      (str ''Models'', num_str (int (length (prov_models p)))), ([0x72B6, 0x6001], enabled_word (prov_enabled p))]"

definition ProviderSummary :: "LlmProviderDetail \<Rightarrow> jstr \<times> jstr list" where
  "ProviderSummary p = (prov_display_name p,
     [str ''id: '' @ prov_id p, str ''provider_type: '' @ prov_provider_type p,
      str ''api_key: '' @ (if prov_api_key_configured p then str ''configured'' else str ''missing'')])"

definition InteractionTrace :: "LlmProviderModelTestResponse \<Rightarrow> jstr option \<times> json js_obj \<times> json js_obj" where
  \<comment> \<open>the answer shown as Markdown, and the request and response printed below it\<close>
  "InteractionTrace result = (nonempty (responseContent result), orElse (mt_request result) [], orElse (mt_response result) [])"

datatype provider_part =
    Prov_Notice jstr | Prov_Error jstr | Prov_Loading | Prov_Confirm delete_dialog
  | Prov_Form llm_form_view | Prov_Models "model_row list" | Prov_Map "(jstr \<times> jstr) list option" | Prov_Overview "(jstr \<times> jstr) list"
  | Prov_Summary "jstr \<times> jstr list"

definition detail_state_parts :: "'d option AsyncState \<Rightarrow> provider_part list" where
  \<comment> \<open>loading, or the error of the detail request\<close>
  "detail_state_parts d = (if st_loading d \<and> st_data d = None then [Prov_Loading] else [])
     @ (case st_error d of Some e \<Rightarrow> if \<not> st_loading d then [Prov_Error (error_message e)] else [] | None \<Rightarrow> [])"

definition mutation_error_part :: "'r mutations \<Rightarrow> provider_part list" where
  "mutation_error_part m = (case mut_error m of Some e \<Rightarrow> [Prov_Error (error_message e)] | None \<Rightarrow> [])"

definition LlmProviderDetailPage_view :: "json option \<Rightarrow> llm_form \<Rightarrow> llm_detail_page \<Rightarrow> provider_part list" where
  \<comment> \<open>\<open>f\<close> is the state of the form, which is in view mode\<close>
  "LlmProviderDetailPage_view state f p =
     (case getNavigationNotice ''llmProviderNotice'' state of Some n \<Rightarrow> [Prov_Notice n] | None \<Rightarrow> [])
     @ mutation_error_part (ld_mutations p) @ detail_state_parts (r_state (ld_detail p))
     @ (case st_data (r_state (ld_detail p)) of
          None \<Rightarrow> []
        | Some provider \<Rightarrow>
            (if ld_confirmingDelete p then [Prov_Confirm (DeleteConfirm (prov_display_name provider) (mut_pending (ld_mutations p)))] else [])
            @ [Prov_Form (LlmProviderForm_view Mode_View (Some provider) False False f),
               Prov_Models (ModelsPanel (prov_models provider) (ld_pendingModel p) (ld_testResults p)),
               Prov_Map (ConfigMapPanel (prov_default_headers provider)), Prov_Map (ConfigMapPanel (prov_default_query provider)),
               Prov_Overview (provider_overview provider)])"

definition LlmProviderEditPage_view ::
  "llm_form \<Rightarrow> (jstr option, LlmProviderDetail option) resource \<Rightarrow> 'r mutations \<Rightarrow> provider_part list" where
  "LlmProviderEditPage_view f d m =
     detail_state_parts (r_state d)
     @ (case st_data (r_state d) of
          None \<Rightarrow> []
        | Some provider \<Rightarrow> mutation_error_part m
            @ [Prov_Form (LlmProviderForm_view Mode_Edit (Some provider) (mut_pending m) True f), Prov_Summary (ProviderSummary provider)])"

datatype agent_part = Agent_Loading | Agent_Error jstr | Agent_Form agent_form_view

definition AgentEditPage_view ::
  "agent_form \<Rightarrow> LlmProviderSummary list AsyncState \<Rightarrow> (jstr option, AgentDetail option) resource \<Rightarrow> 'r mutations \<Rightarrow> agent_part list" where
  "AgentEditPage_view f providers d m =
     (let s = r_state d in
      (if st_loading s \<and> st_data s = None then [Agent_Loading] else [])
      @ (case st_error s of Some e \<Rightarrow> if \<not> st_loading s then [Agent_Error (error_message e)] else [] | None \<Rightarrow> [])
      @ (case st_data s of
           None \<Rightarrow> []
         | Some agent \<Rightarrow>
             (case mut_error m of Some e \<Rightarrow> [Agent_Error (error_message e)] | None \<Rightarrow> [])
             @ [Agent_Form (AgentForm_view \<lparr>ap_mode = Mode_Edit, ap_agent = Some agent, ap_providers = st_data providers,
                  ap_providersLoading = st_loading providers\<rparr> (mut_pending m) True f)]))"

definition AgentCreatePage_view :: "agent_form \<Rightarrow> LlmProviderSummary list AsyncState \<Rightarrow> 'r mutations \<Rightarrow> agent_part list" where
  "AgentCreatePage_view f providers m =
     (case mut_error m of Some e \<Rightarrow> [Agent_Error (error_message e)] | None \<Rightarrow> [])
     @ [Agent_Form (AgentForm_view \<lparr>ap_mode = Mode_Create, ap_agent = None, ap_providers = st_data providers,
          ap_providersLoading = st_loading providers\<rparr> (mut_pending m) True f)]"

text \<open>A page whose detail request has failed shows the error of the request in place of the form, in
  every state its detail hook can reach.\<close>
lemma provider_error_replaces_form:
  assumes "async_reachable useLlmProviderDetail_refetch None d" "st_error (r_state d) = Some e"
  shows "LlmProviderEditPage_view f d m = [Prov_Error (error_message e)]"
proof -
  have "async_inv None d" using assms(1) by (rule llm_provider_detail.reachable_inv)
  with assms(2) have "st_data (r_state d) = None" "\<not> st_loading (r_state d)" by (auto simp: async_inv_def)
  with assms(2) show ?thesis by (simp add: LlmProviderEditPage_view_def detail_state_parts_def)
qed

subsection \<open>Properties\<close>

lemma edit_submit_cases:
  assumes "edit_submit up p = (Some mu, q)"
  obtains f f' srv payload where "ep_form p = Some f" "\<not> mut_pending (ep_mutations p)" "st_data (r_state (ep_detail p)) = Some srv"
    "mcp_handleSubmit up Mode_Edit (Some srv) f = (Submit_Update (srv_id srv) payload, f')" "mu = Mcp_updateServer (srv_id srv) payload"
    "q = p\<lparr>ep_form := Some f', ep_mutations := mcp_run False False (ep_mutations p),
       ep_updates := (mut_next (ep_mutations p), srv_id srv) # ep_updates p\<rparr>"
proof -
  obtain f where f: "ep_form p = Some f" "\<not> mut_pending (ep_mutations p)" using assms by (auto simp: edit_submit_def split: option.splits if_splits)
  obtain i payload f' where s: "mcp_handleSubmit up Mode_Edit (st_data (r_state (ep_detail p))) f = (Submit_Update i payload, f')"
    using assms f by (auto simp: edit_submit_def split: mcp_submit.splits prod.splits)
  then obtain srv where srv: "st_data (r_state (ep_detail p)) = Some srv"
    by (auto simp: mcp_handleSubmit_def Let_def split: prod.splits if_splits option.splits)
  with s have i: "i = srv_id srv" using submit_update_cases by simp
  show thesis using f s srv i assms by (intro that [OF f srv]) (auto simp: edit_submit_def target_server_def)
qed

definition entered :: "mcp_form \<Rightarrow> mcp_form" where
  \<comment> \<open>the fields of the form, without its errors and its focus\<close>
  "entered f = f\<lparr>mf_fieldErrors := [], mf_focus := None\<rparr>"

lemma submit_keeps_entered: "entered (snd (mcp_handleSubmit up mode server f)) = entered f"
proof (cases "mcp_valid up f")
  case True
  then show ?thesis
    by (cases server) (simp_all add: mcp_handleSubmit_def validate_valid Let_def entered_def)
next
  case False
  then obtain fld msg focus where "validateForm up f = fail_field fld msg focus f" using validate_refusal by blast
  then show ?thesis by (simp add: mcp_handleSubmit_def fail_field_def entered_def)
qed

lemma entered_values:
  "map fc_value (mv_controls (McpServerForm_view m b c f)) = map fc_value (mv_controls (McpServerForm_view m b c (entered f)))"
  by (simp add: McpServerForm_view_def McpServerForm_controls_def Let_def control_defs entered_def)

lemma mcp_message_nonempty:
  assumes "error_message e \<noteq> []"
  obtains c cs where "getMcpErrorMessage (Some e) = Some (c # cs)"
proof -
  have "orElse (api_detail e) (error_message e) \<noteq> []" using assms by (cases e) (auto simp: nonempty_def split: option.split)
  then have "\<exists>m. getMcpErrorMessage (Some e) = Some m \<and> m \<noteq> []" by (simp add: getMcpErrorMessage_def Let_def str_def)
  then show thesis using that by (metis list.exhaust)
qed

lemma edit_save_failed:
  assumes "mut_inv (ep_mutations p)" "mut_mounted (ep_mutations p)" "\<not> mut_pending (ep_mutations p)" "i = mut_next (ep_mutations p)"
    and "q = p\<lparr>ep_form := Some f', ep_mutations := mcp_run False False (ep_mutations p), ep_updates := (i, t) # ep_updates p\<rparr>"
    and "st_data (r_state (ep_detail p)) = Some srv" "error_message (asError e) \<noteq> []"
  shows "fst (edit_update_settled i (Inl e) q) = None" "ep_detail (snd (edit_update_settled i (Inl e) q)) = ep_detail p"
    "ep_form (snd (edit_update_settled i (Inl e) q)) = Some f'" "\<not> mut_pending (ep_mutations (snd (edit_update_settled i (Inl e) q)))"
    "\<exists>m. getMcpErrorMessage (Some (asError e)) = Some m \<and> Edit_Alert m \<in> set (McpEditPage_view (snd (edit_update_settled i (Inl e) q)))"
proof -
  obtain c cs where m: "getMcpErrorMessage (Some (asError e)) = Some (c # cs)" using mcp_message_nonempty [OF assms(7)] .
  note run = mcp_failed_request [OF assms(1,2), of e False False]
  show "fst (edit_update_settled i (Inl e) q) = None" "ep_detail (snd (edit_update_settled i (Inl e) q)) = ep_detail p"
    "ep_form (snd (edit_update_settled i (Inl e) q)) = Some f'" "\<not> mut_pending (ep_mutations (snd (edit_update_settled i (Inl e) q)))"
    using assms(3) run by (simp_all add: edit_update_settled_def assms(4,5) Let_def mut_pending_def)
  show "\<exists>m. getMcpErrorMessage (Some (asError e)) = Some m \<and> Edit_Alert m \<in> set (McpEditPage_view (snd (edit_update_settled i (Inl e) q)))"
    using m run by (simp add: edit_update_settled_def McpEditPage_view_def assms(4,5,6) Let_def)
qed

lemma saved_notice_shown: "\<exists>n. Part_Notice n \<in> set (detail_page_view (Some (snd (saved_at t))) d)"
proof -
  have "trim (str ''MCP Server '' @ [0x914D, 0x7F6E, 0x5DF2, 0x4FDD, 0x5B58, 0x3002]) \<noteq> []" by code_simp
  then show ?thesis by (simp add: detail_page_view_def Let_def getNavigationNotice_def saved_at_def obj_get_def)
qed

lemma edit_save_succeeded:
  fixes x :: 'r and p q :: "'r mcp_edit_page"
  assumes "q = p\<lparr>ep_form := Some f', ep_mutations := mcp_run False False (ep_mutations p), ep_updates := (i, t) # ep_updates p\<rparr>"
    and "\<not> missing_id (r_key (ep_detail p))"
  defines "s \<equiv> snd (edit_update_settled i (Inr x) q)"
  shows "fst (edit_update_settled i (Inr x) q) = None" "McpEditPage_view s = [Edit_Loading]"
    "fst (edit_detail_response (requestIdRef (ep_detail s)) r s) = Some (saved_at t)"
proof -
  have "st_data (r_state (useMcpServerDetail_refetch (ep_detail p))) = None" "st_loading (r_state (useMcpServerDetail_refetch (ep_detail p)))"
    "st_error (r_state (useMcpServerDetail_refetch (ep_detail p))) = None"
    using assms(2) by (simp_all add: useMcpServerDetail_refetch_def keyed_refetch_def send_request_def)
  then show "fst (edit_update_settled i (Inr x) q) = None" "McpEditPage_view s = [Edit_Loading]"
    "fst (edit_detail_response (requestIdRef (ep_detail s)) r s) = Some (saved_at t)"
    using assms(2) by (simp_all add: s_def edit_update_settled_def edit_detail_response_def McpEditPage_view_def isMcpNotFoundError_def assms(1) Let_def)
qed

text \<open>C22. Saving from the edit page of a server, from the click to the next page. A submission that is
  sent is one \<open>PATCH\<close> of the server's own URL. If it fails, the page stays where it is: nothing is
  fetched or left, the form keeps what was entered and can be submitted again, and the error is shown
  above it. If it succeeds the server is fetched again, the page shows that it is loading, and with the
  answer, whatever it is, the page leaves for the server's detail page, which shows that the
  configuration was saved.\<close>
theorem mcp_edit_save_outcomes:
  assumes "mutations_reachable (\<lambda>(hook_cb, cb). mcp_run hook_cb cb) mcp_continue (ep_mutations p)" "mut_mounted (ep_mutations p)"
    and "edit_submit up p = (Some mu, q)" "\<not> missing_id (r_key (ep_detail p))" "i = mut_next (ep_mutations p)"
    and "st_data (r_state (ep_detail p)) = Some srv" "mcp_mutation_request mu = Inr rq" "error_message (asError e) \<noteq> []"
  shows "init_method rq = Some (str ''PATCH'') \<and> buildServerUrl (srv_id srv) = Inr (req_url rq)
    \<and> fst (edit_update_settled i (Inl e) q) = None \<and> ep_detail (snd (edit_update_settled i (Inl e) q)) = ep_detail p
    \<and> map_option entered (ep_form (snd (edit_update_settled i (Inl e) q))) = map_option entered (ep_form p)
    \<and> (\<exists>m. getMcpErrorMessage (Some (asError e)) = Some m \<and> Edit_Alert m \<in> set (McpEditPage_view (snd (edit_update_settled i (Inl e) q))))
    \<and> \<not> mut_pending (ep_mutations (snd (edit_update_settled i (Inl e) q)))
    \<and> fst (edit_update_settled i (Inr x) q) = None \<and> McpEditPage_view (snd (edit_update_settled i (Inr x) q)) = [Edit_Loading]
    \<and> (\<exists>path state n. fst (edit_detail_response (requestIdRef (ep_detail (snd (edit_update_settled i (Inr x) q)))) r (snd (edit_update_settled i (Inr x) q)))
            = Some (path, state)
        \<and> path = str ''/mcp/'' @ srv_id srv \<and> Part_Notice n \<in> set (detail_page_view (Some state) d))"
proof -
  note inv = mcp_mut.reachable_mut_inv [OF assms(1)]
  obtain f f' payload where s: "ep_form p = Some f" "\<not> mut_pending (ep_mutations p)"
    "mcp_handleSubmit up Mode_Edit (Some srv) f = (Submit_Update (srv_id srv) payload, f')" "mu = Mcp_updateServer (srv_id srv) payload"
    "q = p\<lparr>ep_form := Some f', ep_mutations := mcp_run False False (ep_mutations p), ep_updates := (i, srv_id srv) # ep_updates p\<rparr>"
    using edit_submit_cases [OF assms(3)] assms(5,6) by (metis option.inject)
  have request: "init_method rq = Some (str ''PATCH'') \<and> buildServerUrl (srv_id srv) = Inr (req_url rq)"
    using assms(7) by (auto simp: s(4) updateMcpServer_def map_sum_Inr requestJson_request_def json_init_def)
  have same: "entered f' = entered f" using submit_keeps_entered [of up Mode_Edit "Some srv" f] s(3) by simp
  note failed = edit_save_failed [OF inv assms(2) s(2) assms(5) s(5) assms(6,8)]
  note saved = edit_save_succeeded [OF s(5) assms(4), where x = x]
  obtain n where "Part_Notice n \<in> set (detail_page_view (Some (snd (saved_at (srv_id srv)))) d)" using saved_notice_shown by blast
  then have left: "\<exists>path state n. fst (edit_detail_response (requestIdRef (ep_detail (snd (edit_update_settled i (Inr x) q)))) r
        (snd (edit_update_settled i (Inr x) q))) = Some (path, state)
      \<and> path = str ''/mcp/'' @ srv_id srv \<and> Part_Notice n \<in> set (detail_page_view (Some state) d)"
    using saved(3) [of r] by (intro exI [of _ "fst (saved_at (srv_id srv))"] exI [of _ "snd (saved_at (srv_id srv))"] exI [of _ n]) (simp add: saved_at_def)
  have "map_option entered (ep_form (snd (edit_update_settled i (Inl e) q))) = map_option entered (ep_form p)"
    using failed(3) s(1) same by simp
  with request failed saved(1,2) left show ?thesis by blast
qed

definition demo_edit :: "unit mcp_edit_page" where
  "demo_edit = snd (edit_detail_response 1 (Inr demo_server) (edit_mount (Some (str ''m1''))))"

theorem mcp_edit_save_outcomes_witness:
  "\<exists>q path state. edit_submit (\<lambda>_. None) demo_edit = (fst (edit_submit (\<lambda>_. None) demo_edit), q)
     \<and> McpEditPage_view (snd (edit_update_settled 0 (Inr ()) q)) = [Edit_Loading]
     \<and> fst (edit_detail_response (requestIdRef (ep_detail (snd (edit_update_settled 0 (Inr ()) q)))) (Inr demo_server) (snd (edit_update_settled 0 (Inr ()) q)))
         = Some (path, state) \<and> path = str ''/mcp/m1''"
proof -
  have "fst (edit_submit (\<lambda>_. None) demo_edit) \<noteq> None" by code_simp
  then obtain mu where mu: "fst (edit_submit (\<lambda>_. None) demo_edit) = Some mu" by blast
  have url: "buildServerUrl (srv_id demo_server) = Inr (str ''/api/mcp/servers/m1'')" by code_simp
  let ?q = "snd (edit_submit (\<lambda>_. None) demo_edit)"
  have sub: "edit_submit (\<lambda>_. None) demo_edit = (Some mu, ?q)" using mu by (metis prod.collapse)
  have d: "st_data (r_state (ep_detail demo_edit)) = Some demo_server" "\<not> missing_id (r_key (ep_detail demo_edit))"
    "ep_mutations demo_edit = mutations_init"
    by (simp_all add: demo_edit_def edit_detail_response_def edit_mount_def useMcpServerDetail_mount_def useMcpServerDetail_response_def
        useMcpServerDetail_refetch_def keyed_refetch_def missing_id_def resource_init_def send_request_def async_response_def response_state_def Let_def)
  obtain pay where "mu = Mcp_updateServer (srv_id demo_server) pay" using edit_submit_cases [OF sub] d(1) by (metis option.inject)
  then obtain rq where rq: "mcp_mutation_request mu = Inr rq" using url by (simp add: updateMcpServer_def)
  have m: "mutations_reachable (\<lambda>(hook_cb, cb). mcp_run hook_cb cb) mcp_continue (ep_mutations demo_edit)" "mut_mounted (ep_mutations demo_edit)"
    "0 = mut_next (ep_mutations demo_edit)"
    unfolding d(3) by (simp_all add: mutations_reachable.init) (simp_all add: mutations_init_def)
  have err: "error_message (asError (Thrown_Value (str ''x''))) \<noteq> []" by simp
  have "srv_id demo_server = str ''m1''" by (simp add: demo_server_def)
  then have path: "str ''/mcp/'' @ srv_id demo_server = str ''/mcp/m1''" by (simp add: str_def)
  note out = mcp_edit_save_outcomes [OF m(1,2) sub d(2) m(3) d(1) rq err, of "()" "Inr demo_server", unfolded path]
  have "edit_submit (\<lambda>_. None) demo_edit = (fst (edit_submit (\<lambda>_. None) demo_edit), ?q)" by simp
  with out show ?thesis by blast
qed

end
