(* ===== verification/SavePages.thy ===== *)
theory SavePages
  imports EditPages
begin

text \<open>
  The pages that save a provider or an agent, \<open>features/llmProviders/pages/LlmProviderFormPage.tsx\<close> and
  \<open>features/agents/pages/AgentFormPage.tsx\<close>: each is the record of its hooks and of its form, with the
  saves its handlers await. What the six saving pages of the application share, the two of MCP
  servers among them, is the locale \<open>save_page\<close>: a submission is sent only while no mutation is
  pending, and everything the page does to its mutation hook is a run of it or an answer to one.
\<close>

subsection \<open>Provider pages\<close>

definition llm_form_mount :: "form_mode \<Rightarrow> LlmProviderDetail option \<Rightarrow> llm_form" where
  "llm_form_mount mode provider = llm_form_load mode provider
     \<lparr>lform = llm_blank_fields, lf_error = None, lf_fieldErrors = [], lf_snapshot = llm_blank_fields, lf_focus = None\<rparr>"

record llm_edit_page =
  le_providerId :: "jstr option"
  le_detail :: "(jstr option, LlmProviderDetail option) resource"
  le_mutations :: "LlmProviderDetail mutations"
  le_form :: "llm_form option" \<comment> \<open>mounted while there is a provider\<close>
  le_updates :: "(nat \<times> (jstr \<times> json)) list" \<comment> \<open>runs awaited by \<open>onUpdate\<close>, with where it will navigate\<close>
  le_refetches :: "(nat \<times> (jstr \<times> json)) list" \<comment> \<open>refetches awaited by \<open>onUpdate\<close>\<close>

definition llm_edit_form :: "(jstr option, LlmProviderDetail option) resource \<Rightarrow> llm_form option" where
  "llm_edit_form d = map_option (\<lambda>p. llm_form_mount Mode_Edit (Some p)) (st_data (r_state d))"

definition llm_edit_mount :: "jstr option \<Rightarrow> llm_edit_page" where
  "llm_edit_mount providerId = \<lparr>le_providerId = providerId, le_detail = useLlmProviderDetail_mount providerId,
     le_mutations = mutations_init, le_form = None, le_updates = [], le_refetches = []\<rparr>"

definition llm_edit_submit :: "llm_edit_page \<Rightarrow> llm_mutation option \<times> llm_edit_page" where
  \<comment> \<open>the button is disabled while a mutation is pending\<close>
  "llm_edit_submit p = (case le_form p of
     None \<Rightarrow> (None, p)
   | Some f \<Rightarrow>
       if mut_pending (le_mutations p) then (None, p)
       else case llm_handleSubmit Mode_Edit (st_data (r_state (le_detail p))) f of
         (LSubmit_Update i payload, f') \<Rightarrow> (Some (Llm_updateProvider i payload),
           p\<lparr>le_form := Some f', le_mutations := llm_run False (le_mutations p),
             le_updates := (mut_next (le_mutations p), llm_saved (le_providerId p) (st_data (r_state (le_detail p)))) # le_updates p\<rparr>)
       | (_, f') \<Rightarrow> (None, p\<lparr>le_form := Some f'\<rparr>))"

definition llm_edit_settled :: "nat \<Rightarrow> thrown + LlmProviderDetail \<Rightarrow> llm_edit_page \<Rightarrow> (jstr \<times> json) option \<times> llm_edit_page" where
  \<comment> \<open>the update has been answered: the provider is fetched again, which unmounts the form\<close>
  "llm_edit_settled i out p = (case map_of (le_updates p) i of
     None \<Rightarrow> (None, p)
   | Some target \<Rightarrow>
       (let q = p\<lparr>le_updates := filter (\<lambda>u. fst u \<noteq> i) (le_updates p), le_mutations := llm_continue i (Action_Settled out) (le_mutations p)\<rparr>
        in case out of
             Inl e \<Rightarrow> (None, q)
           | Inr r \<Rightarrow>
               (let d = useLlmProviderDetail_refetch (le_detail q); q' = q\<lparr>le_detail := d, le_form := llm_edit_form d\<rparr>
                in if missing_id (r_key (le_detail q)) then (Some target, q')
                   else (None, q'\<lparr>le_refetches := (requestIdRef d, target) # le_refetches q\<rparr>))))"

definition llm_edit_response :: "nat \<Rightarrow> thrown + LlmProviderDetail \<Rightarrow> llm_edit_page \<Rightarrow> (jstr \<times> json) option \<times> llm_edit_page" where
  \<comment> \<open>an answer to a detail request; a handler that awaited it navigates\<close>
  "llm_edit_response j r p =
     (let d = useLlmProviderDetail_response j r (le_detail p);
          f = (if mountedRef (le_detail p) \<and> requestIdRef (le_detail p) = j then llm_edit_form d else le_form p)
      in (map_of (le_refetches p) j,
          p\<lparr>le_detail := d, le_form := f, le_refetches := filter (\<lambda>u. fst u \<noteq> j) (le_refetches p)\<rparr>))"

definition llm_edit_cancel :: "bool \<Rightarrow> llm_edit_page \<Rightarrow> jstr option" where
  \<comment> \<open>the path it leaves for, given the answer to the confirmation\<close>
  "llm_edit_cancel confirmed p = (case le_form p of
     None \<Rightarrow> None
   | Some f \<Rightarrow> if llm_handleCancel Mode_Edit confirmed f
       then Some (str ''/llm-providers/'' @ target_provider (le_providerId p) (st_data (r_state (le_detail p)))) else None)"

definition llm_edit_view :: "llm_edit_page \<Rightarrow> provider_part list" where
  "llm_edit_view p = LlmProviderEditPage_view (orElse (le_form p) (llm_form_mount Mode_Edit None)) (le_detail p) (le_mutations p)"

record llm_create_page =
  lcp_mutations :: "LlmProviderDetail mutations"
  lcp_form :: llm_form
  lcp_creates :: "(nat \<times> llm_fields) list" \<comment> \<open>runs awaited by \<open>onCreate\<close>, with the fields submitted\<close>

definition llm_create_mount :: llm_create_page where
  "llm_create_mount = \<lparr>lcp_mutations = mutations_init, lcp_form = llm_form_mount Mode_Create None, lcp_creates = []\<rparr>"

definition llm_create_submit :: "llm_create_page \<Rightarrow> llm_mutation option \<times> llm_create_page" where
  "llm_create_submit p =
     (if mut_pending (lcp_mutations p) then (None, p)
      else case llm_handleSubmit Mode_Create None (lcp_form p) of
        (LSubmit_Create payload, f') \<Rightarrow> (Some (Llm_createProvider payload),
          p\<lparr>lcp_form := f', lcp_mutations := llm_run False (lcp_mutations p),
            lcp_creates := (mut_next (lcp_mutations p), lform f') # lcp_creates p\<rparr>)
      | (_, f') \<Rightarrow> (None, p\<lparr>lcp_form := f'\<rparr>))"

definition llm_create_settled :: "nat \<Rightarrow> thrown + LlmProviderDetail \<Rightarrow> llm_create_page \<Rightarrow> (jstr \<times> json) option \<times> llm_create_page" where
  \<comment> \<open>after a success the form takes the submitted fields as its snapshot\<close>
  "llm_create_settled i out p = (case map_of (lcp_creates p) i of
     None \<Rightarrow> (None, p)
   | Some fs \<Rightarrow>
       (let q = p\<lparr>lcp_creates := filter (\<lambda>u. fst u \<noteq> i) (lcp_creates p), lcp_mutations := llm_continue i (Action_Settled out) (lcp_mutations p)\<rparr>
        in case out of Inl e \<Rightarrow> (None, q) | Inr created \<Rightarrow> (Some (llm_created created), q\<lparr>lcp_form := llm_submitted fs (lcp_form q)\<rparr>)))"

definition llm_create_cancel :: "bool \<Rightarrow> llm_create_page \<Rightarrow> jstr option" where
  "llm_create_cancel confirmed p = (if llm_handleCancel Mode_Create confirmed (lcp_form p) then Some (str ''/llm-providers'') else None)"

definition LlmProviderCreatePage_view :: "llm_create_page \<Rightarrow> provider_part list" where
  "LlmProviderCreatePage_view p = mutation_error_part (lcp_mutations p)
     @ [Prov_Form (LlmProviderForm_view Mode_Create None (mut_pending (lcp_mutations p)) True (lcp_form p))]"

subsection \<open>Agent pages\<close>

record agent_edit_page =
  ae_agentId :: "jstr option"
  ae_detail :: "(jstr option, AgentDetail option) resource"
  ae_providers :: "(unit, LlmProviderSummary list) resource"
  ae_mutations :: "AgentDetail mutations"
  ae_form :: "agent_form option" \<comment> \<open>mounted while there is an agent\<close>
  ae_updates :: "nat list" \<comment> \<open>runs awaited by \<open>onUpdate\<close>\<close>

definition agent_edit_props :: "agent_edit_page \<Rightarrow> agent_props" where
  "agent_edit_props p = \<lparr>ap_mode = Mode_Edit, ap_agent = st_data (r_state (ae_detail p)),
     ap_providers = st_data (r_state (ae_providers p)), ap_providersLoading = st_loading (r_state (ae_providers p))\<rparr>"

definition agent_edit_mount :: "jstr option \<Rightarrow> agent_edit_page" where
  "agent_edit_mount agentId = \<lparr>ae_agentId = agentId, ae_detail = useAgentDetail_mount agentId, ae_providers = useLlmProviders_mount,
     ae_mutations = mutations_init, ae_form = None, ae_updates = []\<rparr>"

definition agent_edit_response :: "nat \<Rightarrow> thrown + AgentDetail \<Rightarrow> agent_edit_page \<Rightarrow> agent_edit_page" where
  \<comment> \<open>the agent has arrived: its form is mounted, loads it and runs its default effects\<close>
  "agent_edit_response j r p =
     (let p' = p\<lparr>ae_detail := useAgentDetail_response j r (ae_detail p)\<rparr>
      in if mountedRef (ae_detail p) \<and> requestIdRef (ae_detail p) = j
         then p'\<lparr>ae_form := map_option (\<lambda>a. settle_defaults (agent_edit_props p') (agent_form_load Mode_Edit (Some a) (agent_form_init Mode_Edit)))
                (st_data (r_state (ae_detail p')))\<rparr>
         else p')"

definition agent_edit_providers :: "nat \<Rightarrow> thrown + LlmProviderSummary list \<Rightarrow> agent_edit_page \<Rightarrow> agent_edit_page" where
  "agent_edit_providers j r p =
     (let p' = p\<lparr>ae_providers := useLlmProviders_response j r (ae_providers p)\<rparr>
      in p'\<lparr>ae_form := map_option (settle_defaults (agent_edit_props p')) (ae_form p)\<rparr>)"

definition agent_edit_submit :: "agent_edit_page \<Rightarrow> agent_mutation option \<times> agent_edit_page" where
  \<comment> \<open>the button is disabled while a mutation is pending and while saving is blocked\<close>
  "agent_edit_submit p = (case ae_form p of
     None \<Rightarrow> (None, p)
   | Some f \<Rightarrow>
       if mut_pending (ae_mutations p) \<or> saveBlocked (agent_edit_props p) f then (None, p)
       else case agent_handleSubmit (agent_edit_props p) f of
         (ASubmit_Update i payload, f') \<Rightarrow> (Some (Agent_updateAgentDraft i payload),
           p\<lparr>ae_form := Some f', ae_mutations := agent_run False (ae_mutations p), ae_updates := mut_next (ae_mutations p) # ae_updates p\<rparr>)
       | (_, f') \<Rightarrow> (None, p\<lparr>ae_form := Some f'\<rparr>))"

definition agent_edit_settled :: "nat \<Rightarrow> thrown + AgentDetail \<Rightarrow> agent_edit_page \<Rightarrow> (jstr \<times> json) option \<times> agent_edit_page" where
  "agent_edit_settled i out p =
     (if \<not> List.member (ae_updates p) i then (None, p)
      else ((case out of Inl e \<Rightarrow> None | Inr r \<Rightarrow> Some agent_saved),
            p\<lparr>ae_updates := filter (\<lambda>j. j \<noteq> i) (ae_updates p), ae_mutations := agent_continue i (Action_Settled out) (ae_mutations p)\<rparr>))"

definition agent_edit_view :: "agent_edit_page \<Rightarrow> agent_part list" where
  "agent_edit_view p = AgentEditPage_view (orElse (ae_form p) (agent_form_init Mode_Edit)) (r_state (ae_providers p)) (ae_detail p) (ae_mutations p)"

record agent_create_page =
  acp_providers :: "(unit, LlmProviderSummary list) resource"
  acp_mutations :: "AgentDetail mutations"
  acp_form :: agent_form
  acp_creates :: "nat list" \<comment> \<open>runs awaited by \<open>onCreate\<close>\<close>

definition agent_create_props :: "agent_create_page \<Rightarrow> agent_props" where
  "agent_create_props p = \<lparr>ap_mode = Mode_Create, ap_agent = None, ap_providers = st_data (r_state (acp_providers p)),
     ap_providersLoading = st_loading (r_state (acp_providers p))\<rparr>"

definition agent_create_mount :: agent_create_page where
  "agent_create_mount = \<lparr>acp_providers = useLlmProviders_mount, acp_mutations = mutations_init,
     acp_form = agent_form_load Mode_Create None (agent_form_init Mode_Create), acp_creates = []\<rparr>"

definition agent_create_providers :: "nat \<Rightarrow> thrown + LlmProviderSummary list \<Rightarrow> agent_create_page \<Rightarrow> agent_create_page" where
  "agent_create_providers j r p =
     (let p' = p\<lparr>acp_providers := useLlmProviders_response j r (acp_providers p)\<rparr>
      in p'\<lparr>acp_form := settle_defaults (agent_create_props p') (acp_form p)\<rparr>)"

definition agent_create_submit :: "agent_create_page \<Rightarrow> agent_mutation option \<times> agent_create_page" where
  "agent_create_submit p =
     (if mut_pending (acp_mutations p) \<or> saveBlocked (agent_create_props p) (acp_form p) then (None, p)
      else case agent_handleSubmit (agent_create_props p) (acp_form p) of
        (ASubmit_Create payload, f') \<Rightarrow> (Some (Agent_createAgent payload),
          p\<lparr>acp_form := f', acp_mutations := agent_run False (acp_mutations p), acp_creates := mut_next (acp_mutations p) # acp_creates p\<rparr>)
      | (_, f') \<Rightarrow> (None, p\<lparr>acp_form := f'\<rparr>))"

definition agent_create_settled :: "nat \<Rightarrow> thrown + AgentDetail \<Rightarrow> agent_create_page \<Rightarrow> (jstr \<times> json) option \<times> agent_create_page" where
  "agent_create_settled i out p =
     (if \<not> List.member (acp_creates p) i then (None, p)
      else ((case out of Inl e \<Rightarrow> None | Inr r \<Rightarrow> Some agent_created),
            p\<lparr>acp_creates := filter (\<lambda>j. j \<noteq> i) (acp_creates p), acp_mutations := agent_continue i (Action_Settled out) (acp_mutations p)\<rparr>))"

definition agent_create_view :: "agent_create_page \<Rightarrow> agent_part list" where
  "agent_create_view p = AgentCreatePage_view (acp_form p) (r_state (acp_providers p)) (acp_mutations p)"

subsection \<open>What the saving pages share\<close>

inductive page_reachable ::
  "('p \<Rightarrow> 'r mutations) \<Rightarrow> ('p \<Rightarrow> 'm option \<times> 'p) \<Rightarrow> (nat \<Rightarrow> thrown + 'r \<Rightarrow> 'p \<Rightarrow> 'n \<times> 'p) \<Rightarrow> 'p \<Rightarrow> bool"
  for muts :: "'p \<Rightarrow> 'r mutations" and submit :: "'p \<Rightarrow> 'm option \<times> 'p" and answer :: "nat \<Rightarrow> thrown + 'r \<Rightarrow> 'p \<Rightarrow> 'n \<times> 'p" where
  \<comment> \<open>anything else that happens to a page does not touch its mutation hook\<close>
  mount: "muts p = mutations_init \<Longrightarrow> page_reachable muts submit answer p"
| submit: "page_reachable muts submit answer p \<Longrightarrow> page_reachable muts submit answer (snd (submit p))"
| answer: "page_reachable muts submit answer p \<Longrightarrow> page_reachable muts submit answer (snd (answer i out p))"
| other: "page_reachable muts submit answer p \<Longrightarrow> muts q = muts p \<Longrightarrow> page_reachable muts submit answer q"

locale save_page = mutation_hook run cont
  for run :: "'o \<Rightarrow> 'r mutations \<Rightarrow> 'r mutations" and cont :: "nat \<Rightarrow> 'r settled \<Rightarrow> 'r mutations \<Rightarrow> 'r mutations" +
  fixes muts :: "'p \<Rightarrow> 'r mutations" and submit :: "'p \<Rightarrow> 'm option \<times> 'p" and answer :: "nat \<Rightarrow> thrown + 'r \<Rightarrow> 'p \<Rightarrow> 'n \<times> 'p"
  assumes sends: "submit p = (Some m, q) \<Longrightarrow> \<not> mut_pending (muts p) \<and> (\<exists>opts. muts q = run opts (muts p))"
    and refuses: "submit p = (None, q) \<Longrightarrow> muts q = muts p"
    and answers: "muts (snd (answer i out p)) = muts p \<or> muts (snd (answer i out p)) = cont i (Action_Settled out) (muts p)"
begin

lemma page_mutations_reachable: "page_reachable muts submit answer p \<Longrightarrow> mutations_reachable run cont (muts p) \<and> mut_mounted (muts p)"
proof (induction rule: page_reachable.induct)
  case (mount p)
  then show ?case by (simp add: mutations_reachable.init) (simp add: mutations_init_def)
next
  case (submit p)
  then show ?case using sends [of p _ "snd (submit p)"] refuses [of p "snd (submit p)"]
    by (cases "submit p"; cases "fst (submit p)") (auto simp: run_frame intro: mutations_reachable.start)
next
  case (answer p i out)
  have "mut_mounted (cont i (Action_Settled out) (muts p))"
    using answer.IH cont_law [of "muts p" i "Action_Settled out"] by (auto simp: mut_advances_def mut_finishes_def mut_frame_def)
  then show ?case using answers [of i out p] answer.IH by (auto intro: mutations_reachable.settle)
qed simp_all

lemma one_run: "page_reachable muts submit answer p \<Longrightarrow> length (mut_runs (muts p)) \<le> 1"
proof (induction rule: page_reachable.induct)
  case (mount p)
  then show ?case by (simp add: mutations_init_def)
next
  case (submit p)
  show ?case
  proof (cases "fst (submit p)")
    case None
    then have "muts (snd (submit p)) = muts p" using refuses [of p "snd (submit p)"] by (metis prod.collapse)
    then show ?thesis using submit.IH by simp
  next
    case (Some m)
    then obtain opts where r: "\<not> mut_pending (muts p)" "muts (snd (submit p)) = run opts (muts p)"
      using sends [of p m "snd (submit p)"] by (metis prod.collapse)
    have "mut_runs (muts p) = []" using r(1) counts_runs page_mutations_reachable [OF submit.hyps] by blast
    then show ?thesis using run_ids [of opts "muts p"] by (simp add: r(2) mut_ids_def) (metis length_map length_Cons list.size(3) order_refl One_nat_def)
  qed
next
  case (answer p i out)
  have "length (mut_ids (cont i (Action_Settled out) (muts p))) \<le> length (mut_ids (muts p))"
    using cont_law [of "muts p" i "Action_Settled out"] by (auto simp: mut_advances_def mut_finishes_def)
  then show ?case using answers [of i out p] answer.IH by (auto simp: mut_ids_def)
qed simp

lemma saves_once: "page_reachable muts submit answer p \<longrightarrow>
    length (mut_runs (muts p)) \<le> 1 \<and> (mut_runs (muts p) = [] \<or> fst (submit p) = None)"
proof (intro impI conjI)
  assume r: "page_reachable muts submit answer p"
  then show "length (mut_runs (muts p)) \<le> 1" by (rule one_run)
  have "mut_pending (muts p) \<longleftrightarrow> mut_runs (muts p) \<noteq> []" using counts_runs page_mutations_reachable [OF r] by blast
  then show "mut_runs (muts p) = [] \<or> fst (submit p) = None" using sends [of p _ "snd (submit p)"] by (metis not_None_eq prod.collapse)
qed

end

interpretation mcp_create_page: save_page "\<lambda>(hook_cb, cb). mcp_run hook_cb cb" mcp_continue cp_mutations "create_submit up" create_settled for up
  by unfold_locales (auto simp: create_submit_def create_settled_def split: if_splits prod.splits mcp_submit.splits)

interpretation mcp_edit_page: save_page "\<lambda>(hook_cb, cb). mcp_run hook_cb cb" mcp_continue ep_mutations "edit_submit up" edit_update_settled for up
  by unfold_locales (auto simp: edit_submit_def edit_update_settled_def Let_def split: if_splits prod.splits mcp_submit.splits option.splits sum.splits)

interpretation llm_create_page: save_page llm_run llm_continue lcp_mutations llm_create_submit llm_create_settled
  by unfold_locales (auto simp: llm_create_submit_def llm_create_settled_def Let_def split: if_splits prod.splits llm_submit.splits option.splits sum.splits)

interpretation llm_edit_page: save_page llm_run llm_continue le_mutations llm_edit_submit llm_edit_settled
  by unfold_locales (auto simp: llm_edit_submit_def llm_edit_settled_def Let_def split: if_splits prod.splits llm_submit.splits option.splits sum.splits)

interpretation agent_create_page: save_page agent_run agent_continue acp_mutations agent_create_submit agent_create_settled
  by unfold_locales (auto simp: agent_create_submit_def agent_create_settled_def split: if_splits prod.splits agent_submit.splits)

interpretation agent_edit_page: save_page agent_run agent_continue ae_mutations agent_edit_submit agent_edit_settled
  by unfold_locales (auto simp: agent_edit_submit_def agent_edit_settled_def split: if_splits prod.splits agent_submit.splits option.splits)

subsection \<open>Outcomes of a save\<close>

lemma llm_failed_request:
  assumes "mut_inv h" "mut_mounted h"
  shows "llm_continue (mut_next h) (Action_Settled (Inl e)) (llm_run False h)
      = h\<lparr>mut_next := Suc (mut_next h), mut_error := Some (asError e), mut_results := mut_results h @ [(mut_next h, Inl (asError e))]\<rparr>"
proof -
  have "pendingCount h \<ge> 0" using assms by (simp add: mut_inv_def)
  with assms show ?thesis by (simp add: mutation_defs fresh_find)
qed

lemma agent_failed_request:
  assumes "mut_inv h" "mut_mounted h"
  shows "agent_continue (mut_next h) (Action_Settled (Inl e)) (agent_run False h)
      = h\<lparr>mut_next := Suc (mut_next h), mut_error := Some (asError e), mut_results := mut_results h @ [(mut_next h, Inl (asError e))]\<rparr>"
proof -
  have "pendingCount h \<ge> 0" using assms by (simp add: mut_inv_def)
  with assms show ?thesis by (simp add: mutation_defs fresh_find)
qed

lemma llm_submit_fields: "lform (snd (llm_handleSubmit mode provider f)) = lform f" "lf_snapshot (snd (llm_handleSubmit mode provider f)) = lf_snapshot f"
  by (auto simp: llm_handleSubmit_def llm_fail_def Let_def split: option.splits)

lemma agent_submit_sent:
  assumes "fst (agent_handleSubmit ps f) \<noteq> ASubmit_Nothing"
  shows "snd (agent_handleSubmit ps f) = f\<lparr>af_error := None, af_errorField := None\<rparr>"
  using assms by (auto simp: agent_handleSubmit_def Let_def split: option.splits if_splits)

lemma llm_edit_sent:
  assumes "llm_edit_submit p = (Some mu, q)"
  obtains f f' prov payload where "le_form p = Some f" "\<not> mut_pending (le_mutations p)" "st_data (r_state (le_detail p)) = Some prov"
    "lform f' = lform f" "lf_snapshot f' = lf_snapshot f" "mu = Llm_updateProvider (prov_id prov) payload"
    "q = p\<lparr>le_form := Some f', le_mutations := llm_run False (le_mutations p),
       le_updates := (mut_next (le_mutations p), llm_saved None (Some prov)) # le_updates p\<rparr>"
proof -
  obtain f where f: "le_form p = Some f" "\<not> mut_pending (le_mutations p)"
    using assms by (auto simp: llm_edit_submit_def split: option.splits if_splits)
  obtain i payload f' where s: "llm_handleSubmit Mode_Edit (st_data (r_state (le_detail p))) f = (LSubmit_Update i payload, f')"
    using assms f by (auto simp: llm_edit_submit_def split: llm_submit.splits prod.splits)
  then obtain prov where prov: "st_data (r_state (le_detail p)) = Some prov" "i = prov_id prov"
    by (auto simp: llm_handleSubmit_def llm_fail_def Let_def split: if_splits option.splits)
  note kept = llm_submit_fields [of Mode_Edit "st_data (r_state (le_detail p))" f, unfolded s snd_conv]
  show thesis
    by (rule that [OF f prov(1) kept]) (use assms f s prov in \<open>auto simp: llm_edit_submit_def llm_saved_def target_provider_def\<close>)
qed

text \<open>C24. A page saves once at a time. In every reachable state of the create and edit pages of MCP
  servers, providers and agents at most one save is in flight, and while it is, a submission sends
  nothing.\<close>
theorem one_save_at_a_time:
  "(page_reachable cp_mutations (create_submit up) create_settled mc \<longrightarrow>
      length (mut_runs (cp_mutations mc)) \<le> 1 \<and> (mut_runs (cp_mutations mc) = [] \<or> fst (create_submit up mc) = None))
   \<and> (page_reachable ep_mutations (edit_submit up) edit_update_settled me \<longrightarrow>
      length (mut_runs (ep_mutations me)) \<le> 1 \<and> (mut_runs (ep_mutations me) = [] \<or> fst (edit_submit up me) = None))
   \<and> (page_reachable lcp_mutations llm_create_submit llm_create_settled pc \<longrightarrow>
      length (mut_runs (lcp_mutations pc)) \<le> 1 \<and> (mut_runs (lcp_mutations pc) = [] \<or> fst (llm_create_submit pc) = None))
   \<and> (page_reachable le_mutations llm_edit_submit llm_edit_settled pe \<longrightarrow>
      length (mut_runs (le_mutations pe)) \<le> 1 \<and> (mut_runs (le_mutations pe) = [] \<or> fst (llm_edit_submit pe) = None))
   \<and> (page_reachable acp_mutations agent_create_submit agent_create_settled ac \<longrightarrow>
      length (mut_runs (acp_mutations ac)) \<le> 1 \<and> (mut_runs (acp_mutations ac) = [] \<or> fst (agent_create_submit ac) = None))
   \<and> (page_reachable ae_mutations agent_edit_submit agent_edit_settled ae \<longrightarrow>
      length (mut_runs (ae_mutations ae)) \<le> 1 \<and> (mut_runs (ae_mutations ae) = [] \<or> fst (agent_edit_submit ae) = None))"
  by (intro conjI mcp_create_page.saves_once mcp_edit_page.saves_once llm_create_page.saves_once llm_edit_page.saves_once
      agent_create_page.saves_once agent_edit_page.saves_once)

definition demo_new_provider :: llm_create_page where
  "demo_new_provider = llm_create_mount\<lparr>lcp_form := (lcp_form llm_create_mount)\<lparr>lform := llm_blank_fields\<lparr>lf_displayName := str ''P''\<rparr>\<rparr>\<rparr>"

theorem one_save_at_a_time_witness:
  "fst (llm_create_submit demo_new_provider) \<noteq> None \<and> fst (llm_create_submit (snd (llm_create_submit demo_new_provider))) = None"
proof -
  let ?p = "snd (llm_create_submit demo_new_provider)"
  have "page_reachable lcp_mutations llm_create_submit llm_create_settled ?p"
    by (intro page_reachable.submit page_reachable.mount) (simp add: demo_new_provider_def llm_create_mount_def)
  moreover have "fst (llm_create_submit demo_new_provider) \<noteq> None" "length (mut_runs (lcp_mutations ?p)) = 1" by code_simp+
  ultimately show ?thesis using one_save_at_a_time [where pc = ?p] by (metis list.size(3) zero_neq_one)
qed

text \<open>C33. Saving a provider from its edit page. The request is a \<open>PATCH\<close> of the provider's own URL. If it
  fails nothing is left or fetched, the fields and the unsaved-changes guard are as they were, the
  form can be submitted again, and the page shows the error. If it succeeds the provider is fetched
  again, the page shows that it is loading, and with the answer, whatever it is, the page leaves for
  the provider's detail page, which shows that it was saved. A create that succeeds leaves for the new
  provider and leaves no unsaved changes behind; one that fails keeps the fields.\<close>
theorem provider_save_outcomes:
  assumes "page_reachable le_mutations llm_edit_submit llm_edit_settled p" "llm_edit_submit p = (Some mu, q)"
    and "\<not> missing_id (r_key (le_detail p))" "i = mut_next (le_mutations p)" "st_data (r_state (le_detail p)) = Some prov"
    and "llm_mutation_request mu = Inr rq" "llm_create_submit c = (Some mu', c')" "j = mut_next (lcp_mutations c)"
  shows "init_method rq = Some (str ''PATCH'') \<and> buildProviderUrl (prov_id prov) = Inr (req_url rq)
    \<and> (fst (llm_edit_settled i (Inl e) q) = None \<and> le_detail (snd (llm_edit_settled i (Inl e) q)) = le_detail p
      \<and> map_option lform (le_form (snd (llm_edit_settled i (Inl e) q))) = map_option lform (le_form p)
      \<and> llm_edit_cancel b (snd (llm_edit_settled i (Inl e) q)) = llm_edit_cancel b p
      \<and> \<not> mut_pending (le_mutations (snd (llm_edit_settled i (Inl e) q)))
      \<and> Prov_Error (error_message (asError e)) \<in> set (llm_edit_view (snd (llm_edit_settled i (Inl e) q))))
    \<and> (fst (llm_edit_settled i (Inr x) q) = None \<and> llm_edit_view (snd (llm_edit_settled i (Inr x) q)) = [Prov_Loading]
      \<and> (\<exists>path state n. fst (llm_edit_response (requestIdRef (le_detail (snd (llm_edit_settled i (Inr x) q)))) r (snd (llm_edit_settled i (Inr x) q)))
             = Some (path, state)
         \<and> path = str ''/llm-providers/'' @ prov_id prov \<and> Prov_Notice n \<in> set (LlmProviderDetailPage_view (Some state) f d)))
    \<and> (fst (llm_create_settled j (Inl e) c') = None \<and> lform (lcp_form (snd (llm_create_settled j (Inl e) c'))) = lform (lcp_form c)
      \<and> fst (llm_create_settled j (Inr x) c') = Some (llm_created x)
      \<and> \<not> llm_dirty Mode_Create (lcp_form (snd (llm_create_settled j (Inr x) c'))))"
proof -
  have inv: "mut_inv (le_mutations p)" "mut_mounted (le_mutations p)"
    using llm_edit_page.page_mutations_reachable [OF assms(1)] llm_mut.reachable_mut_inv by auto
  obtain f0 f' payload where s: "le_form p = Some f0" "\<not> mut_pending (le_mutations p)"
    "lform f' = lform f0" "lf_snapshot f' = lf_snapshot f0" "mu = Llm_updateProvider (prov_id prov) payload"
    "q = p\<lparr>le_form := Some f', le_mutations := llm_run False (le_mutations p), le_updates := (i, llm_saved None (Some prov)) # le_updates p\<rparr>"
    using llm_edit_sent [OF assms(2)] assms(4,5) by (metis option.inject)
  have request: "init_method rq = Some (str ''PATCH'') \<and> buildProviderUrl (prov_id prov) = Inr (req_url rq)"
    using assms(6) by (auto simp: s(5) updateLlmProvider_def map_sum_Inr requestJson_request_def json_init_def)
  note run = llm_failed_request [OF inv, of e]
  have failed: "fst (llm_edit_settled i (Inl e) q) = None \<and> le_detail (snd (llm_edit_settled i (Inl e) q)) = le_detail p
      \<and> map_option lform (le_form (snd (llm_edit_settled i (Inl e) q))) = map_option lform (le_form p)
      \<and> llm_edit_cancel b (snd (llm_edit_settled i (Inl e) q)) = llm_edit_cancel b p
      \<and> \<not> mut_pending (le_mutations (snd (llm_edit_settled i (Inl e) q)))
      \<and> Prov_Error (error_message (asError e)) \<in> set (llm_edit_view (snd (llm_edit_settled i (Inl e) q)))"
    using run s(1-4) assms(4,5) by (simp add: llm_edit_settled_def s(6) Let_def mut_pending_def llm_edit_cancel_def llm_handleCancel_def
        llm_dirty_def llm_edit_view_def LlmProviderEditPage_view_def mutation_error_part_def)
  have data: "st_data (r_state (useLlmProviderDetail_refetch (le_detail p))) = None" "st_loading (r_state (useLlmProviderDetail_refetch (le_detail p)))"
    "st_error (r_state (useLlmProviderDetail_refetch (le_detail p))) = None"
    using assms(3) by (simp_all add: useLlmProviderDetail_refetch_def keyed_refetch_def send_request_def)
  let ?s = "snd (llm_edit_settled i (Inr x) q)"
  have saved: "fst (llm_edit_settled i (Inr x) q) = None" "llm_edit_view ?s = [Prov_Loading]"
    "fst (llm_edit_response (requestIdRef (le_detail ?s)) r ?s) = Some (llm_saved None (Some prov))"
    using data assms(3) by (simp_all add: llm_edit_settled_def llm_edit_response_def s(6) Let_def llm_edit_view_def LlmProviderEditPage_view_def detail_state_parts_def)
  have "trim (str ''LLM Provider '' @ [0x5DF2, 0x4FDD, 0x5B58, 0x3002]) \<noteq> []" by code_simp
  then have "\<exists>n. Prov_Notice n \<in> set (LlmProviderDetailPage_view (Some (snd (llm_saved None (Some prov)))) f d)"
    by (auto simp: LlmProviderDetailPage_view_def getNavigationNotice_def llm_saved_def obj_get_def)
  with saved have left: "fst (llm_edit_settled i (Inr x) q) = None \<and> llm_edit_view ?s = [Prov_Loading]
      \<and> (\<exists>path state n. fst (llm_edit_response (requestIdRef (le_detail ?s)) r ?s) = Some (path, state)
         \<and> path = str ''/llm-providers/'' @ prov_id prov \<and> Prov_Notice n \<in> set (LlmProviderDetailPage_view (Some state) f d))"
    by (simp add: llm_saved_def target_provider_def)
  have c': "lform (lcp_form c') = lform (lcp_form c)" "\<exists>us. lcp_creates c' = (j, lform (lcp_form c)) # us"
    using assms(7,8) llm_submit_fields [of Mode_Create None "lcp_form c"]
    by (auto simp: llm_create_submit_def split: if_splits prod.splits llm_submit.splits)
  then have created: "fst (llm_create_settled j (Inl e) c') = None \<and> lform (lcp_form (snd (llm_create_settled j (Inl e) c'))) = lform (lcp_form c)
      \<and> fst (llm_create_settled j (Inr x) c') = Some (llm_created x)
      \<and> \<not> llm_dirty Mode_Create (lcp_form (snd (llm_create_settled j (Inr x) c')))"
    by (auto simp: llm_create_settled_def Let_def llm_submitted_def llm_dirty_def)
  show ?thesis using request failed left created by blast
qed

definition demo_provider_edit :: llm_edit_page where
  "demo_provider_edit = snd (llm_edit_response 1 (Inr demo_provider) (llm_edit_mount (Some (prov_id demo_provider))))"

theorem provider_save_outcomes_witness:
  "llm_edit_view (snd (llm_edit_settled 0 (Inr demo_provider) (snd (llm_edit_submit demo_provider_edit)))) = [Prov_Loading]
   \<and> Prov_Error (str ''x'') \<in> set (llm_edit_view (snd (llm_edit_settled 0 (Inl (Thrown_Value (str ''x''))) (snd (llm_edit_submit demo_provider_edit)))))"
proof -
  let ?p = demo_provider_edit and ?c = demo_new_provider
  have "fst (llm_edit_submit ?p) \<noteq> None" "fst (llm_create_submit ?c) \<noteq> None" by code_simp+
  then obtain mu mu' where mu: "llm_edit_submit ?p = (Some mu, snd (llm_edit_submit ?p))" "llm_create_submit ?c = (Some mu', snd (llm_create_submit ?c))"
    by (metis not_None_eq prod.collapse)
  have d: "st_data (r_state (le_detail ?p)) = Some demo_provider" "\<not> missing_id (r_key (le_detail ?p))" "le_mutations ?p = mutations_init"
    by (simp_all add: demo_provider_edit_def llm_edit_response_def llm_edit_mount_def useLlmProviderDetail_mount_def useLlmProviderDetail_response_def
        useLlmProviderDetail_refetch_def keyed_refetch_def missing_id_def resource_init_def send_request_def async_response_def response_state_def Let_def)
      (simp_all add: demo_provider_def str_def)
  have url: "buildProviderUrl (prov_id demo_provider) = Inr (str ''/api/v1/llm-providers/'' @ prov_id demo_provider)" by code_simp
  obtain pay where "mu = Llm_updateProvider (prov_id demo_provider) pay" using llm_edit_sent [OF mu(1)] d(1) by (metis option.inject)
  then obtain rq where rq: "llm_mutation_request mu = Inr rq" using url by (simp add: updateLlmProvider_def)
  have r: "page_reachable le_mutations llm_edit_submit llm_edit_settled ?p" using d(3) by (rule page_reachable.mount)
  have "0 = mut_next (le_mutations ?p)" unfolding d(3) by (simp add: mutations_init_def)
  from provider_save_outcomes [OF r mu(1) d(2) this d(1) rq mu(2) HOL.refl, of "Thrown_Value (str ''x'')"] show ?thesis by simp
qed

lemma agent_edit_sent:
  assumes "agent_edit_submit p = (Some mu, q)"
  obtains f a payload where "ae_form p = Some f" "\<not> mut_pending (ae_mutations p)" "st_data (r_state (ae_detail p)) = Some a"
    "mu = Agent_updateAgentDraft (ag_id a) payload"
    "q = p\<lparr>ae_form := Some (f\<lparr>af_error := None, af_errorField := None\<rparr>), ae_mutations := agent_run False (ae_mutations p),
       ae_updates := mut_next (ae_mutations p) # ae_updates p\<rparr>"
proof -
  obtain f where f: "ae_form p = Some f" "\<not> mut_pending (ae_mutations p)" "\<not> saveBlocked (agent_edit_props p) f"
    using assms by (auto simp: agent_edit_submit_def split: option.splits if_splits)
  obtain i payload f' where s: "agent_handleSubmit (agent_edit_props p) f = (ASubmit_Update i payload, f')"
    using assms f by (auto simp: agent_edit_submit_def split: agent_submit.splits prod.splits)
  then obtain a where a: "st_data (r_state (ae_detail p)) = Some a" "i = ag_id a"
    by (auto simp: agent_handleSubmit_def agent_edit_props_def Let_def split: if_splits option.splits)
  have "f' = f\<lparr>af_error := None, af_errorField := None\<rparr>" using agent_submit_sent [of "agent_edit_props p" f] s by simp
  then show thesis using that [OF f(1,2) a(1), of payload] assms f s a(2) by (simp add: agent_edit_submit_def)
qed

definition agent_entered :: "agent_form \<Rightarrow> agent_form" where
  \<comment> \<open>the fields of the form, without its error\<close>
  "agent_entered f = f\<lparr>af_error := None, af_errorField := None\<rparr>"

text \<open>Saving an agent. From the edit page the request is a \<open>PATCH\<close> of the agent's own draft; from the
  create page it is a \<open>POST\<close>. If the request fails the page stays, the form keeps what was entered and
  can be submitted again, and the error is shown above it. If it succeeds the page leaves for the
  list of agents.\<close>
theorem agent_save_outcomes:
  assumes "page_reachable ae_mutations agent_edit_submit agent_edit_settled p" "agent_edit_submit p = (Some mu, q)"
    and "i = mut_next (ae_mutations p)" "st_data (r_state (ae_detail p)) = Some a" "agent_mutation_request mu = Inr rq"
    and "page_reachable acp_mutations agent_create_submit agent_create_settled c" "agent_create_submit c = (Some mu', c')"
    and "j = mut_next (acp_mutations c)" "agent_mutation_request mu' = Inr rq'"
  shows "(init_method rq = Some (str ''PATCH'') \<and> map_sum id (\<lambda>u. u @ str ''/draft'') (buildAgentUrl (ag_id a)) = Inr (req_url rq))
    \<and> (fst (agent_edit_settled i (Inl e) q) = None \<and> \<not> mut_pending (ae_mutations (snd (agent_edit_settled i (Inl e) q)))
      \<and> map_option agent_entered (ae_form (snd (agent_edit_settled i (Inl e) q))) = map_option agent_entered (ae_form p)
      \<and> Agent_Error (error_message (asError e)) \<in> set (agent_edit_view (snd (agent_edit_settled i (Inl e) q))))
    \<and> map_option fst (fst (agent_edit_settled i (Inr x) q)) = Some (str ''/agents'')
    \<and> (init_method rq' = Some (str ''POST'') \<and> req_url rq' = str ''/api/agents'')
    \<and> (fst (agent_create_settled j (Inl e) c') = None \<and> \<not> mut_pending (acp_mutations (snd (agent_create_settled j (Inl e) c')))
      \<and> agent_entered (acp_form (snd (agent_create_settled j (Inl e) c'))) = agent_entered (acp_form c)
      \<and> Agent_Error (error_message (asError e)) \<in> set (agent_create_view (snd (agent_create_settled j (Inl e) c'))))
    \<and> map_option fst (fst (agent_create_settled j (Inr x) c')) = Some (str ''/agents'')"
proof -
  have inv: "mut_inv (ae_mutations p)" "mut_mounted (ae_mutations p)" "mut_inv (acp_mutations c)" "mut_mounted (acp_mutations c)"
    using agent_edit_page.page_mutations_reachable [OF assms(1)] agent_create_page.page_mutations_reachable [OF assms(6)]
      agent_mut.reachable_mut_inv by auto
  obtain f payload where s: "ae_form p = Some f" "\<not> mut_pending (ae_mutations p)" "mu = Agent_updateAgentDraft (ag_id a) payload"
    "q = p\<lparr>ae_form := Some (agent_entered f), ae_mutations := agent_run False (ae_mutations p), ae_updates := i # ae_updates p\<rparr>"
    using agent_edit_sent [OF assms(2)] assms(3,4) unfolding agent_entered_def by (metis option.inject)
  obtain pay where t: "\<not> mut_pending (acp_mutations c)" "mu' = Agent_createAgent pay"
    "c' = c\<lparr>acp_form := agent_entered (acp_form c), acp_mutations := agent_run False (acp_mutations c), acp_creates := j # acp_creates c\<rparr>"
    using assms(7,8) agent_submit_sent [of "agent_create_props c" "acp_form c"]
    by (auto simp: agent_create_submit_def agent_entered_def split: if_splits prod.splits agent_submit.splits)
  note edit = agent_failed_request [OF inv(1,2), of e] and create = agent_failed_request [OF inv(3,4), of e]
  have "init_method rq = Some (str ''PATCH'') \<and> map_sum id (\<lambda>u. u @ str ''/draft'') (buildAgentUrl (ag_id a)) = Inr (req_url rq)"
    using assms(5) by (auto simp: s(3) updateAgentDraft_def map_sum_Inr requestJson_request_def json_init_def)
  moreover have "fst (agent_edit_settled i (Inl e) q) = None" "\<not> mut_pending (ae_mutations (snd (agent_edit_settled i (Inl e) q)))"
    "map_option agent_entered (ae_form (snd (agent_edit_settled i (Inl e) q))) = map_option agent_entered (ae_form p)"
    "map_option fst (fst (agent_edit_settled i (Inr x) q)) = Some (str ''/agents'')"
    using edit s(1,2) by (simp_all add: agent_edit_settled_def s(4) assms(3) mut_pending_def agent_entered_def agent_saved_def)
  moreover have "Agent_Error (error_message (asError e)) \<in> set (agent_edit_view (snd (agent_edit_settled i (Inl e) q)))"
    using edit assms(4) by (simp add: agent_edit_settled_def s(4) assms(3) agent_edit_view_def AgentEditPage_view_def Let_def)
  moreover have "init_method rq' = Some (str ''POST'')" "req_url rq' = str ''/api/agents''"
    using assms(9) by (auto simp: t(2) createAgent_def requestJson_request_def json_init_def)
  moreover have "fst (agent_create_settled j (Inl e) c') = None" "\<not> mut_pending (acp_mutations (snd (agent_create_settled j (Inl e) c')))"
    "agent_entered (acp_form (snd (agent_create_settled j (Inl e) c'))) = agent_entered (acp_form c)"
    "map_option fst (fst (agent_create_settled j (Inr x) c')) = Some (str ''/agents'')"
    using create t(1) by (simp_all add: agent_create_settled_def t(3) assms(8) mut_pending_def agent_entered_def agent_created_def)
  moreover have "Agent_Error (error_message (asError e)) \<in> set (agent_create_view (snd (agent_create_settled j (Inl e) c')))"
    using create by (simp add: agent_create_settled_def t(3) assms(8) agent_create_view_def AgentCreatePage_view_def)
  ultimately show ?thesis by blast
qed

definition demo_agent_edit :: agent_edit_page where
  "demo_agent_edit = agent_edit_response 1 (Inr demo_agent) (agent_edit_providers 1 (Inr [demo_agent_provider]) (agent_edit_mount (Some (str ''a1''))))"

definition demo_agent_create :: agent_create_page where
  "demo_agent_create = agent_create_mount\<lparr>acp_form := agent_type (str ''A'') [] (str ''Review.'') True (acp_form agent_create_mount)\<rparr>"

theorem agent_save_outcomes_witness:
  "map_option fst (fst (agent_edit_settled 0 (Inr demo_agent) (snd (agent_edit_submit demo_agent_edit)))) = Some (str ''/agents'')
   \<and> Agent_Error (str ''x'') \<in> set (agent_create_view (snd (agent_create_settled 0 (Inl (Thrown_Value (str ''x''))) (snd (agent_create_submit demo_agent_create)))))"
proof -
  let ?p = demo_agent_edit and ?c = demo_agent_create
  have "fst (agent_edit_submit ?p) \<noteq> None" "fst (agent_create_submit ?c) \<noteq> None" by code_simp+
  then obtain mu mu' where mu: "agent_edit_submit ?p = (Some mu, snd (agent_edit_submit ?p))" "agent_create_submit ?c = (Some mu', snd (agent_create_submit ?c))"
    by (metis not_None_eq prod.collapse)
  have d: "ae_mutations ?p = mutations_init" "acp_mutations ?c = mutations_init"
    by (simp_all add: demo_agent_edit_def demo_agent_create_def agent_edit_response_def agent_edit_providers_def agent_edit_mount_def agent_create_mount_def Let_def)
  have a: "st_data (r_state (ae_detail ?p)) = Some demo_agent"
    by (simp add: demo_agent_edit_def agent_edit_response_def agent_edit_providers_def agent_edit_mount_def useAgentDetail_mount_def useAgentDetail_response_def
        useAgentDetail_refetch_def keyed_refetch_def missing_id_def resource_init_def send_request_def async_response_def response_state_def Let_def str_def)
  have url: "buildAgentUrl (ag_id demo_agent) = Inr (str ''/api/agents/a1'')" by code_simp
  obtain pay where "mu = Agent_updateAgentDraft (ag_id demo_agent) pay" using agent_edit_sent [OF mu(1)] a by (metis option.inject)
  then obtain rq where rq: "agent_mutation_request mu = Inr rq" using url by (simp add: updateAgentDraft_def)
  obtain pay' where "mu' = Agent_createAgent pay'" using mu(2) by (auto simp: agent_create_submit_def split: if_splits prod.splits agent_submit.splits)
  then obtain rq' where rq': "agent_mutation_request mu' = Inr rq'" by simp
  have r: "page_reachable ae_mutations agent_edit_submit agent_edit_settled ?p" "page_reachable acp_mutations agent_create_submit agent_create_settled ?c"
    using d by (auto intro: page_reachable.mount)
  have n: "0 = mut_next (ae_mutations ?p)" "0 = mut_next (acp_mutations ?c)" unfolding d by (simp_all add: mutations_init_def)
  from agent_save_outcomes [OF r(1) mu(1) n(1) a rq r(2) mu(2) n(2) rq', of "Thrown_Value (str ''x'')"] show ?thesis by simp
qed

end
