(* ===== verification/ListPages.thy ===== *)
theory ListPages
  imports EditPages
begin

text \<open>
  The list pages as a whole: the toolbars and footers of the three tables, the handlers of search,
  filter and refresh (\<open>features/mcp/pages/McpListPage.tsx\<close>, \<open>features/llmProviders/pages/LlmProviderListPage.tsx\<close>,
  \<open>features/agents/pages/AgentListPage.tsx\<close>), and the row actions menu as it is rendered. The lemmas say
  when a refresh can be asked for and what is shown until and after its answers, in every order in
  which they arrive.
\<close>

subsection \<open>Toolbars\<close>

record toolbar =
  tb_search :: jstr
  tb_filter :: "(jstr \<times> (jstr \<times> jstr) list) option" \<comment> \<open>the value and the options of the status filter\<close>
  tb_refresh_label :: jstr
  tb_refresh_disabled :: bool
  tb_create :: jstr \<comment> \<open>where the create button leads\<close>

definition catalog_toolbar :: "string \<Rightarrow> bool \<Rightarrow> jstr \<Rightarrow> toolbar" where
  \<comment> \<open>of providers and agents: no refresh while one is loading\<close>
  "catalog_toolbar create loading searchText = \<lparr>tb_search = searchText, tb_filter = None,
     tb_refresh_label = (if loading then [0x5237, 0x65B0, 0x4E2D, 0x2026] else [0x5237, 0x65B0]),
     tb_refresh_disabled = loading, tb_create = str create\<rparr>"

fun filter_value :: "McpStatusFilter \<Rightarrow> jstr" where
  "filter_value Filter_All = str ''all''"
| "filter_value (Filter_Status s) = runtime_str s"

definition filter_options :: "(jstr \<times> jstr) list" where
  "filter_options = [(str ''all'', [0x5168, 0x90E8, 0x72B6, 0x6001]), (str ''running'', str ''Running''), (str ''stopped'', str ''Stopped''),
     (str ''error'', str ''Error''), (str ''starting'', str ''Starting''), (str ''stopping'', str ''Stopping''), (str ''unknown'', str ''Unknown'')]"

definition mcp_toolbar :: "jstr \<Rightarrow> McpStatusFilter \<Rightarrow> toolbar" where
  "mcp_toolbar searchText statusFilter = \<lparr>tb_search = searchText, tb_filter = Some (filter_value statusFilter, filter_options),
     tb_refresh_label = [0x5237, 0x65B0], tb_refresh_disabled = False, tb_create = str ''/mcp/new''\<rparr>"

definition mcp_footer :: "McpStatusFilter \<Rightarrow> 'a list \<Rightarrow> jstr" where
  \<comment> \<open>\<open>servers\<close> is the filtered list\<close>
  "mcp_footer statusFilter servers = (let n = num_str (int (length servers)) in
     [0x5171] @ str '' '' @ n @ str '' '' @ [0x4E2A, 0x670D, 0x52A1]
     @ (if statusFilter \<noteq> Filter_All then str '' '' @ [0x00B7] @ str '' '' @ [0x663E, 0x793A] @ str '' '' @ n @ str '' '' @ [0x4E2A] else []))"

subsection \<open>The MCP list page\<close>

definition list_page_search :: "jstr \<Rightarrow> 'r mcp_list_page \<Rightarrow> 'r mcp_list_page" where
  "list_page_search v p = p\<lparr>lp_searchText := v\<rparr>"

definition list_page_filter :: "McpStatusFilter \<Rightarrow> 'r mcp_list_page \<Rightarrow> 'r mcp_list_page" where
  "list_page_filter v p = p\<lparr>lp_statusFilter := v\<rparr>"

definition list_page_refresh :: "'r mcp_list_page \<Rightarrow> 'r mcp_list_page" where
  "list_page_refresh p = p\<lparr>lp_servers := useMcpServers_refetch (lp_servers p)\<rparr>"

definition list_page_response :: "nat \<Rightarrow> thrown + McpServerSummary list \<Rightarrow> 'r mcp_list_page \<Rightarrow> 'r mcp_list_page" where
  "list_page_response n r p = p\<lparr>lp_servers := useMcpServers_response n r (lp_servers p)\<rparr>"

definition list_page_frame :: "(jstr \<Rightarrow> jstr) \<Rightarrow> 'r mcp_list_page \<Rightarrow> toolbar \<times> jstr" where
  \<comment> \<open>the toolbar and the footer around the table\<close>
  "list_page_frame lower p = (mcp_toolbar (lp_searchText p) (lp_statusFilter p),
     mcp_footer (lp_statusFilter p) (filteredServers lower (lp_searchText p) (lp_statusFilter p) (st_data (r_state (lp_servers p)))))"

datatype rendered_item = Item_Separator | Item_Link jstr jstr | Item_Button jstr

definition render_item :: "menu_item \<Rightarrow> rendered_item" where
  "render_item i = (case mi_kind i of
     Separator \<Rightarrow> Item_Separator | LinkTo path \<Rightarrow> Item_Link (mi_label i) path | Action a \<Rightarrow> Item_Button (mi_label i))"

definition McpRowActionsMenu_view :: "menu_item list \<Rightarrow> menu \<Rightarrow> bool \<times> rendered_item list option" where
  \<comment> \<open>whether the trigger is expanded, and the menu in the portal\<close>
  "McpRowActionsMenu_view items m = (mn_open m, if menu_rendered m then Some (map render_item items) else None)"

subsection \<open>The provider list page\<close>

record provider_list_page =
  pl_providers :: "(unit, LlmProviderSummary list) resource"
  pl_searchText :: jstr

definition provider_list_mount :: provider_list_page where
  "provider_list_mount = \<lparr>pl_providers = useLlmProviders_mount, pl_searchText = []\<rparr>"

definition provider_list_toolbar :: "provider_list_page \<Rightarrow> toolbar" where
  "provider_list_toolbar p = catalog_toolbar ''/llm-providers/new'' (st_loading (r_state (pl_providers p))) (pl_searchText p)"

definition provider_list_refresh :: "provider_list_page \<Rightarrow> provider_list_page" where
  "provider_list_refresh p = (if tb_refresh_disabled (provider_list_toolbar p) then p
     else p\<lparr>pl_providers := useLlmProviders_refetch (pl_providers p)\<rparr>)"

definition provider_list_search :: "jstr \<Rightarrow> provider_list_page \<Rightarrow> provider_list_page" where
  "provider_list_search v p = p\<lparr>pl_searchText := v\<rparr>"

definition provider_list_response :: "nat \<Rightarrow> thrown + LlmProviderSummary list \<Rightarrow> provider_list_page \<Rightarrow> provider_list_page" where
  "provider_list_response n r p = p\<lparr>pl_providers := useLlmProviders_response n r (pl_providers p)\<rparr>"

definition provider_list_view :: "(jstr \<Rightarrow> jstr) \<Rightarrow> provider_list_page \<Rightarrow> toolbar \<times> provider_row table_body" where
  "provider_list_view lower p = (provider_list_toolbar p, LlmProviderListPage_view lower (pl_searchText p) (r_state (pl_providers p)))"

subsection \<open>The agent list page\<close>

record agent_list_page =
  al_agents :: "(unit, AgentSummary list) resource"
  al_providers :: "(unit, LlmProviderSummary list) resource"
  al_searchText :: jstr

definition agent_list_mount :: agent_list_page where
  "agent_list_mount = \<lparr>al_agents = useAgents_mount, al_providers = useLlmProviders_mount, al_searchText = []\<rparr>"

definition agent_list_toolbar :: "agent_list_page \<Rightarrow> toolbar" where
  "agent_list_toolbar p = catalog_toolbar ''/agents/new'' (st_loading (r_state (al_agents p)) \<or> st_loading (r_state (al_providers p))) (al_searchText p)"

definition agent_list_refresh :: "agent_list_page \<Rightarrow> agent_list_page" where
  "agent_list_refresh p = (if tb_refresh_disabled (agent_list_toolbar p) then p
     else p\<lparr>al_agents := useAgents_refetch (al_agents p), al_providers := useLlmProviders_refetch (al_providers p)\<rparr>)"

definition agent_list_search :: "jstr \<Rightarrow> agent_list_page \<Rightarrow> agent_list_page" where
  "agent_list_search v p = p\<lparr>al_searchText := v\<rparr>"

definition agent_list_agents :: "nat \<Rightarrow> thrown + AgentSummary list \<Rightarrow> agent_list_page \<Rightarrow> agent_list_page" where
  "agent_list_agents n r p = p\<lparr>al_agents := useAgents_response n r (al_agents p)\<rparr>"

definition agent_list_providers :: "nat \<Rightarrow> thrown + LlmProviderSummary list \<Rightarrow> agent_list_page \<Rightarrow> agent_list_page" where
  "agent_list_providers n r p = p\<lparr>al_providers := useLlmProviders_response n r (al_providers p)\<rparr>"

definition agent_list_view :: "(jstr \<Rightarrow> jstr) \<Rightarrow> (jstr \<Rightarrow> jstr option) \<Rightarrow> agent_list_page \<Rightarrow> toolbar \<times> agent_row table_body" where
  "agent_list_view lower format p = (agent_list_toolbar p,
     AgentListPage_view lower format (al_searchText p) (r_state (al_agents p)) (r_state (al_providers p)))"

inductive agent_list_reachable :: "agent_list_page \<Rightarrow> bool" where
  mount: "agent_list_reachable agent_list_mount"
| refresh: "agent_list_reachable p \<Longrightarrow> agent_list_reachable (agent_list_refresh p)"
| search: "agent_list_reachable p \<Longrightarrow> agent_list_reachable (agent_list_search v p)"
| agents: "agent_list_reachable p \<Longrightarrow> n \<in> set (r_pending (al_agents p)) \<Longrightarrow> agent_list_reachable (agent_list_agents n ra p)"
| providers: "agent_list_reachable p \<Longrightarrow> n \<in> set (r_pending (al_providers p)) \<Longrightarrow> agent_list_reachable (agent_list_providers n rp p)"

subsection \<open>Facts\<close>

text \<open>The status filter offers every status once, and shows the one that is set.\<close>
lemma filter_options_complete:
  "filter_value v \<in> fst ` set filter_options" "distinct (map fst filter_options)" "filter_value v = filter_value w \<longleftrightarrow> v = w"
proof -
  have names: "runtime_str s \<in> fst ` set filter_options" "runtime_str s \<noteq> str ''all''" for s
    by (cases s; simp add: filter_options_def str_def)+
  have inj: "runtime_str s = runtime_str t \<longleftrightarrow> s = t" for s t by (cases s; cases t; simp add: str_def)
  show "filter_value v \<in> fst ` set filter_options" using names(1) by (cases v) (simp_all add: filter_options_def)
  show "distinct (map fst filter_options)" by code_simp
  show "filter_value v = filter_value w \<longleftrightarrow> v = w" using names(2) inj by (cases v; cases w) (simp_all, metis)
qed

text \<open>A filter narrows the table and the count below it alike: the footer of a filtered table counts the
  servers that are shown.\<close>
lemma footer_counts_rows:
  assumes "snd (list_page_view lower format p) = Body_Rows rows"
  shows "snd (list_page_frame lower p) = mcp_footer (lp_statusFilter p) rows"
proof -
  let ?s = "filteredServers lower (lp_searchText p) (lp_statusFilter p) (st_data (r_state (lp_servers p)))"
  have "length rows = length ?s"
    using assms by (auto simp: list_page_view_def McpServerTable_def table_body_of_def split: if_splits option.splits list.splits)
  then show ?thesis by (simp add: list_page_frame_def mcp_footer_def Let_def)
qed

lemma agent_list_hooks:
  assumes "agent_list_reachable p"
  shows "async_reachable useAgents_refetch [] (al_agents p) \<and> mountedRef (al_agents p)
    \<and> async_reachable useLlmProviders_refetch [] (al_providers p) \<and> mountedRef (al_providers p)"
  using assms
proof induction
  case mount
  then show ?case
    by (simp add: agent_list_mount_def useAgents_mount_def useLlmProviders_mount_def async_reachable.mount agents.start_frame llm_providers.start_frame)
      (simp add: resource_init_def)
next
  case (refresh p)
  then show ?case by (simp add: agent_list_refresh_def agents.start_frame llm_providers.start_frame async_reachable.refetch)
next
  case (agents p n ra)
  then show ?case by (simp add: agent_list_agents_def useAgents_response_def agents.responses_frame async_reachable.respond)
next
  case (providers p n rp)
  then show ?case by (simp add: agent_list_providers_def useLlmProviders_response_def llm_providers.responses_frame async_reachable.respond)
qed (simp add: agent_list_search_def)

lemma list_refetch_loading: "st_loading (r_state (list_refetch h))" "requestIdRef (list_refetch h) \<in> set (r_pending (list_refetch h))"
  "mountedRef (list_refetch h) = mountedRef h"
  by (simp_all add: list_refetch_def send_request_def)

lemma response_latest: "mountedRef h \<Longrightarrow> r_state (async_response emp (requestIdRef h) r h) = response_state emp r"
  by (simp add: async_response_def Let_def)

lemma response_not_loading: "\<not> st_loading (response_state emp r)"
  by (simp add: response_state_def split: sum.split)

definition agent_list_answered ::
  "(jstr \<Rightarrow> jstr) \<Rightarrow> (jstr \<Rightarrow> jstr option) \<Rightarrow> jstr \<Rightarrow> thrown + AgentSummary list \<Rightarrow> thrown + LlmProviderSummary list \<Rightarrow> agent_row table_body" where
  \<comment> \<open>the table that two answers call for: the error of the agents first, then that of the providers\<close>
  "agent_list_answered lower format searchText ra rp = (case (ra, rp) of
     (Inl e, _) \<Rightarrow> Body_Error (error_message (asError e))
   | (Inr as, Inl e) \<Rightarrow> Body_Error (error_message (asError e))
   | (Inr as, Inr ps) \<Rightarrow> (case filteredAgents lower searchText as of [] \<Rightarrow> Body_Empty | rows \<Rightarrow> Body_Rows (map (AgentRow format ps) rows)))"

lemma answered_view:
  "AgentListPage_view lower format searchText (response_state [] (map_sum asError id ra)) (response_state [] (map_sum asError id rp))
     = agent_list_answered lower format searchText ra rp"
  by (auto simp: AgentListPage_view_def AgentTable_def error_body_def response_state_def agent_list_answered_def filteredAgents_def Let_def
      split: sum.split list.split)

subsection \<open>Properties\<close>

text \<open>Refreshing the list of agents. In every reachable state the refresh button is disabled exactly
  while the latest request for the agents or for the providers is unanswered. A click on the enabled
  button sends one request for each; the table then shows that it is loading, and the button does
  nothing, until both have been answered. In whichever order the two answers arrive, the table ends
  with the error of the agents, else with the error of the providers, else with the agents that
  match the search.\<close>
theorem agent_list_refresh_outcomes:
  assumes "agent_list_reachable p" "\<not> tb_refresh_disabled (agent_list_toolbar p)" "q = agent_list_refresh p"
    and "n = requestIdRef (al_agents q)" "m = requestIdRef (al_providers q)" "agent_list_reachable s"
  shows "(tb_refresh_disabled (agent_list_toolbar s) \<longleftrightarrow> requestIdRef (al_agents s) \<in> set (r_pending (al_agents s))
        \<or> requestIdRef (al_providers s) \<in> set (r_pending (al_providers s)))
    \<and> n \<in> set (r_pending (al_agents q)) \<and> m \<in> set (r_pending (al_providers q))
    \<and> (\<forall>x \<in> {q, agent_list_agents n ra q, agent_list_providers m rp q}. snd (agent_list_view lower format x) = Body_Loading \<and> agent_list_refresh x = x)
    \<and> (\<forall>x \<in> {agent_list_providers m rp (agent_list_agents n ra q), agent_list_agents n ra (agent_list_providers m rp q)}.
        snd (agent_list_view lower format x) = agent_list_answered lower format (al_searchText p) ra rp \<and> \<not> tb_refresh_disabled (agent_list_toolbar x))"
proof -
  have "tb_refresh_disabled (agent_list_toolbar s) \<longleftrightarrow> requestIdRef (al_agents s) \<in> set (r_pending (al_agents s))
      \<or> requestIdRef (al_providers s) \<in> set (r_pending (al_providers s))"
    using agent_list_hooks [OF assms(6)] agents.reachable_inv [of "al_agents s"] llm_providers.reachable_inv [of "al_providers s"]
    by (simp add: agent_list_toolbar_def catalog_toolbar_def async_inv_def)
  moreover have q: "q = p\<lparr>al_agents := list_refetch (al_agents p), al_providers := list_refetch (al_providers p)\<rparr>"
    using assms(2) by (simp add: assms(3) agent_list_refresh_def useAgents_refetch_def useLlmProviders_refetch_def)
  moreover have mounted: "mountedRef (list_refetch (al_agents p))" "mountedRef (list_refetch (al_providers p))"
    using agent_list_hooks [OF assms(1)] by (simp_all add: list_refetch_loading)
  moreover have loading: "snd (agent_list_view lower format x) = Body_Loading \<and> agent_list_refresh x = x"
    if "st_loading (r_state (al_agents x)) \<or> st_loading (r_state (al_providers x))" for x
    using that by (auto simp: agent_list_view_def AgentListPage_view_def AgentTable_def error_body_def agent_list_refresh_def
        agent_list_toolbar_def catalog_toolbar_def)
  moreover have "snd (agent_list_view lower format x) = Body_Loading \<and> agent_list_refresh x = x"
    if "x \<in> {q, agent_list_agents n ra q, agent_list_providers m rp q}" for x
    by (rule loading) (use that in \<open>auto simp: q agent_list_agents_def agent_list_providers_def list_refetch_loading\<close>)
  moreover have "snd (agent_list_view lower format x) = agent_list_answered lower format (al_searchText p) ra rp \<and> \<not> tb_refresh_disabled (agent_list_toolbar x)"
    if "x \<in> {agent_list_providers m rp (agent_list_agents n ra q), agent_list_agents n ra (agent_list_providers m rp q)}" for x
  proof -
    have "r_state (al_agents x) = response_state [] (map_sum asError id ra)" "r_state (al_providers x) = response_state [] (map_sum asError id rp)"
      "al_searchText x = al_searchText p"
      using that mounted by (auto simp: agent_list_agents_def agent_list_providers_def useAgents_response_def useLlmProviders_response_def
          assms(4,5) q response_latest)
    then show ?thesis
      by (simp add: agent_list_view_def answered_view agent_list_toolbar_def catalog_toolbar_def response_not_loading)
  qed
  moreover have "n \<in> set (r_pending (al_agents q))" "m \<in> set (r_pending (al_providers q))" by (simp_all add: assms(4,5) q list_refetch_loading)
  ultimately show ?thesis by blast
qed

definition demo_agent_list :: agent_list_page where
  "demo_agent_list = agent_list_providers 1 (Inr []) (agent_list_agents 1 (Inr []) agent_list_mount)"

lemma demo_agent_list_reachable: "agent_list_reachable demo_agent_list"
proof -
  have "1 \<in> set (r_pending (al_agents agent_list_mount))" "1 \<in> set (r_pending (al_providers agent_list_mount))" by code_simp+
  then show ?thesis unfolding demo_agent_list_def
    by (intro agent_list_reachable.providers agent_list_reachable.agents agent_list_reachable.mount) (simp_all add: agent_list_agents_def)
qed

theorem agent_list_refresh_outcomes_witness:
  "snd (agent_list_view id Some (agent_list_refresh demo_agent_list)) = Body_Loading
   \<and> snd (agent_list_view id Some (agent_list_agents 2 (Inl (Thrown_Value (str ''x''))) (agent_list_providers 2 (Inr []) (agent_list_refresh demo_agent_list))))
      = Body_Error (str ''x'')"
proof -
  have n: "\<not> tb_refresh_disabled (agent_list_toolbar demo_agent_list)" "2 = requestIdRef (al_agents (agent_list_refresh demo_agent_list))"
    "2 = requestIdRef (al_providers (agent_list_refresh demo_agent_list))" by code_simp+
  from agent_list_refresh_outcomes [OF demo_agent_list_reachable n(1) HOL.refl n(2,3) demo_agent_list_reachable,
      where ra = "Inl (Thrown_Value (str ''x''))" and rp = "Inr []" and lower = id and format = Some]
  show ?thesis by (simp add: agent_list_answered_def)
qed

end
