(* ===== verification/Markup.thy ===== *)
theory Markup
  imports ApiClient
begin

text \<open>
  The elements the components render, and the primitives of \<open>frontend/src/components/ui\<close>. An
  element is a tag with its properties and children; \<open>'h\<close> stands for the event handlers. The
  properties of a primitive are one object: the names it destructures are taken out of it, and
  the rest is spread over the element last, so a property of the caller wins.
\<close>

datatype 'h attr_value = AStr jstr | ABool bool | ANum int | AFn 'h

datatype 'h node = Txt jstr | Tag jstr "(jstr \<times> 'h attr_value) list" "'h node list"

type_synonym 'h attrs = "'h attr_value js_obj"

fun attr_str :: "'h attr_value option \<Rightarrow> jstr option" where
  "attr_str (Some (AStr s)) = Some s"
| "attr_str _ = None"

fun attr_bool :: "'h attr_value option \<Rightarrow> bool option" where
  "attr_bool (Some (ABool b)) = Some b"
| "attr_bool _ = None"

definition pstr :: "string \<Rightarrow> 'h attrs \<Rightarrow> jstr option" where
  "pstr k ps = attr_str (obj_get (str k) ps)"

definition pflag :: "string \<Rightarrow> 'h attrs \<Rightarrow> bool option" where
  "pflag k ps = attr_bool (obj_get (str k) ps)"

definition rest_of :: "string list \<Rightarrow> 'h attrs \<Rightarrow> 'h attrs" where
  \<comment> \<open>\<open>...props\<close> of a destructuring that names the given properties\<close>
  "rest_of ks ps = filter (\<lambda>(k, v). k \<notin> str ` set ks) ps"

definition spread :: "'h attrs \<Rightarrow> 'h attrs \<Rightarrow> 'h attrs" where
  "spread own ps = foldl (\<lambda>ob (k, v). obj_set k v ob) own ps"

definition classed :: "jstr \<Rightarrow> 'h attrs" where
  "classed c = [(str ''className'', AStr c)]"

fun tag_attrs :: "'h node \<Rightarrow> 'h attrs" where
  "tag_attrs (Tag t as ch) = as"
| "tag_attrs (Txt s) = []"

fun tag_children :: "'h node \<Rightarrow> 'h node list" where
  "tag_children (Tag t as ch) = ch"
| "tag_children (Txt s) = []"

fun node_texts :: "'h node \<Rightarrow> jstr" where
  "node_texts (Txt s) = s"
| "node_texts (Tag t as ch) = concat (map node_texts ch)"

definition truthy_node :: "'h node option \<Rightarrow> 'h node list" where
  \<comment> \<open>\<open>x ? ... : null\<close> on a \<open>ReactNode\<close>: missing and the empty string are falsy\<close>
  "truthy_node n = (case n of None \<Rightarrow> [] | Some (Txt []) \<Rightarrow> [] | Some x \<Rightarrow> [x])"

lemma obj_get_spread: "obj_get k (spread own ps) = (case map_of (rev ps) k of None \<Rightarrow> obj_get k own | v \<Rightarrow> v)"
proof (induction ps arbitrary: own)
  case (Cons p ps)
  obtain j v where "p = (j, v)" by (cases p)
  with Cons [of "obj_set j v own"] show ?case by (auto simp: spread_def map_add_def split: option.split)
qed (simp add: spread_def)

lemma map_of_rest_of: "map_of (rev (rest_of ks ps)) k = (if k \<in> str ` set ks then None else map_of (rev ps) k)"
proof (induction ps)
  case (Cons p ps)
  obtain j v where "p = (j, v)" by (cases p)
  with Cons show ?case by (auto simp: rest_of_def map_add_def split: option.splits)
qed (simp add: rest_of_def)

lemma obj_get_own:
  \<comment> \<open>a destructured property reaches the element only as the component sets it\<close>
  "k \<in> str ` set ks \<Longrightarrow> obj_get k (spread own (rest_of ks ps)) = obj_get k own"
  by (simp add: obj_get_spread map_of_rest_of)

subsection \<open>Buttons and selects\<close>

definition variantClass :: "jstr js_obj" where
  "variantClass =
     [(str ''primary'', str ''border-transparent bg-primary text-on-primary hover:bg-primary-deep''),
      (str ''secondary'', str ''border-hairline bg-canvas text-body hover:border-primary/40 hover:text-ink''),
      (str ''destructive'', str ''border-error/40 bg-canvas text-error-deep hover:bg-error-soft''),
      (str ''ghost'', str ''border-transparent bg-transparent text-mute hover:bg-canvas-soft hover:text-ink'')]"

definition sizeClass :: "jstr js_obj" where
  "sizeClass = [(str ''sm'', str ''h-9 px-3 text-xs''), (str ''icon'', str ''h-9 w-9 p-0 text-xs'')]"

definition Button :: "'h attrs \<Rightarrow> 'h node list \<Rightarrow> 'h node" where
  "Button ps ch =
     (let size = orElse (pstr ''size'' ps) (str ''sm'');
          ty = orElse (pstr ''type'' ps) (str ''button'');
          variant = orElse (pstr ''variant'' ps) (str ''secondary'')
      in Tag (str ''button'')
           (spread [(str ''className'', AStr (cn [Some (str ''inline-flex shrink-0 items-center justify-center rounded-lg border font-medium transition-colors disabled:cursor-not-allowed disabled:opacity-50''),
               obj_get variant variantClass, obj_get size sizeClass, pstr ''className'' ps])),
             (str ''type'', AStr ty)] (rest_of [''className'', ''size'', ''type'', ''variant''] ps)) ch)"

definition Select :: "'h attrs \<Rightarrow> 'h node list \<Rightarrow> 'h node" where
  "Select ps ch = Tag (str ''select'') (spread (classed (cn [Some (str ''h-9 appearance-none rounded-lg border border-hairline bg-canvas px-3 text-xs text-ink outline-none transition-colors hover:border-hairline-strong focus:border-primary focus:ring-2 focus:ring-primary/15 disabled:bg-canvas-soft disabled:text-body''),
     pstr ''className'' ps])) (rest_of [''className''] ps)) ch"

subsection \<open>Tables\<close>

definition classed_tag :: "string \<Rightarrow> string \<Rightarrow> 'h attrs \<Rightarrow> 'h node list \<Rightarrow> 'h node" where
  \<comment> \<open>\<open><tag className={cn(own, className)} {...props} />\<close>\<close>
  "classed_tag tag own ps ch =
     Tag (str tag) (spread (classed (cn [Some (str own), pstr ''className'' ps])) (rest_of [''className''] ps)) ch"

definition plain_tag :: "string \<Rightarrow> 'h attrs \<Rightarrow> 'h node list \<Rightarrow> 'h node" where
  \<comment> \<open>\<open><tag className={className} {...props} />\<close>\<close>
  "plain_tag tag ps ch =
     Tag (str tag) (spread (case pstr ''className'' ps of None \<Rightarrow> [] | Some c \<Rightarrow> classed c) (rest_of [''className''] ps)) ch"

definition Table :: "'h attrs \<Rightarrow> 'h node list \<Rightarrow> 'h node" where "Table = classed_tag ''table'' ''w-full''"

definition TableHeader :: "'h attrs \<Rightarrow> 'h node list \<Rightarrow> 'h node" where "TableHeader = plain_tag ''thead''"

definition TableBody :: "'h attrs \<Rightarrow> 'h node list \<Rightarrow> 'h node" where "TableBody = plain_tag ''tbody''"

definition TableRow :: "'h attrs \<Rightarrow> 'h node list \<Rightarrow> 'h node" where
  "TableRow = classed_tag ''tr'' ''border-b border-hairline last:border-0''"

definition TableHead :: "'h attrs \<Rightarrow> 'h node list \<Rightarrow> 'h node" where
  "TableHead = classed_tag ''th'' ''h-10 px-3 text-left font-mono text-2xs font-medium uppercase tracking-wide text-mute''"

definition TableCell :: "'h attrs \<Rightarrow> 'h node list \<Rightarrow> 'h node" where
  "TableCell = classed_tag ''td'' ''px-3 py-2.5''"

subsection \<open>The parts of the sidebar\<close>

definition Sidebar :: "'h attrs \<Rightarrow> 'h node list \<Rightarrow> 'h node" where
  "Sidebar = classed_tag ''aside'' ''h-screen overflow-hidden''"

definition SidebarHeader :: "'h attrs \<Rightarrow> 'h node list \<Rightarrow> 'h node" where
  "SidebarHeader = classed_tag ''div'' ''flex h-14 shrink-0 items-center gap-2 px-3''"

definition SidebarContent :: "'h attrs \<Rightarrow> 'h node list \<Rightarrow> 'h node" where
  "SidebarContent = classed_tag ''div'' ''min-h-0 flex-1 overflow-y-auto''"

definition SidebarMenu :: "'h attrs \<Rightarrow> 'h node list \<Rightarrow> 'h node" where
  "SidebarMenu = classed_tag ''nav'' ''flex flex-col gap-1 px-2 pt-2''"

definition SidebarMenuButton :: "'h attrs \<Rightarrow> 'h node list \<Rightarrow> 'h node" where
  "SidebarMenuButton ps ch =
     (let isActive = orElse (pflag ''isActive'' ps) False; sopen = orElse (pflag ''open'' ps) True;
          ty = orElse (pstr ''type'' ps) (str ''button'')
      in Tag (str ''button'')
           (spread ((if isActive then [(str ''aria-current'', AStr (str ''page''))] else []) @
             [(str ''className'', AStr (cn [Some (str ''flex h-9 items-center gap-2 rounded-xl text-xs font-medium transition-colors''),
                 Some (if sopen then str ''w-full px-2'' else str ''w-10 justify-center px-0''),
                 Some (if isActive then str ''bg-canvas text-ink shadow-sm ring-1 ring-primary/30'' else str ''text-body hover:bg-canvas-soft hover:text-ink''),
                 pstr ''className'' ps])),
              (str ''type'', AStr ty)] ) (rest_of [''className'', ''isActive'', ''open'', ''type''] ps)) ch)"

subsection \<open>What the primitives guarantee\<close>

definition submits :: "'h node \<Rightarrow> bool" where
  \<comment> \<open>a button submits its form unless its type is \<open>button\<close> or \<open>reset\<close> (HTML)\<close>
  "submits n = (case n of
     Txt s \<Rightarrow> False
   | Tag t as ch \<Rightarrow> t = str ''button'' \<and> \<not> List.member [Some (str ''button''), Some (str ''reset'')] (pstr ''type'' as))"

lemma own_type:
  "pstr ''type'' (tag_attrs (Button ps ch)) = Some (orElse (pstr ''type'' ps) (str ''button''))"
  "pstr ''type'' (tag_attrs (SidebarMenuButton ps ch)) = Some (orElse (pstr ''type'' ps) (str ''button''))"
  by (simp_all add: Button_def SidebarMenuButton_def Let_def pstr_def obj_get_own) (simp_all add: obj_get_def)

text \<open>A button of the library submits a form exactly when the caller gives it a type other than
  \<open>button\<close> and \<open>reset\<close>: a button inside a form that says nothing about its type, and every
  entry of the sidebar, leaves the form alone.\<close>
lemma buttons_do_not_submit:
  "submits (Button ps ch) \<longleftrightarrow> (\<exists>ty. pstr ''type'' ps = Some ty \<and> ty \<noteq> str ''button'' \<and> ty \<noteq> str ''reset'')"
  "submits (SidebarMenuButton ps ch) \<longleftrightarrow> (\<exists>ty. pstr ''type'' ps = Some ty \<and> ty \<noteq> str ''button'' \<and> ty \<noteq> str ''reset'')"
  using own_type [of ps ch]
  by (cases "pstr ''type'' ps"; auto simp: submits_def Button_def SidebarMenuButton_def Let_def)+

lemma classed_tag_simps [simp]:
  "tag_children (classed_tag t own ps ch) = ch"
  "node_texts (classed_tag t own ps ch) = concat (map node_texts ch)"
  "tag_children (plain_tag t ps ch) = ch"
  by (simp_all add: classed_tag_def plain_tag_def)

lemma classed_tag_attr:
  "k \<noteq> str ''className'' \<Longrightarrow> obj_get k (tag_attrs (classed_tag t own ps ch)) = map_of (rev ps) k"
  unfolding classed_tag_def tag_attrs.simps obj_get_spread map_of_rest_of
  by (simp add: classed_def obj_get_def split: option.split)

lemma menu_button_attr:
  \<comment> \<open>the properties of the caller, and \<open>aria-current\<close> on the active entry\<close>
  assumes "k \<notin> {str ''className'', str ''isActive'', str ''open'', str ''type''}"
  shows "obj_get k (tag_attrs (SidebarMenuButton ps ch)) = (case map_of (rev ps) k of
     Some v \<Rightarrow> Some v
   | None \<Rightarrow> if k = str ''aria-current'' \<and> orElse (pflag ''isActive'' ps) False then Some (AStr (str ''page'')) else None)"
proof -
  have rest: "map_of (rev (rest_of [''className'', ''isActive'', ''open'', ''type''] ps)) k = map_of (rev ps) k"
    using assms by (simp add: map_of_rest_of)
  show ?thesis
    unfolding SidebarMenuButton_def Let_def tag_attrs.simps obj_get_spread rest
    using assms by (simp add: obj_get_def split: option.split)
qed

end
