(* ===== verification/Rendering.thy ===== *)
theory Rendering
  imports Markup EditPages Workspace
begin

text \<open>
  The markup of the page layouts, the sidebar and the small views of the pages, and the views of
  \<open>EditPages\<close> and \<open>Workspace\<close> read back from it: the breadcrumbs, the title and the description of
  a page, the entries of the sidebar. The components of the router and of the markdown library are
  elements with their own tags. The key React needs for a list item is not part of the markup.
\<close>

subsection \<open>Breadcrumbs\<close>

definition aria_current :: "bool \<Rightarrow> 'h attrs" where
  "aria_current b = (if b then [(str ''aria-current'', AStr (str ''page''))] else [])"

definition crumb_separator :: "jstr \<Rightarrow> nat \<Rightarrow> 'h node list" where
  "crumb_separator c index = (if 0 < index
     then [Tag (str ''span'') ((str ''aria-hidden'', AStr (str ''true'')) # (if c = [] then [] else classed c)) [Txt (str ''/'')]] else [])"

definition crumb_link :: "string \<Rightarrow> jstr \<Rightarrow> jstr \<Rightarrow> 'h node" where
  "crumb_link c t l = Tag (str ''Link'') [(str ''className'', AStr (str c)), (str ''to'', AStr t)] [Txt l]"

definition McpBreadcrumb_markup :: "crumb list option \<Rightarrow> jstr option \<Rightarrow> 'h node" where
  "McpBreadcrumb_markup items serverName =
     (let resolvedItems = (case items of Some cs \<Rightarrow> cs | None \<Rightarrow>
            [\<lparr>cr_label = (str ''MCP '' @ [0x7BA1, 0x7406]), cr_to = Some (str ''/mcp'')\<rparr>, \<lparr>cr_label = orElse serverName (str ''...''), cr_to = None\<rparr>])
      in Tag (str ''nav'') [(str ''aria-label'', AStr [0x9762, 0x5305, 0x5C51]), (str ''className'', AStr (str ''text-xs''))]
        [Tag (str ''ol'') (classed (str ''flex items-center gap-1.5''))
          (map (\<lambda>(index, item). let isCurrent = (int index = int (length resolvedItems) - 1) in
             Tag (str ''li'') (classed (str ''flex items-center gap-1.5''))
               (crumb_separator (str ''text-mute'') index @
                [case Option.bind (cr_to item) nonempty of
                   Some t \<Rightarrow> if \<not> isCurrent then crumb_link ''text-mute transition-colors hover:text-ink'' t (cr_label item)
                     else Tag (str ''span'') (aria_current isCurrent @ classed (str ''inline-block max-w-[16ch] truncate font-medium text-ink sm:max-w-[24ch]'')) [Txt (cr_label item)]
                 | None \<Rightarrow> Tag (str ''span'') (aria_current isCurrent @ classed (str ''inline-block max-w-[16ch] truncate font-medium text-ink sm:max-w-[24ch]'')) [Txt (cr_label item)]]))
            (enumerate 0 resolvedItems))])"

definition layout_item :: "nat \<Rightarrow> crumb \<Rightarrow> 'h node" where
  "layout_item index item = Tag (str ''span'') (classed (str ''flex items-center gap-1''))
     (crumb_separator [] index @
      [case Option.bind (cr_to item) nonempty of
         Some t \<Rightarrow> crumb_link ''rounded-full px-1.5 py-1 hover:text-primary-deep'' t (cr_label item)
       | None \<Rightarrow> Tag (str ''span'') (aria_current True @ classed (str ''rounded-full px-1.5 py-1 text-ink'')) [Txt (cr_label item)]])"

definition layout_nav :: "crumb list \<Rightarrow> 'h node" where
  "layout_nav items = Tag (str ''nav'') [(str ''aria-label'', AStr [0x9762, 0x5305, 0x5C51]), (str ''className'', AStr (str ''flex items-center gap-1 text-2xs text-mute''))]
     (map (\<lambda>(index, item). layout_item index item) (enumerate 0 items))"

subsection \<open>Page layouts\<close>

definition page_frame :: "jstr \<Rightarrow> 'h node \<Rightarrow> 'h node option \<Rightarrow> 'h node option \<Rightarrow> jstr \<Rightarrow> 'h node list \<Rightarrow> 'h node" where
  \<comment> \<open>what the three layouts have in common\<close>
  "page_frame label nav actions description title ch =
     Tag (str ''main'') [(str ''aria-label'', AStr label), (str ''className'', AStr (str ''flex min-h-0 flex-1 flex-col overflow-hidden''))]
       [Tag (str ''header'') (classed (str ''flex shrink-0 flex-col gap-3 bg-transparent px-4 py-3''))
          [nav,
           Tag (str ''div'') (classed (str ''flex flex-col gap-3 sm:flex-row sm:items-start sm:justify-between''))
             (Tag (str ''div'') (classed (str ''min-w-0''))
                (Tag (str ''h1'') (classed (str ''text-base font-semibold tracking-tight text-ink'')) [Txt title]
                 # map (\<lambda>d. Tag (str ''div'') (classed (str ''mt-0.5 text-xs text-mute'')) [d]) (truthy_node description))
              # map (\<lambda>a. Tag (str ''div'') (classed (str ''flex shrink-0 items-center gap-1.5'')) [a]) (truthy_node actions))],
        Tag (str ''div'') (classed (str ''min-h-0 flex-1 overflow-y-auto p-4'')) ch]"

definition McpPageLayout :: "'h node option \<Rightarrow> 'h node option \<Rightarrow> crumb list \<Rightarrow> jstr \<Rightarrow> 'h node list \<Rightarrow> 'h node" where
  "McpPageLayout actions description items title ch =
     page_frame (str ''MCP '' @ [0x7BA1, 0x7406, 0x4E3B, 0x5185, 0x5BB9]) (McpBreadcrumb_markup (Some items) None) actions description title ch"

definition LlmProviderPageLayout :: "'h node option \<Rightarrow> 'h node option \<Rightarrow> crumb list \<Rightarrow> jstr \<Rightarrow> 'h node list \<Rightarrow> 'h node" where
  "LlmProviderPageLayout actions description items title ch =
     page_frame (str ''LLM Provider '' @ [0x7BA1, 0x7406, 0x4E3B, 0x5185, 0x5BB9]) (layout_nav items) actions description title ch"

definition AgentPageLayout :: "'h node option \<Rightarrow> 'h node option \<Rightarrow> crumb list \<Rightarrow> jstr \<Rightarrow> 'h node list \<Rightarrow> 'h node" where
  "AgentPageLayout actions description items title ch =
     page_frame (str ''Agent '' @ [0x914D, 0x7F6E, 0x4E3B, 0x5185, 0x5BB9]) (layout_nav items) actions description title ch"

subsection \<open>Reading a page\<close>

fun shown_crumb_of :: "'h node \<Rightarrow> shown_crumb" where
  "shown_crumb_of (Tag t as ch) = (case pstr ''to'' as of
     Some u \<Rightarrow> Crumb_Link (node_texts (Tag t as ch)) u
   | None \<Rightarrow> Crumb_Text (node_texts (Tag t as ch)) (pstr ''aria-current'' as = Some (str ''page'')))"
| "shown_crumb_of (Txt s) = Crumb_Text s False"

definition read_item :: "'h node \<Rightarrow> shown_crumb" where
  "read_item n = shown_crumb_of (last (tag_children n))"

definition nav_items :: "'h node \<Rightarrow> 'h node list" where
  \<comment> \<open>the items of a breadcrumb, with or without a list around them\<close>
  "nav_items n = (case tag_children n of
     [Tag u bs ch] \<Rightarrow> if u = str ''ol'' then ch else [Tag u bs ch]
   | cs \<Rightarrow> cs)"

definition read_crumbs :: "'h node \<Rightarrow> shown_crumb list" where
  "read_crumbs n = map read_item (nav_items n)"

definition child :: "nat \<Rightarrow> 'h node \<Rightarrow> 'h node" where
  "child i n = (if i < length (tag_children n) then tag_children n ! i else Txt [])"

definition read_header :: "'h node \<Rightarrow> page_header" where
  "read_header m = (let header = child 0 m; texts = child 0 (child 1 header) in
     \<lparr>ph_items = read_crumbs (child 0 header), ph_title = node_texts (child 0 texts), ph_description = node_texts (child 1 texts)\<rparr>)"

lemma attr_simps [simp]:
  "pstr k [] = None"
  "pstr k ((j, v) # as) = (if j = str k then attr_str (Some v) else pstr k as)"
  by (simp_all add: pstr_def obj_get_def)

lemma read_mcp_crumbs: "read_crumbs (McpBreadcrumb_markup items n) = McpBreadcrumb items n"
  by (auto simp: McpBreadcrumb_markup_def McpBreadcrumb_def Let_def read_crumbs_def nav_items_def read_item_def
      crumb_link_def aria_current_def classed_def split: option.split)

lemma map_enumerate_snd: "map (\<lambda>(i, x). g x) (enumerate n xs) = map g xs"
  by (induction xs arbitrary: n) simp_all

lemma read_layout_crumbs: "read_crumbs (layout_nav items :: 'h node) = layout_crumbs items"
proof -
  have item: "read_item (layout_item i x :: 'h node) = (case Option.bind (cr_to x) nonempty of
      Some t \<Rightarrow> Crumb_Link (cr_label x) t | None \<Rightarrow> Crumb_Text (cr_label x) True)" for i x
    by (simp add: layout_item_def read_item_def crumb_link_def aria_current_def classed_def split: option.split)
  have "nav_items (layout_nav items :: 'h node) = map (\<lambda>(i, x). layout_item i x) (enumerate 0 items)"
    by (auto simp: nav_items_def layout_nav_def layout_item_def split: list.split node.split)
  then have "read_crumbs (layout_nav items :: 'h node) = map (\<lambda>(i, x). read_item (layout_item i x :: 'h node)) (enumerate 0 items)"
    by (simp add: read_crumbs_def case_prod_beta)
  then show ?thesis by (simp add: layout_crumbs_def item map_enumerate_snd)
qed

text \<open>The three layouts show the breadcrumbs, the title and the description of the header they are
  given, the actions exactly when there are any, and the page below.\<close>
lemma layouts_show_header:
  fixes actions description :: "'h node option"
  defines "texts \<equiv> concat (map node_texts (truthy_node description))"
  shows "read_header (McpPageLayout actions description items title ch)
      = \<lparr>ph_items = McpBreadcrumb (Some items) None, ph_title = title, ph_description = texts\<rparr>"
    "read_header (LlmProviderPageLayout actions description items title ch)
      = \<lparr>ph_items = layout_crumbs items, ph_title = title, ph_description = texts\<rparr>"
    "read_header (AgentPageLayout actions description items title ch)
      = \<lparr>ph_items = layout_crumbs items, ph_title = title, ph_description = texts\<rparr>"
    "tag_children (child 1 (page_frame label nav actions description title ch)) = ch"
    "concat (map tag_children (drop 1 (tag_children (child 1 (child 0 (page_frame label nav actions description title ch))))))
      = truthy_node actions"
  unfolding texts_def
  by (auto simp: McpPageLayout_def LlmProviderPageLayout_def AgentPageLayout_def page_frame_def read_header_def
      child_def Let_def read_mcp_crumbs read_layout_crumbs truthy_node_def split: option.split node.split list.split)

subsection \<open>The sidebar\<close>

datatype sidebar_handler = On_Toggle | On_Route WorkspaceRouteKey

definition svg_icon :: "'h node list \<Rightarrow> 'h node" where
  "svg_icon shapes = Tag (str ''svg'')
     [(str ''aria-hidden'', AStr (str ''true'')), (str ''className'', AStr (str ''h-4 w-4'')), (str ''fill'', AStr (str ''none'')),
      (str ''stroke'', AStr (str ''currentColor'')), (str ''strokeLinecap'', AStr (str ''round'')), (str ''strokeLinejoin'', AStr (str ''round'')),
      (str ''strokeWidth'', AStr (str ''1.8'')), (str ''viewBox'', AStr (str ''0 0 24 24''))] shapes"

definition svg_path :: "string \<Rightarrow> 'h node" where
  "svg_path d = Tag (str ''path'') [(str ''d'', AStr (str d))] []"

definition svg_rect :: "string \<Rightarrow> string \<Rightarrow> string \<Rightarrow> string \<Rightarrow> string \<Rightarrow> 'h node" where
  "svg_rect x y w h r = Tag (str ''rect'') [(str ''x'', AStr (str x)), (str ''y'', AStr (str y)), (str ''width'', AStr (str w)),
     (str ''height'', AStr (str h)), (str ''rx'', AStr (str r))] []"

definition SidebarIcon :: "'h node" where
  "SidebarIcon = svg_icon [svg_rect ''3'' ''4'' ''18'' ''16'' ''3'', svg_path ''M9 4v16'']"

definition PencilIcon :: "'h node" where
  "PencilIcon = svg_icon [svg_path ''M16 3l5 5-12 12H4v-5z'', svg_path ''M14 5l5 5'']"

definition ServerIcon :: "'h node" where
  "ServerIcon = svg_icon [svg_rect ''3'' ''4'' ''18'' ''7'' ''2'', svg_rect ''3'' ''13'' ''18'' ''7'' ''2'', svg_path ''M7 7.5h.01M7 16.5h.01'']"

definition CpuIcon :: "'h node" where
  "CpuIcon = svg_icon [svg_rect ''6'' ''6'' ''12'' ''12'' ''2'',
     svg_path ''M9 1v3M15 1v3M9 20v3M15 20v3M1 9h3M1 15h3M20 9h3M20 15h3'', svg_path ''M10 10h4v4h-4z'']"

definition SparklesIcon :: "'h node" where
  "SparklesIcon = svg_icon [svg_path ''M12 3l1.6 4.4L18 9l-4.4 1.6L12 15l-1.6-4.4L6 9l4.4-1.6z'',
     svg_path ''M19 14l.9 2.1L22 17l-2.1.9L19 20l-.9-2.1L16 17l2.1-.9z'', svg_path ''M5 14l.7 1.7L7.5 16l-1.8.7L5 18l-.7-1.7L2.5 16l1.8-.7z'']"

fun iconForRoute :: "WorkspaceRouteKey \<Rightarrow> 'h node" where
  "iconForRoute Key_sop = PencilIcon"
| "iconForRoute Key_llm_providers = CpuIcon"
| "iconForRoute Key_agents = SparklesIcon"
| "iconForRoute Key_mcp = ServerIcon"

definition SidebarNavButton_markup :: "bool \<Rightarrow> bool \<Rightarrow> WorkspaceRouteDefinition \<Rightarrow> sidebar_handler node" where
  "SidebarNavButton_markup sopen active route =
     SidebarMenuButton
       ([(str ''aria-label'', AStr (rt_label route)), (str ''isActive'', ABool active), (str ''onClick'', AFn (On_Route (rt_key route))),
         (str ''open'', ABool sopen)] @ (if sopen then [] else [(str ''title'', AStr (rt_label route))]))
       (Tag (str ''span'') [(str ''aria-hidden'', AStr (str ''true'')), (str ''className'', AStr (str ''flex h-4 w-4 shrink-0 items-center justify-center''))]
          [iconForRoute (rt_key route)]
        # (if sopen then [Tag (str ''span'') (classed (str ''truncate'')) [Txt (rt_label route)]] else []))"

definition WorkspaceSidebar_markup ::
  "bool \<Rightarrow> WorkspaceRouteKey \<Rightarrow> WorkspaceRouteDefinition list \<Rightarrow> sidebar_handler node option \<Rightarrow> sidebar_handler node list \<Rightarrow> sidebar_handler node" where
  "WorkspaceSidebar_markup sopen activeKey navRoutes topContent ch =
     Sidebar [(str ''aria-label'', AStr [0x5DE5, 0x4F5C, 0x53F0, 0x4FA7, 0x8FB9, 0x680F]),
        (str ''className'', AStr (str ''flex shrink-0 flex-col border-r border-hairline bg-canvas/60 backdrop-blur-sm transition-[width] duration-200 ''
           @ (if sopen then str ''w-64'' else str ''w-14'')))]
       ([SidebarHeader []
           (Tag (str ''button'') [(str ''aria-label'', AStr (if sopen then [0x6536, 0x8D77, 0x4FA7, 0x8FB9, 0x680F] else [0x5C55, 0x5F00, 0x4FA7, 0x8FB9, 0x680F])),
               (str ''className'', AStr (str ''flex h-9 w-9 items-center justify-center rounded-full text-mute transition-colors hover:bg-canvas-soft hover:text-ink'')),
               (str ''onClick'', AFn On_Toggle), (str ''type'', AStr (str ''button''))] [SidebarIcon]
            # (if sopen then [Tag (str ''span'') (classed (str ''text-base font-semibold tracking-tight text-ink'')) [Txt [0x8D28, 0x91CF, 0x68C0, 0x67E5]]] else []))]
        @ (if sopen then truthy_node topContent else [])
        @ [SidebarMenu [(str ''aria-label'', AStr [0x5DE5, 0x4F5C, 0x53F0, 0x5BFC, 0x822A])]
             (map (\<lambda>route. SidebarNavButton_markup sopen (activeKey = rt_key route) route) navRoutes),
           if sopen then SidebarContent [] ch else Tag (str ''div'') (classed (str ''flex-1'')) []])"

definition read_entry :: "sidebar_handler node \<Rightarrow> nav_entry option" where
  \<comment> \<open>an entry of the navigation as it is on the screen\<close>
  "read_entry n = (case obj_get (str ''onClick'') (tag_attrs n) of
     Some (AFn (On_Route k)) \<Rightarrow> Some \<lparr>ne_aria_label = orElse (pstr ''aria-label'' (tag_attrs n)) [],
       ne_aria_current = pstr ''aria-current'' (tag_attrs n), ne_title = pstr ''title'' (tag_attrs n),
       ne_text = (case drop 1 (tag_children n) of [] \<Rightarrow> None | t # _ \<Rightarrow> Some (node_texts t)), ne_key = k\<rparr>
   | _ \<Rightarrow> None)"

definition read_navigation :: "sidebar_handler node \<Rightarrow> nav_entry option list" where
  "read_navigation n = map read_entry (tag_children (last (butlast (tag_children n))))"

lemma read_entry_markup:
  "read_entry (SidebarNavButton_markup sopen active route)
     = Some (SidebarNavButton sopen \<lparr>nb_active = active, nb_label = rt_label route, nb_key = rt_key route\<rparr>)"
proof -
  let ?n = "SidebarNavButton_markup sopen active route"
  have ch: "drop 1 (tag_children ?n) = (if sopen then [Tag (str ''span'') (classed (str ''truncate'')) [Txt (rt_label route)]] else [])"
    by (simp add: SidebarNavButton_markup_def SidebarMenuButton_def Let_def)
  have a: "obj_get (str ''onClick'') (tag_attrs ?n) = Some (AFn (On_Route (rt_key route)))"
    "obj_get (str ''aria-label'') (tag_attrs ?n) = Some (AStr (rt_label route))"
    "obj_get (str ''aria-current'') (tag_attrs ?n) = (if active then Some (AStr (str ''page'')) else None)"
    "obj_get (str ''title'') (tag_attrs ?n) = (if sopen then None else Some (AStr (rt_label route)))"
    unfolding SidebarNavButton_markup_def by (simp_all add: menu_button_attr) (simp_all add: pflag_def obj_get_def)
  show ?thesis unfolding read_entry_def pstr_def a ch
    by (simp add: SidebarNavButton_def SidebarMenuButton_current_def)
qed


lemma nav_button_kept: "\<not> submits (SidebarNavButton_markup sopen active route)"
  by (auto simp: SidebarNavButton_markup_def buttons_do_not_submit pstr_def obj_get_def)


end
