(* ===== verification/TableMarkup.thy ===== *)
theory TableMarkup
  imports Markup CatalogPages EditPages
begin

text \<open>
  The markup of the three list tables (\<open>McpServerTable.tsx\<close>, \<open>LlmProviderTable.tsx\<close>, \<open>AgentTable.tsx\<close>):
  headings, the rows for loading, failure and nothing to show, and the rows of the entries. The
  cells read back are those of the views of \<open>McpPages\<close> and \<open>CatalogPages\<close>, and every row spans the
  columns of the heading. The menu of a row and the button of the empty table are arguments.
\<close>

subsection \<open>Rows and cells\<close>

definition heading :: "string \<Rightarrow> jstr \<Rightarrow> 'h node" where
  "heading width label = TableHead (classed (str width @ str '' font-sans text-2xs font-semibold tracking-[0.12em] text-stone'')) [Txt label]"

definition message_row :: "string \<Rightarrow> 'h attrs \<Rightarrow> int \<Rightarrow> 'h node list \<Rightarrow> 'h node" where
  \<comment> \<open>one cell over all columns\<close>
  "message_row cls role n ch =
     TableRow [] [TableCell ([(str ''className'', AStr (str cls)), (str ''colSpan'', ANum n)] @ role) ch]"

definition loading_row :: "int \<Rightarrow> 'h node" where
  "loading_row n = message_row ''rounded-xl bg-canvas-soft/60 py-8 text-center text-xs text-mute'' [] n [Txt [0x52A0, 0x8F7D, 0x4E2D, 0x2026]]"

definition error_row :: "int \<Rightarrow> jstr \<Rightarrow> 'h node" where
  "error_row n message = message_row ''rounded-xl border border-error-soft bg-canvas px-3 py-2 text-xs text-error-deep''
     [(str ''role'', AStr (str ''alert''))] n [Txt message]"

definition empty_row :: "int \<Rightarrow> 'h node list \<Rightarrow> 'h node" where
  "empty_row n ch = message_row ''rounded-xl bg-canvas-soft/60 py-12 text-center text-xs text-mute'' [] n ch"

definition body_rows :: "int \<Rightarrow> 'h node list \<Rightarrow> ('a \<Rightarrow> 'h node) \<Rightarrow> 'a table_body \<Rightarrow> 'h node list" where
  "body_rows n none row b = (case b of
     Body_Loading \<Rightarrow> [loading_row n] | Body_Error m \<Rightarrow> [error_row n m] | Body_Empty \<Rightarrow> [empty_row n none]
   | Body_Rows rs \<Rightarrow> map row rs)"

definition table_markup :: "string \<Rightarrow> 'h node list \<Rightarrow> 'h node list \<Rightarrow> 'h node" where
  "table_markup width hs rows = Table (classed (str width @ str '' border-separate border-spacing-y-2''))
     [TableHeader [] [TableRow (classed (str ''border-0'')) hs], TableBody [] rows]"

definition MetricCell :: "string option \<Rightarrow> 'h node list \<Rightarrow> 'h node" where
  \<comment> \<open>the cell of the provider and agent tables\<close>
  "MetricCell className ch = TableCell (classed (str ''border-y border-hairline-soft bg-canvas-soft/70 py-3 text-xs text-body '' @ str (orElse className ''''))) ch"

definition McpMetricCell :: "string option \<Rightarrow> 'h node list \<Rightarrow> 'h node" where
  "McpMetricCell className ch = TableCell (classed (str ''border-y border-hairline-soft bg-canvas-soft/55 align-middle transition-colors group-hover:border-primary/20 group-hover:bg-primary-soft/30 ''
     @ str (orElse className ''''))) ch"

definition el :: "string \<Rightarrow> string \<Rightarrow> 'h node list \<Rightarrow> 'h node" where
  "el t cls ch = Tag (str t) (classed (str cls)) ch"

definition enabled_label :: "bool \<Rightarrow> jstr" where
  "enabled_label b = (if b then [0x5DF2, 0x542F, 0x7528] else [0x5DF2, 0x505C, 0x7528])"

subsection \<open>The table of providers\<close>

definition provider_headings :: "'h node list" where
  "provider_headings = [heading ''w-[26%] px-4'' (str ''Provider''), heading ''w-[130px]'' [0x7C7B, 0x578B], heading ''w-[28%]'' (str ''Base URL''),
     heading ''w-[120px]'' (str ''API Key''), heading ''w-[120px]'' [0x72B6, 0x6001]]"

definition provider_row_markup :: "LlmProviderSummary \<Rightarrow> 'h node" where
  "provider_row_markup p = TableRow (classed (str ''group border-0''))
     [MetricCell (Some ''rounded-l-3xl border-l px-4 py-4'')
        [Tag (str ''Link'') [(str ''className'', AStr (str ''block min-w-0 rounded-2xl focus:outline-none focus-visible:ring-2 focus-visible:ring-primary/30'')),
            (str ''to'', AStr (str ''/llm-providers/'' @ prov_id p))]
          [el ''p'' ''truncate text-sm font-semibold tracking-tight text-ink transition-colors group-hover:text-primary-deep'' [Txt (prov_display_name p)],
           el ''p'' ''mt-1 truncate font-mono text-xs text-stone'' [Txt (prov_id p)]]],
      MetricCell None [el ''span'' ''inline-flex h-7 items-center rounded-full border border-hairline bg-canvas px-2.5 font-mono text-xs text-ink'' [Txt (prov_provider_type p)]],
      MetricCell None [el ''span'' ''block truncate rounded-full bg-canvas px-3 py-1.5 font-mono text-xs text-ink''
        [Txt (orElse (prov_base_url p) ([0x9ED8, 0x8BA4] @ str '' LangChain provider endpoint''))]],
      MetricCell None [el ''span'' (if prov_api_key_configured p then ''text-success'' else ''text-mute'')
        [Txt (if prov_api_key_configured p then [0x5DF2, 0x914D, 0x7F6E] else [0x672A, 0x914D, 0x7F6E])]],
      MetricCell (Some ''rounded-r-3xl border-r'') [el ''span'' (if prov_enabled p then ''text-primary-deep'' else ''text-mute'') [Txt (enabled_label (prov_enabled p))]]]"

definition LlmProviderTable_markup :: "bool \<Rightarrow> js_error option \<Rightarrow> LlmProviderSummary list \<Rightarrow> 'h node" where
  "LlmProviderTable_markup loading error providers = table_markup ''min-w-[940px]'' provider_headings
     (body_rows 5 [Txt ([0x6682, 0x65E0] @ str '' LLM Provider'' @ [0x3002])] provider_row_markup (error_body loading error providers))"

subsection \<open>The table of agents\<close>

definition agent_headings :: "'h node list" where
  "agent_headings = [heading ''w-[24%] px-4'' (str ''Agent''), heading ''w-[100px]'' [0x72B6, 0x6001], heading ''w-[17%]'' [0x6A21, 0x578B], heading ''w-[15%]'' (str ''Provider''),
     heading ''w-[16%]'' (str ''Draft''), heading ''w-[140px]'' [0x66F4, 0x65B0, 0x65F6, 0x95F4], heading ''w-[90px]'' [0x64CD, 0x4F5C]]"

definition AgentRow_markup :: "(jstr \<Rightarrow> jstr option) \<Rightarrow> LlmProviderSummary list \<Rightarrow> AgentSummary \<Rightarrow> 'h node" where
  "AgentRow_markup format providers agent =
     (let modelLabel = (case ag_latest_version agent of Some v \<Rightarrow> ver_model v | None \<Rightarrow> [0x672A, 0x53D1, 0x5E03]);
          provider = (case ag_latest_version agent of
            Some v \<Rightarrow> resolveProviderDisplay (ver_provider_id v) providers | None \<Rightarrow> (False, [0x672A, 0x53D1, 0x5E03]))
      in TableRow (classed (str ''group border-0''))
     [MetricCell (Some ''rounded-l-3xl border-l px-4 py-4'')
        [el ''div'' ''min-w-0''
          ([el ''p'' ''truncate text-sm font-semibold tracking-tight text-ink transition-colors group-hover:text-primary-deep'' [Txt (ag_display_name agent)],
            el ''p'' ''mt-1 truncate font-mono text-xs text-stone'' [Txt (ag_id agent)]]
           @ (case Option.bind (ag_description agent) nonempty of Some d \<Rightarrow> [el ''p'' ''mt-1 truncate text-xs text-mute'' [Txt d]] | None \<Rightarrow> []))],
      MetricCell None [el ''span'' (if ag_enabled agent then ''text-primary-deep'' else ''text-mute'') [Txt (enabled_label (ag_enabled agent))]],
      MetricCell None [el ''span'' ''block truncate rounded-full bg-canvas px-3 py-1.5 font-mono text-xs text-ink'' [Txt modelLabel]],
      MetricCell None ([el ''span'' ''block truncate text-xs text-body'' [Txt (snd provider)]]
        @ (if fst provider then [el ''span'' ''mt-1 block text-2xs text-mute'' [Txt (str ''Provider '' @ [0x5DF2, 0x505C, 0x7528])]] else [])),
      MetricCell None [el ''span'' (if ag_has_draft agent then ''text-ink'' else ''text-mute'') [Txt (if ag_has_draft agent then ([0x6709] @ str '' Draft'') else ([0x65E0] @ str '' Draft''))]],
      MetricCell None [el ''span'' ''font-mono text-xs text-body'' [Txt (formatAgentUpdatedAt format (ag_updated_at agent))]],
      MetricCell (Some ''rounded-r-3xl border-r'')
        [Tag (str ''Link'') [(str ''aria-label'', AStr (([0x7F16, 0x8F91] @ str '' '') @ ag_display_name agent)),
            (str ''className'', AStr (str ''inline-flex h-8 items-center justify-center rounded-lg border border-hairline bg-canvas px-3 text-xs font-medium text-body transition-colors hover:border-primary/40 hover:text-primary-deep focus:outline-none focus-visible:ring-2 focus-visible:ring-primary/30'')),
            (str ''to'', AStr (str ''/agents/'' @ ag_id agent @ str ''/edit''))] [Txt [0x7F16, 0x8F91]]]])"

definition AgentTable_markup :: "(jstr \<Rightarrow> jstr option) \<Rightarrow> LlmProviderSummary list \<Rightarrow> bool \<Rightarrow> js_error option \<Rightarrow> AgentSummary list \<Rightarrow> 'h node" where
  "AgentTable_markup format providers loading error agents = table_markup ''min-w-[1080px]'' agent_headings
     (body_rows 7 [Txt ([0x6682, 0x65E0] @ str '' Agent'' @ [0x3002])] (AgentRow_markup format providers) (error_body loading error agents))"

subsection \<open>The table of MCP servers\<close>

definition mcp_headings :: "'h node list" where
  "mcp_headings = [heading ''w-[24%] px-4'' (str ''MCP '' @ [0x670D, 0x52A1]), heading ''w-[132px]'' [0x542F, 0x7528, 0x7B56, 0x7565], heading ''w-[28%]'' [0x8FDE, 0x63A5, 0x914D, 0x7F6E], heading ''w-[96px] text-center'' [0x5DE5, 0x5177],
     heading ''w-[136px]'' [0x8FD0, 0x884C, 0x72B6, 0x6001], heading ''w-[156px]'' [0x6700, 0x8FD1, 0x68C0, 0x67E5], heading ''w-[72px] text-center'' [0x64CD, 0x4F5C]]"

definition STATUS_STYLES :: "McpServerRuntimeStatus \<Rightarrow> string \<times> string \<times> string" where
  \<comment> \<open>the pill, the text and the dot\<close>
  "STATUS_STYLES st = (case st of
     Rt_Running \<Rightarrow> (''bg-success/15'', ''text-success'', ''bg-success'')
   | Rt_Stopped \<Rightarrow> (''bg-canvas-soft border border-hairline'', ''text-body'', ''bg-hairline-strong'')
   | Rt_Error \<Rightarrow> (''bg-error-soft'', ''text-error-deep'', ''bg-error'')
   | Rt_Starting \<Rightarrow> (''bg-primary-soft'', ''text-primary-deep'', ''bg-primary'')
   | Rt_Stopping \<Rightarrow> (''bg-primary-soft'', ''text-primary-deep'', ''bg-primary'')
   | Rt_Unknown \<Rightarrow> (''bg-canvas-soft border border-hairline'', ''text-mute'', ''bg-hairline-strong''))"

definition McpStatusBadge_markup :: "McpServerRuntimeStatus \<Rightarrow> 'h node" where
  "McpStatusBadge_markup status = (case STATUS_STYLES status of (pill, text, dot) \<Rightarrow>
     Tag (str ''span'') (classed (str ''inline-flex h-4 items-center gap-1 rounded-full px-1.5 text-2xs font-medium '' @ str pill @ str '' '' @ str text))
       [Tag (str ''span'') [(str ''aria-hidden'', AStr (str ''true'')), (str ''className'', AStr (str ''inline-block h-1 w-1 shrink-0 rounded-full '' @ str dot)),
          (str ''data-status'', AStr (runtime_str status)), (str ''data-testid'', AStr (str ''status-dot''))] [],
        Txt (runtime_str status)])"

definition McpServerMetricRow_markup :: "(jstr \<Rightarrow> jstr option) \<Rightarrow> (McpServerSummary \<Rightarrow> 'h node) \<Rightarrow> McpServerSummary \<Rightarrow> 'h node" where
  "McpServerMetricRow_markup format menu server = TableRow (classed (str ''group border-0''))
     [McpMetricCell (Some ''rounded-l-3xl border-l px-4 py-4'')
        [Tag (str ''Link'') [(str ''className'', AStr (str ''block min-w-0 rounded-2xl focus:outline-none focus-visible:ring-2 focus-visible:ring-primary/30'')),
            (str ''to'', AStr (str ''/mcp/'' @ srv_id server))]
          [el ''p'' ''truncate text-sm font-semibold tracking-tight text-ink transition-colors group-hover:text-primary-deep'' [Txt (srv_name server)],
           el ''p'' ''mt-1 truncate text-2xs uppercase tracking-[0.14em] text-stone'' [Txt (transport_str (srv_transport server)), Txt (str '' server'')]]],
      McpMetricCell None [el ''div'' ''flex flex-col items-start justify-center gap-1''
        [Tag (str ''span'') (classed (str ''inline-flex h-6 items-center whitespace-nowrap rounded-full px-2.5 text-2xs font-semibold ''
             @ (if srv_enabled server then str ''bg-primary-soft text-primary-deep'' else str ''border border-hairline bg-canvas text-body''))) [Txt (enabled_label (srv_enabled server))],
         el ''span'' ''whitespace-nowrap text-2xs text-mute'' [Txt ([0x76EE, 0x6807] @ str '' ''), Txt (desired_str (srv_desired_state server))]]],
      McpMetricCell None [el ''div'' ''flex min-w-0 flex-col gap-1.5''
        [el ''div'' ''flex min-w-0 items-center gap-2''
           [el ''span'' ''inline-flex h-6 shrink-0 items-center rounded-full border border-hairline bg-canvas px-2.5 font-mono text-2xs text-ink'' [Txt (transport_str (srv_transport server))],
            el ''span'' ''truncate text-2xs text-mute'' [Txt (if srv_transport server = Http then str ''URL'' else str ''command''), Txt (str '':''), Txt (str '' ''),
              el ''span'' ''font-mono text-body'' [Txt (getCommandSummary server)]]],
         el ''span'' ''block truncate rounded-full bg-canvas px-3 py-1.5 font-mono text-xs text-ink'' [Txt (getConfigSummary server)]]],
      McpMetricCell None [Tag (str ''div'') [(str ''aria-label'', AStr (srv_name server @ (str '' '' @ [0x5DE5, 0x5177, 0x6570] @ str '' '') @ num_str (srv_tool_count server))),
          (str ''className'', AStr (str ''flex items-baseline justify-center gap-1''))]
        [el ''span'' ''font-mono text-sm font-semibold leading-none tracking-tight text-ink'' [Txt (num_str (srv_tool_count server))],
         el ''span'' ''text-2xs text-mute'' [Txt (if srv_tool_count server = 1 then str ''tool'' else str ''tools'')]]],
      McpMetricCell None [el ''div'' ''flex flex-col items-start justify-center gap-1.5''
        (McpStatusBadge_markup (srv_runtime_status server)
         # (case Option.bind (srv_last_error server) nonempty of
              Some e \<Rightarrow> [el ''span'' ''inline-flex max-w-full rounded-full bg-error-soft px-2 py-0.5 text-2xs text-error-deep'' [Txt [0x6700, 0x8FD1, 0x9519, 0x8BEF]]] | None \<Rightarrow> []))],
      McpMetricCell None [el ''span'' ''font-mono text-2xs text-body'' [Txt (formatLastChecked format (srv_last_checked_at server))]],
      McpMetricCell (Some ''rounded-r-3xl border-r text-center'') [menu server]]"

definition McpServerTable_markup ::
  "(jstr \<Rightarrow> jstr option) \<Rightarrow> 'h \<Rightarrow> (McpServerSummary \<Rightarrow> 'h node) \<Rightarrow> bool \<Rightarrow> js_error option \<Rightarrow> McpServerSummary list \<Rightarrow> 'h node" where
  "McpServerTable_markup format onCreateServer menu loading error servers = table_markup ''min-w-[1040px]'' mcp_headings
     (body_rows 7 [Txt ([0x6682, 0x65E0] @ str '' MCP '' @ [0x670D, 0x52A1, 0xFF0C, 0x70B9, 0x51FB]),
          Button [(str ''className'', AStr (str ''mx-1 h-auto px-1 py-0'')), (str ''onClick'', AFn onCreateServer), (str ''variant'', AStr (str ''ghost''))] [Txt (str ''+ '' @ [0x65B0, 0x589E] @ str '' Server'')],
          Txt [0x5F00, 0x59CB, 0x6DFB, 0x52A0, 0x3002]]
       (McpServerMetricRow_markup format menu) (table_body_of loading (getMcpErrorMessage error) servers))"

subsection \<open>Reading a table\<close>

fun attr_num :: "'h attr_value option \<Rightarrow> int option" where
  "attr_num (Some (ANum n)) = Some n"
| "attr_num _ = None"

definition columns :: "'h node \<Rightarrow> int" where
  \<comment> \<open>the columns a row spans\<close>
  "columns row = sum_list (map (\<lambda>c. orElse (attr_num (obj_get (str ''colSpan'') (tag_attrs c))) 1) (tag_children row))"

definition header_rows :: "'h node \<Rightarrow> 'h node list" where
  "header_rows t = tag_children (tag_children t ! 0)"

definition table_rows :: "'h node \<Rightarrow> 'h node list" where
  "table_rows t = tag_children (tag_children t ! 1)"

definition row_texts :: "'h node \<Rightarrow> jstr list" where
  "row_texts row = map node_texts (tag_children row)"

definition view_texts :: "jstr \<Rightarrow> ('r \<Rightarrow> jstr list) \<Rightarrow> 'r table_body \<Rightarrow> jstr list list" where
  \<comment> \<open>the texts a view promises\<close>
  "view_texts none f b = (case b of
     Body_Loading \<Rightarrow> [[[0x52A0, 0x8F7D, 0x4E2D, 0x2026]]] | Body_Error m \<Rightarrow> [[m]] | Body_Empty \<Rightarrow> [[none]] | Body_Rows rs \<Rightarrow> map f rs)"

definition provider_texts :: "provider_row \<Rightarrow> jstr list" where
  "provider_texts r = [pr_name r @ pr_id r, pr_type r, pr_base_url r, pr_key_label r, pr_enabled_label r]"

definition agent_texts :: "agent_row \<Rightarrow> jstr list" where
  "agent_texts r = [rw_name r @ rw_id r @ orElse (rw_description r) [], rw_enabled_label r, rw_model r,
     rw_provider r @ (if rw_provider_disabled r then (str ''Provider '' @ [0x5DF2, 0x505C, 0x7528]) else []), rw_draft_label r, rw_updated r, [0x7F16, 0x8F91]]"

definition mcp_texts :: "mcp_row \<Rightarrow> jstr list" where
  \<comment> \<open>without the cell of the menu\<close>
  "mcp_texts r = [row_name r @ transport_str (row_transport r) @ str '' server'', row_enabled_label r @ ([0x76EE, 0x6807] @ str '' '') @ desired_str (row_desired r),
     transport_str (row_transport r) @ row_endpoint_label r @ str '':'' @ str '' '' @ row_command r @ row_config r,
     num_str (row_tool_count r) @ row_tool_unit r, runtime_str (row_status r) @ (if row_has_error r then [0x6700, 0x8FD1, 0x9519, 0x8BEF] else []), row_last_checked r]"

lemma table_parts [simp]:
  "header_rows (table_markup w hs rows) = [TableRow (classed (str ''border-0'')) hs]"
  "table_rows (table_markup w hs rows) = rows"
  by (simp_all add: table_markup_def header_rows_def table_rows_def Table_def TableHeader_def TableBody_def)

lemmas row_defs = message_row_def loading_row_def error_row_def empty_row_def TableRow_def TableCell_def

lemma plain_cell_span [simp]:
  "obj_get (str ''colSpan'') (tag_attrs (MetricCell c ch)) = None"
  "obj_get (str ''colSpan'') (tag_attrs (McpMetricCell c ch)) = None"
  "obj_get (str ''colSpan'') (tag_attrs (heading w l)) = None"
  by (simp_all add: MetricCell_def McpMetricCell_def heading_def TableCell_def TableHead_def classed_tag_attr classed_def)

lemma message_columns [simp]:
  assumes "str ''colSpan'' \<notin> fst ` set role"
  shows "columns (message_row cls role n ch) = n"
proof -
  have "map_of (rev role) (str ''colSpan'') = None" using assms by (simp add: map_of_eq_None_iff)
  then show ?thesis by (simp add: columns_def message_row_def TableRow_def TableCell_def classed_tag_attr map_add_def)
qed

lemma cell_texts [simp]:
  "node_texts (MetricCell c ch) = concat (map node_texts ch)"
  "node_texts (McpMetricCell c ch) = concat (map node_texts ch)"
  "node_texts (el t cls ch) = concat (map node_texts ch)"
  by (simp_all add: MetricCell_def McpMetricCell_def TableCell_def el_def)

lemma body_texts:
  assumes "concat (map node_texts none) = t" "\<And>x. row_texts (row x) = f (g x)"
  shows "map row_texts (body_rows n none row b) = view_texts t f (map_table_body g b)"
  using assms by (cases b) (auto simp: body_rows_def view_texts_def row_texts_def row_defs)

lemma body_columns:
  assumes "\<And>x. columns (row x) = n" "r \<in> set (body_rows n none row b)"
  shows "columns r = n"
  using assms by (cases b) (auto simp: body_rows_def loading_row_def error_row_def empty_row_def)

lemma provider_row_shown:
  "row_texts (provider_row_markup p :: 'h node) = provider_texts (provider_row_of p)" "columns (provider_row_markup p :: 'h node) = 5"
  by (simp_all add: provider_row_markup_def row_texts_def columns_def TableRow_def provider_texts_def provider_row_of_def enabled_label_def)

lemma agent_row_shown:
  "row_texts (AgentRow_markup format providers a :: 'h node) = agent_texts (AgentRow format providers a)"
  "columns (AgentRow_markup format providers a :: 'h node) = 7"
  by (simp_all add: AgentRow_markup_def AgentRow_def Let_def row_texts_def columns_def TableRow_def agent_texts_def enabled_label_def
      unpublished_def split: option.split)

lemma badge_texts [simp]: "node_texts (McpStatusBadge_markup st) = runtime_str st"
  by (simp add: McpStatusBadge_markup_def split: prod.split)

lemma mcp_row_shown:
  "row_texts (McpServerMetricRow_markup format menu srv :: 'h node) = mcp_texts (McpServerMetricRow format srv) @ [node_texts (menu srv)]"
  "columns (McpServerMetricRow_markup format menu srv :: 'h node) = 7"
  by (simp_all add: McpServerMetricRow_markup_def McpServerMetricRow_def row_texts_def columns_def TableRow_def mcp_texts_def
      enabled_label_def nonempty_def split: option.split)



end
