(* ===== verification/PageParts.thy ===== *)
theory PageParts
  imports Markup
begin

text \<open>
  The small parts of the pages: alerts and notices, labelled rows, the notes beside the forms, the
  parts of a conversation, the frame of an observed check and the markdown view. A message that
  reports a failure has the role \<open>alert\<close>, one that reports progress or success the role
  \<open>status\<close>. The markdown library is an argument.
\<close>

definition cel :: "string \<Rightarrow> string \<Rightarrow> 'h node list \<Rightarrow> 'h node" where
  "cel t cls ch = Tag (str t) (classed (str cls)) ch"

definition role_text :: "string \<Rightarrow> string \<Rightarrow> jstr \<Rightarrow> 'h node" where
  "role_text cls role message = Tag (str ''p'') [(str ''className'', AStr (str cls)), (str ''role'', AStr (str role))] [Txt message]"

subsection \<open>Alerts, notices and rows\<close>

definition ErrorAlert :: "jstr \<Rightarrow> 'h node" where
  "ErrorAlert message = role_text ''rounded-xl border border-error-soft bg-canvas px-3 py-2 text-xs text-error-deep'' ''alert'' message"

definition ProviderErrorAlert :: "jstr \<Rightarrow> 'h node" where
  "ProviderErrorAlert message = role_text ''rounded-xl border border-error-soft bg-canvas px-3 py-2 text-xs text-error-deep'' ''alert'' message"

definition DetailErrorAlert :: "jstr \<Rightarrow> 'h node" where
  "DetailErrorAlert message = role_text ''mb-3 rounded-xl border border-error-soft bg-canvas px-3 py-2 text-xs text-error-deep'' ''alert'' message"

definition ProviderDetailErrorAlert :: "jstr \<Rightarrow> 'h node" where
  "ProviderDetailErrorAlert message = role_text ''mb-3 rounded-xl border border-error-soft bg-canvas px-3 py-2 text-xs text-error-deep'' ''alert'' message"

definition SuccessNotice :: "jstr \<Rightarrow> 'h node" where
  "SuccessNotice message = role_text ''mb-3 rounded-xl border border-success/20 bg-success/10 px-3 py-2 text-xs text-success'' ''status'' message"

definition ProviderSuccessNotice :: "jstr \<Rightarrow> 'h node" where
  "ProviderSuccessNotice message = role_text ''mb-3 rounded-xl border border-success/20 bg-success/10 px-3 py-2 text-xs text-success'' ''status'' message"

definition LoadingState :: "jstr \<Rightarrow> 'h node" where
  "LoadingState label = cel ''p'' ''text-xs text-mute'' [Txt label]"

definition NotFoundState :: "'h node" where
  "NotFoundState = cel ''div'' ''rounded-xl border border-hairline bg-canvas px-4 py-12 text-center text-xs text-mute'' [Txt (str ''MCP '' @ [0x670D, 0x52A1, 0x4E0D, 0x5B58, 0x5728])]"

definition DetailNotFoundState :: "'h \<Rightarrow> 'h node" where
  "DetailNotFoundState onBack = cel ''div'' ''flex flex-col items-center justify-center gap-3 rounded-xl border border-hairline bg-canvas py-12 text-center''
     [cel ''p'' ''text-xs text-mute'' [Txt (str ''MCP '' @ [0x670D, 0x52A1, 0x4E0D, 0x5B58, 0x5728])],
      Button [(str ''onClick'', AFn onBack), (str ''variant'', AStr (str ''secondary''))] [Txt [0x8FD4, 0x56DE, 0x5217, 0x8868]]]"

definition labelled_row :: "string \<Rightarrow> jstr \<Rightarrow> 'h node list \<Rightarrow> 'h node" where
  "labelled_row sz label value = cel ''div'' ''flex items-start justify-between gap-3''
     [cel ''dt'' ''text-mute'' [Txt label], Tag (str ''dd'') (classed (str ''min-w-0 break-all text-right font-mono '' @ str sz @ str '' text-ink'')) value]"

definition SideRow :: "jstr \<Rightarrow> 'h node list \<Rightarrow> 'h node" where
  "SideRow label value = labelled_row ''text-2xs'' label value"

definition InfoRow :: "jstr \<Rightarrow> 'h node list \<Rightarrow> 'h node" where
  "InfoRow label value = labelled_row ''text-2xs'' label value"

definition ProviderInfoRow :: "jstr \<Rightarrow> jstr \<Rightarrow> 'h node" where
  "ProviderInfoRow label value = labelled_row ''text-xs'' label [Txt value]"

definition MetricTile :: "jstr \<Rightarrow> jstr \<Rightarrow> 'h node" where
  "MetricTile label value = cel ''div'' ''rounded-2xl bg-canvas px-3 py-2 ring-1 ring-primary/10''
     [cel ''p'' ''font-mono text-2xs uppercase tracking-[0.14em] text-mute'' [Txt label],
      cel ''p'' ''mt-1 truncate font-mono text-xs font-semibold text-ink'' [Txt value]]"

subsection \<open>Beside the forms\<close>

definition FormGrid :: "'h node list \<Rightarrow> 'h node list \<Rightarrow> 'h node" where
  "FormGrid ch beside = cel ''div'' ''grid max-w-7xl gap-5 xl:grid-cols-[minmax(0,1fr)_320px]''
     [cel ''div'' ''min-w-0 space-y-4'' ch,
      Tag (str ''aside'') [(str ''aria-label'', AStr [0x914D, 0x7F6E, 0x6458, 0x8981]), (str ''className'', AStr (str ''space-y-3 xl:sticky xl:top-4 xl:self-start''))] beside]"

definition note_line :: "nat \<Rightarrow> jstr \<Rightarrow> 'h node" where
  "note_line index line = cel ''li'' ''flex gap-3''
     [cel ''span'' ''flex h-6 w-6 shrink-0 items-center justify-center rounded-full bg-primary text-2xs font-semibold text-on-primary'' [Txt (num_str (int index + 1))],
      cel ''p'' ''pt-0.5 text-xs leading-relaxed text-body'' [Txt line]]"

definition side_note :: "string \<Rightarrow> jstr \<Rightarrow> jstr list \<Rightarrow> 'h node" where
  "side_note kind title lines = cel ''div'' ''overflow-hidden rounded-3xl border border-primary/10 bg-canvas/90 shadow-[0_18px_45px_rgba(0,100,224,0.07)]''
     [cel ''div'' ''border-b border-primary/10 bg-primary-soft/60 px-4 py-3''
        [cel ''p'' ''font-mono text-2xs uppercase tracking-[0.18em] text-primary-deep'' [Txt (str kind)],
         cel ''h2'' ''mt-1 text-sm font-semibold text-ink'' [Txt [0x914D, 0x7F6E, 0x6458, 0x8981]],
         cel ''p'' ''mt-1 text-xs leading-relaxed text-body'' [Txt title]],
      cel ''ol'' ''space-y-3 p-4'' (map (\<lambda>(index, line). note_line index line) (enumerate 0 lines))]"

definition FormSideNote :: "jstr \<Rightarrow> jstr list \<Rightarrow> 'h node" where
  "FormSideNote title lines = side_note ''Config Summary'' title lines"

definition ProviderNote :: "jstr \<Rightarrow> jstr list \<Rightarrow> 'h node" where
  "ProviderNote title lines = side_note ''Provider Policy'' title lines"

definition mcp_create_note :: "'h node" where
  "mcp_create_note = FormSideNote [0x4FDD, 0x5B58, 0x7B56, 0x7565] [([0x9ED8, 0x8BA4, 0x521B, 0x5EFA, 0x4E3A] @ str '' stopped'' @ [0xFF0C, 0x907F, 0x514D, 0x4FDD, 0x5B58, 0x540E, 0x7ACB, 0x523B, 0x62C9, 0x8D77, 0x672A, 0x77E5, 0x8FDB, 0x7A0B, 0x3002]),
     (str ''stdio '' @ [0x9700, 0x8981] @ str '' command'' @ [0xFF1B] @ str ''http '' @ [0x9700, 0x8981, 0x5B8C, 0x6574] @ str '' http/https url'' @ [0x3002]), (str ''env '' @ [0x548C] @ str '' headers '' @ [0x4F7F, 0x7528] @ str '' KEY=VALUE'' @ [0xFF0C, 0x6BCF, 0x884C, 0x4E00, 0x6761, 0x3002])]"

definition provider_create_note :: "'h node" where
  "provider_create_note = ProviderNote [0x4FDD, 0x5B58, 0x7B56, 0x7565] [(str ''API Key '' @ [0x53EA, 0x5199, 0x4E0D, 0x8BFB, 0xFF0C, 0x4FDD, 0x5B58, 0x540E, 0x53EA, 0x663E, 0x793A, 0x662F, 0x5426, 0x5DF2, 0x914D, 0x7F6E, 0x3002]),
     (str ''Headers '' @ [0x548C] @ str '' Query '' @ [0x4F7F, 0x7528] @ str '' KEY=VALUE'' @ [0xFF0C, 0x6BCF, 0x884C, 0x4E00, 0x6761, 0x3002]), (str ''CodeAgent '' @ [0x4E0D, 0x5728, 0x8FD9, 0x91CC, 0x914D, 0x7F6E, 0xFF0C, 0x7EE7, 0x7EED, 0x4F7F, 0x7528] @ str '' codeagent:<model>'' @ [0x3002])]"

subsection \<open>The conversation\<close>

definition StreamMarkdown :: "(bool \<Rightarrow> jstr \<Rightarrow> 'h node) \<Rightarrow> jstr \<Rightarrow> bool option \<Rightarrow> 'h node" where
  \<comment> \<open>the first argument of the library is \<open>isAnimating\<close>\<close>
  "StreamMarkdown streamdown ch isStreaming =
     Tag (str ''div'') [(str ''data-testid'', AStr (str ''stream-markdown''))] [streamdown (orElse isStreaming False) ch]"

definition ThinkingBlock :: "jstr \<Rightarrow> 'h node" where
  "ThinkingBlock t = cel ''div'' ''mb-2 border-l-2 border-primary/30 pl-3 text-xs text-mute''
     [cel ''div'' ''font-medium text-body'' [Txt [0x601D, 0x8003]], cel ''p'' ''mt-1 whitespace-pre-wrap'' [Txt t]]"

definition TypingIndicator :: "'h node" where
  "TypingIndicator = Tag (str ''span'') [(str ''aria-label'', AStr (str ''streaming'')), (str ''className'', AStr (str ''inline-flex items-center gap-1 text-mute''))]
     [cel ''span'' ''h-1.5 w-1.5 animate-pulse rounded-full bg-primary/70'' [],
      cel ''span'' ''h-1.5 w-1.5 animate-pulse rounded-full bg-primary/70 [animation-delay:120ms]'' [],
      cel ''span'' ''h-1.5 w-1.5 animate-pulse rounded-full bg-primary/70 [animation-delay:240ms]'' []]"

definition AssistantPlaceholder :: "'h node" where
  "AssistantPlaceholder = Tag (str ''article'') [(str ''aria-label'', AStr (str ''Assistant turn pending'')), (str ''className'', AStr (str ''mr-auto flex w-full max-w-full flex-col gap-1''))]
     [cel ''header'' ''flex items-center gap-2 text-xs text-mute'' [cel ''span'' ''font-mono'' [Txt [0x52A9, 0x624B]]], TypingIndicator]"

definition AssistantError :: "jstr \<Rightarrow> 'h node" where
  "AssistantError message = Tag (str ''article'') [(str ''aria-label'', AStr (str ''Assistant turn error'')), (str ''className'', AStr (str ''mr-auto flex w-full max-w-full flex-col gap-1'')),
       (str ''role'', AStr (str ''alert''))]
     [cel ''header'' ''flex items-center gap-2 text-xs text-error-deep'' [cel ''span'' ''font-mono'' [Txt [0x8D28, 0x68C0, 0x5931, 0x8D25]]],
      cel ''p'' ''m-0 text-sm text-error-deep'' [Txt message]]"

definition CheckCanvas :: "'h node \<Rightarrow> jstr option \<Rightarrow> jstr option \<Rightarrow> 'h node" where
  \<comment> \<open>the observer of the check comes last\<close>
  "CheckCanvas observer startError startMessage = cel ''div'' ''min-h-0 flex-1 overflow-y-auto px-4 py-6''
     [cel ''div'' ''mx-auto flex w-full max-w-3xl flex-col gap-4''
        ((case Option.bind startError nonempty of
            Some e \<Rightarrow> [role_text ''rounded-xl border border-error-soft bg-canvas px-4 py-2 text-sm text-error-deep'' ''alert'' e] | None \<Rightarrow> [])
         @ (case Option.bind startMessage nonempty of
            Some m \<Rightarrow> [role_text ''rounded-xl border border-hairline bg-canvas px-4 py-2 text-sm text-primary-deep'' ''status'' m] | None \<Rightarrow> [])
         @ [observer])]"

subsection \<open>What the parts show\<close>

fun with_role :: "string \<Rightarrow> 'h node \<Rightarrow> jstr list" where
  \<comment> \<open>the texts of the outermost elements with a role\<close>
  "with_role r (Txt s) = []"
| "with_role r (Tag t as ch) = (if pstr ''role'' as = Some (str r) then [concat (map node_texts ch)] else concat (map (with_role r) ch))"

lemma role_attr [simp]:
  "with_role r (cel t cls ch) = concat (map (with_role r) ch)"
  "with_role r (role_text cls q m) = (if q = r then [m] else [])"
  by (simp_all add: cel_def role_text_def classed_def pstr_def obj_get_def)

lemma cel_texts [simp]: "node_texts (cel t cls ch) = concat (map node_texts ch)" "tag_children (cel t cls ch) = ch"
  by (simp_all add: cel_def)

text \<open>Failures are announced as alerts and successes as status messages, by their text, and an
  observed check announces its start error and its start message exactly when they are not empty.\<close>
lemma messages_are_announced:
  "with_role ''alert'' (ErrorAlert m :: 'h node) = [m] \<and> with_role ''alert'' (DetailErrorAlert m :: 'h node) = [m]"
  "with_role ''status'' (SuccessNotice m :: 'h node) = [m] \<and> with_role ''alert'' (SuccessNotice m :: 'h node) = []"
  "with_role ''alert'' (AssistantError m :: 'h node) = [[0x8D28, 0x68C0, 0x5931, 0x8D25] @ m]"
  "with_role ''alert'' (CheckCanvas n e s :: 'h node) = (case Option.bind e nonempty of Some t \<Rightarrow> [t] | None \<Rightarrow> []) @ with_role ''alert'' n"
  "with_role ''status'' (CheckCanvas n e s :: 'h node) = (case Option.bind s nonempty of Some t \<Rightarrow> [t] | None \<Rightarrow> []) @ with_role ''status'' n"
  by (auto simp: ErrorAlert_def DetailErrorAlert_def SuccessNotice_def AssistantError_def CheckCanvas_def pstr_def obj_get_def
      split: option.split)

text \<open>The lines of a note beside a form are numbered from one, in order.\<close>
lemma notes_are_numbered:
  "map (\<lambda>l. map node_texts (tag_children l)) (tag_children (tag_children (side_note kind title lines :: 'h node) ! 1))
     = map (\<lambda>i. [num_str (int i + 1), lines ! i]) [0..<length lines]"
  by (rule nth_equalityI) (simp_all add: side_note_def note_line_def nth_enumerate_eq)

end
