(* ===== verification/Spec2Isabelle.thy ===== *)
theory Spec2Isabelle
  imports SessionDelivery CheckDelivery SequencedViews Observer KeyValue WireEvents Workspace SavePages ListPages
    Rendering TableMarkup PageParts
begin

text \<open>
  A verification development for the frontend of the change-quality agent: the TypeScript code of
  \<open>frontend/src\<close>, a React application in which a user runs quality checks of standard operating
  procedures (SOPs) and watches their output arrive, and in which an administrator maintains the
  agents, LLM providers and MCP servers the checks use. Paths below are relative to \<open>frontend/src\<close>.

  \<^bold>\<open>How the program is put together.\<close> All requests go through \<open>lib/apiClient.ts\<close>, called by the
  \<open>api.ts\<close> file of each feature. Hooks own what is fetched: list and detail hooks, mutation hooks, and
  two stream hooks that hydrate a state over HTTP, open an event source at a cursor, reduce every
  event, and reconnect or close on errors and terminal events. Pages and components hold local state
  and show what the hooks return. The authentication provider decides which pages exist at all.

  \<^bold>\<open>How code becomes a definition.\<close> A pure function is a HOL function of the same name. A hook or
  component is a record of its state cells, refs and the bindings of its live effect closure; every
  callback, effect and handler is a function on that record. The order in which React, timers and the
  network call them is left open: an \<^emph>\<open>inductive\<close> step relation allows every order, and the properties
  are invariants of the reachable states. An awaited call is split at the await; the response is an
  argument of the continuation. A \<open>throw\<close> is \<^term>\<open>Inl\<close> of a result. Objects used as dictionaries are
  \<open>js_obj\<close> association lists in JavaScript's property order, strings are lists of 16-bit code units,
  sequence numbers and identifiers are integers (the code computes with numbers below $2^{53}$). What
  is shown is a record or datatype of the texts, states and handlers that depend on the state.

  \<^bold>\<open>The theories\<close>, from the bottom up:
  \<^item> \<open>Prelude\<close>: JavaScript strings, trimming, splitting, joining, number printing, objects with
    prototype members, JSON values, and the lemmas on them.
  \<^item> \<open>ApiClient\<close>: \<open>lib/apiClient.ts\<close>, \<open>lib/cn.ts\<close>. The request that is sent and the result for every
    outcome of \<open>fetch\<close>; \<open>Api\<close>: every call of the \<open>api.ts\<close> files; \<open>DataTypes\<close>: the \<open>types.ts\<close> files.
    Shown: what each outcome settles to, and that distinct identifiers reach distinct URLs.
  \<^item> \<open>Sessions\<close>: \<open>features/sessions/types.ts\<close> and \<open>reducer.ts\<close>; \<open>SessionStream\<close>: its \<open>hooks.ts\<close>.
    Shown: the transcript is sorted, duplicate-free and of one session; a replay is absorbed; live
    text is the concatenation of its deltas; the cursor is the largest number shown and every source
    is opened at it; a finished session stays as it is.
  \<^item> \<open>SessionDelivery\<close>: the hook composed with the server of \<open>docs/streaming.md\<close>, an append-only log
    and event sources that can be cut off anywhere. Shown: the transcript is a prefix of the log, and
    all of it once the open source is drained.
  \<^item> \<open>SopChecks\<close>: \<open>features/sop-quality-checks/types.ts\<close> and \<open>reducer.ts\<close>; \<open>SopCheckStream\<close>: its
    \<open>hooks.ts\<close>; \<open>Observer\<close>: \<open>components/SopQualityCheckObserver.tsx\<close>. Shown: the history of a check
    in its nodes, the exact projection of a session onto nodes, when the projection throws, the
    order and content of the turns on the screen, the closure of streams and requests of the hook.
  \<^item> \<open>CheckDelivery\<close>: the check hook composed with its server, an append-only log of events per check
    whose sources replay from a cursor, can be cut off anywhere and may repeat what they sent. Shown:
    since the last snapshot the hook has received a prefix of the log, without gaps and in order; the
    view is the reducer's result on snapshot and events; and the open source can always be drained.
  \<^item> \<open>WireEvents\<close>: the texts of server-sent events, read as the events of the two stream hooks. Shown: what
    the parsers accept, that every event of the declared type is handled as that event, and when a
    delta that passed the parser makes the reducer throw.
  \<^item> \<open>SequencedViews\<close>: the laws the two reducers share, as the locale \<open>sequenced_view\<close>, interpreted on
    both.
  \<^item> \<open>AsyncHooks\<close>: the nine data-fetching hooks, interpretations of the locale \<open>async_hook\<close>: the
    answer to the latest request wins, loading is exact, no data of another key is shown.
  \<^item> \<open>Mutations\<close>: the three mutation hooks, interpretations of \<open>mutation_hook\<close>: the pending count is the
    number of runs in flight under every interleaving, and the outcome of each run.
  \<^item> \<open>KeyValue\<close>: the text formats of the forms, interpretations of \<open>text_format\<close> (printing, then
    parsing, is the identity); \<open>McpForm\<close>, \<open>LlmForm\<close>, \<open>AgentForm\<close>: the three forms. Shown: when a form
    submits and what, that an unchanged edit submits what was loaded, that a redacted secret is never
    overwritten by its placeholder, that default effects settle.
  \<^item> \<open>FormViews\<close>: what the three forms show. Shown: a refused submission is explained on the screen and
    keeps what was entered; the agent form submits what its selectors show.
  \<^item> \<open>Auth\<close>: \<open>features/auth\<close>, a refinement of a machine in which only the latest call counts;
    \<open>Routing\<close>: \<open>app\<close> and its route table, access rules and frame. Shown: a management page is shown
    to administrators only.
  \<^item> \<open>McpMenu\<close>, \<open>McpPages\<close>: the row actions menu (placement, focus, keys) and the pages of MCP
    servers; \<open>CatalogPages\<close>: the pages of providers and agents; \<open>Chat\<close>: the page that starts a check
    and shows it.
  \<^item> \<open>EditPages\<close>: headers, breadcrumbs, summaries and the create and edit pages, which join a form with
    the hooks it saves through, for MCP servers; \<open>SavePages\<close>: those of providers and agents, and what
    all six saving pages share, as the locale \<open>save_page\<close>, an extension of \<open>mutation_hook\<close>. Shown: every
    outcome of a save, from the click to the notice, and that a page saves once at a time.
  \<^item> \<open>ListPages\<close>: the list pages with their toolbars, filters and refreshes. Shown: when a refresh can be
    asked for, and what the table shows until and after its answers, in every order.
  \<^item> \<open>Workspace\<close>: \<open>WorkspaceFrame\<close> with the sidebar, the panel of recent checks and the chat page, under
    every order of clicks, links and answers. Shown: what is mounted and registered when, that a new
    conversation starts afresh from anywhere, that a started check is shown everywhere.
  \<^item> \<open>Markup\<close>: elements and the primitives of \<open>components/ui\<close>; \<open>Rendering\<close>: the page layouts and the
    sidebar as markup; \<open>TableMarkup\<close>: the three list tables; \<open>PageParts\<close>: alerts, notices, notes and
    the parts of a conversation. Shown: the views of the other theories can be read back from the
    markup, every row of a table spans its columns, a button submits a form only when it is told to.
  \<^item> This theory: the composition of server, session hook, check hook, projection and observer.

  \<^bold>\<open>Parameters and hypotheses.\<close> \<open>localeCompare\<close> is an argument with no law assumed of it; \<open>fetch\<close>,
  \<open>JSON.parse\<close>, the DOM measurements of the menu and the router are arguments
  too; \<open>router_ok\<close> states what is relied on of the router. That steps are not named like a member of \<open>Object.prototype\<close> is an explicit hypothesis where
  it is needed: without it the code throws, which is proved as well. The server of \<open>SessionDelivery\<close>
  numbers the messages of a session upwards and sends, to a source opened after \<open>n\<close>, those above \<open>n\<close>.
  That of \<open>CheckDelivery\<close> does the same for events, with their numbers as event ids, and may repeat
  an event that lies behind the source; nothing is assumed of the snapshots it answers with.

  \<^bold>\<open>Termination.\<close> Every loop of the code runs over a finite list, so its recursion is structural and
  needs no fuel. The only iteration that could go on is the re-running of effects; for the agent form
  it is proved to settle after one round. Menu coordinates are exact numbers of
  pixels, and no division is involved.

  \<^bold>\<open>Not modelled.\<close> The markup of the forms and of the cards of the detail pages (what they show is, in
  \<open>FormViews\<close> and \<open>EditPages\<close>); the Markdown and dialog libraries; when the observer scrolls. What
  the session reducer does with a message, as opposed to a delta, whose fields are not of their
  declared types. The Python backend, apart from the streams the frontend relies on. The mount of the
  application in \<open>main.tsx\<close> and the constructor call in \<open>lib/sse.ts\<close> have no behaviour of their own.
\<close>

section \<open>From the server's log to the screen\<close>

lemma same_shown_steps:
  assumes "map shown ms = map shown slog"
  shows "steps_of ms = steps_of slog" "chunks_of k ms = chunks_of k slog"
proof -
  have step: "step_of m = Option.bind (readString (obj_get (str ''step'') (snd (snd (snd (shown m)))))) nonempty" for m
    by (simp add: step_of_def shown_def)
  have steps: "steps_of xs = {k. \<exists>x \<in> set (map shown xs). Option.bind (readString (obj_get (str ''step'') (snd (snd (snd x))))) nonempty = Some k}" for xs
    by (simp add: steps_of_def step)
  show "steps_of ms = steps_of slog" unfolding steps assms ..
  have chunks: "chunks_of k xs = map (\<lambda>x. fst (snd (snd x))) (filter (\<lambda>x. Option.bind (readString (obj_get (str ''step'') (snd (snd (snd x))))) nonempty = Some k) (map shown xs))" for xs
    by (simp add: chunks_of_def step filter_map comp_def) (simp add: shown_def)
  show "chunks_of k ms = chunks_of k slog" unfolding chunks assms ..
qed

lemma default_registered: "set DEFAULT_REGISTERED_NODE_IDS \<inter> set object_prototype_keys = {}" "distinct DEFAULT_REGISTERED_NODE_IDS"
  by (simp_all add: DEFAULT_REGISTERED_NODE_IDS_def object_prototype_keys_def)

lemma session_check_runs: "check_session h = Some i \<Longrightarrow> \<exists>d. visibleDetail h = Some d \<and> check_running (visibleDetail h)"
  by (auto simp: check_session_def check_running_def split: option.splits if_splits)

definition settled_turn :: "SessionMessage list \<Rightarrow> turn \<Rightarrow> bool" where
  \<comment> \<open>a finished step: done, with the texts of its messages in the log\<close>
  "settled_turn slog t \<longleftrightarrow> (let text = join [10] (chunks_of (tn_node t) slog) in
     tn_chip t = NodeStatusChip Node_Done False \<and> tn_body t = (if trim text \<noteq> [] then Body_Markdown text False else Body_No_Output))"

lemma settled_turn_of:
  assumes "t = AssistantTurn k n False" "node_status n = Node_Done" "streamText n = join [10] (chunks_of k slog)"
  shows "settled_turn slog t"
  using assms by (simp add: settled_turn_def AssistantTurn_def Let_def)

lemma observer_of_session:
  assumes "check_session h = Some i" "visibleError h = None" "steps_of (messages st) \<inter> set object_prototype_keys = {}"
  shows "\<exists>v. SopQualityCheckObserver lc DEFAULT_REGISTERED_NODE_IDS h st = Obs_View v
    \<and> distinct (map tn_node (ov_turns v)) \<and> steps_of (messages st) \<subseteq> set (map tn_node (ov_turns v))
    \<and> (\<exists>l. \<forall>t \<in> set (ov_turns v). tn_node t = l \<or> settled_turn (messages st) t)"
proof -
  obtain d where d: "visibleDetail h = Some d" "check_running (visibleDetail h)" using session_check_runs [OF assms(1)] by blast
  obtain p where p: "projectSessionStateToSopView st True = Inr p" "obj_ok (p_nodes p)"
      "set (obj_keys (p_nodes p)) = steps_of (messages st) \<union> live_step_names st True"
    and each: "\<And>k n. obj_get k (p_nodes p) = Some n \<Longrightarrow>
         node_status n = Node_Running \<or> node_status n = Node_Done \<and> streamText n = join [10] (chunks_of k (messages st))"
    and one: "\<exists>l. \<forall>k n. obj_get k (p_nodes p) = Some n \<and> node_status n = Node_Running \<longrightarrow> k = l"
    using projected_nodes [OF assms(3), of True] by blast
  obtain l where l: "\<And>k n. obj_get k (p_nodes p) = Some n \<Longrightarrow> node_status n = Node_Running \<Longrightarrow> k = l" using one by blast
  define s where "s = (c_state h)\<lparr>v_latestSequence := max (v_latestSequence (c_state h)) (p_latestSequence p),
      nodes := p_nodes p, isRunning := True, v_connectionStatus := connectionStatus st\<rparr>"
  have s: "effectiveState h st = Inr s" "nodes s = p_nodes p" using assms(1) d p(1) by (simp_all add: effectiveState_def s_def Let_def)
  let ?v = "SopQualityCheckObserverView lc DEFAULT_REGISTERED_NODE_IDS d s"
  have obs: "SopQualityCheckObserver lc DEFAULT_REGISTERED_NODE_IDS h st = Obs_View ?v"
    using s(1) d(1) assms(2) by (simp add: SopQualityCheckObserver_def)
  note turns = turns_are_nodes [OF default_registered(1), of lc d s]
  have ids: "map tn_node (ov_turns ?v) = getOrderedNodeIds lc s DEFAULT_REGISTERED_NODE_IDS"
    by (simp add: turns AssistantTurn_def comp_def)
  have "tn_node t = l \<or> settled_turn (messages st) t" if "t \<in> set (ov_turns ?v)" for t
  proof -
    have "tn_node t \<in> set (obj_keys (p_nodes p))"
      using that ids ordered_ids_set [OF default_registered(1), of lc s] s(2) by (metis image_eqI list.set_map)
    then obtain n where n: "obj_get (tn_node t) (nodes s) = Some n" using s(2) by (metis obj_get_None_iff option.exhaust)
    then have "t = AssistantTurn (tn_node t) n (isRunning s \<and> node_status n = Node_Running)"
      using that unfolding turns set_map by (auto simp: AssistantTurn_def)
    moreover from n s(2) each l have "tn_node t = l \<or> node_status n = Node_Done \<and> streamText n = join [10] (chunks_of (tn_node t) (messages st))" by metis
    ultimately show ?thesis by (auto simp: settled_turn_of)
  qed
  moreover have "distinct (map tn_node (ov_turns ?v))" "steps_of (messages st) \<subseteq> set (map tn_node (ov_turns ?v))"
    unfolding ids using ordered_ids_set [OF default_registered(1), of lc s] ordered_ids_distinct [OF default_registered, of s lc] s(2) p(2,3) by auto
  ultimately show ?thesis using obs by blast
qed

text \<open>C4. From the server's log to the screen. While a check runs in a session, once the open
  event source has delivered what the server has for it, whatever connections were lost before,
  the observer shows every step of the session's log as exactly one turn; and with the exception of
  at most one, the step in progress, every turn is shown as done and shows, unaltered and in the
  order of the log, the texts the server logged for that step.\<close>
theorem observer_shows_server_log:
  assumes "system_reachable S" "h_stream (s_hook S) = Some c" "sc_source c = Some n" "s_sent S n = length (stream_of S n)"
    and "check_session h = Some (sc_session c)" "visibleError h = None"
    and "steps_of (s_log S (sc_session c)) \<inter> set object_prototype_keys = {}"
  shows "\<exists>v. SopQualityCheckObserver lc DEFAULT_REGISTERED_NODE_IDS h (h_state (s_hook S)) = Obs_View v
    \<and> distinct (map tn_node (ov_turns v)) \<and> steps_of (s_log S (sc_session c)) \<subseteq> set (map tn_node (ov_turns v))
    \<and> (\<exists>l. \<forall>t \<in> set (ov_turns v). tn_node t = l \<or> settled_turn (s_log S (sc_session c)) t)"
proof -
  note same = same_shown_steps [OF drained_transcript [OF assms(1-4)]]
  have "settled_turn (messages (h_state (s_hook S))) = settled_turn (s_log S (sc_session c))"
    by (simp add: fun_eq_iff settled_turn_def same(2))
  then show ?thesis
    using observer_of_session [OF assms(5,6), of "h_state (s_hook S)" lc] assms(7) by (simp add: same(1))
qed

theorem observer_shows_server_log_witness:
  "\<exists>v. SopQualityCheckObserver (\<lambda>_ _. 0) DEFAULT_REGISTERED_NODE_IDS
        (detail_response 1 (str ''c1'') (Inr (demo_detail Check_Running 3\<lparr>check_session_id := Some 7\<rparr>)) (check_mount (str ''c1'')))
        (h_state (s_hook demo_system)) = Obs_View v
     \<and> distinct (map tn_node (ov_turns v)) \<and> {str ''a'', str ''b''} \<subseteq> set (map tn_node (ov_turns v))"
proof -
  let ?c = "\<lparr>sc_session = 7, sc_source = Some 1, sc_timer = False\<rparr>"
  let ?h = "detail_response 1 (str ''c1'') (Inr (demo_detail Check_Running 3\<lparr>check_session_id := Some 7\<rparr>)) (check_mount (str ''c1''))"
  have sys: "h_stream (s_hook demo_system) = Some ?c" "sc_source ?c = Some 1" "s_sent demo_system 1 = length (stream_of demo_system 1)"
    by (simp_all add: demo_system_defs)
  have h: "check_session ?h = Some (sc_session ?c)" "visibleError ?h = None"
    by (simp_all add: demo_check_defs check_session_def visibleDetail_def visibleError_def)
  have "steps_of (s_log demo_system (sc_session ?c)) = {str ''a'', str ''b''}"
    by (auto simp: demo_system_def steps_of_def step_of_def demo_message_def readString_def obj_get_def)
  moreover from this have "steps_of (s_log demo_system (sc_session ?c)) \<inter> set object_prototype_keys = {}"
    by (simp add: object_prototype_keys_def)
  ultimately show ?thesis
    using observer_shows_server_log [OF demo_system_reachable sys h, of "\<lambda>_ _. 0"] by auto
qed

end
